(* ===== verification/Prelude.thy ===== *)
theory Prelude
  imports Main
begin

text \<open>
  The shared base of the development: the sum type that stands for Go's
  \<open>(value, error)\<close> results, its sequencing combinator, a small Hoare logic for
  state-passing computations that may fail, and generic facts on lists and maps
  that the component theories use.
\<close>

section \<open>Results: a value or an error\<close>

text \<open>
  A Go function that returns \<open>(v, err)\<close> is modelled by \<open>'e + 'a\<close>: \<open>Inl e\<close> is the
  early return with a non-nil error, \<open>Inr v\<close> the normal return.  \<open>result_bind\<close> is
  the \<open>if err != nil { return err }\<close> idiom.
\<close>

named_theorems result_simps \<open>evaluation of results\<close>
named_theorems hoare_rules \<open>introduction rules for triples\<close>

definition result_bind :: "('e + 'a) \<Rightarrow> ('a \<Rightarrow> 'e + 'b) \<Rightarrow> 'e + 'b" where
  "result_bind r f = (case r of Inl e \<Rightarrow> Inl e | Inr x \<Rightarrow> f x)"

lemma result_bind_simps [simp, result_simps]:
  "result_bind (Inl e) f = Inl e"
  "result_bind (Inr x) f = f x"
  by (simp_all add: result_bind_def)

lemma result_bind_Inr_iff [result_simps]:
  "result_bind r f = Inr y \<longleftrightarrow> (\<exists>x. r = Inr x \<and> f x = Inr y)"
  by (cases r) auto

lemma result_bind_Inl_iff [result_simps]:
  "result_bind r f = Inl e \<longleftrightarrow> r = Inl e \<or> (\<exists>x. r = Inr x \<and> f x = Inl e)"
  by (cases r) auto

lemma result_bind_assoc:
  "result_bind (result_bind r f) g = result_bind r (\<lambda>x. result_bind (f x) g)"
  by (cases r) auto

definition map_error :: "('e \<Rightarrow> 'f) \<Rightarrow> 'e + 'a \<Rightarrow> 'f + 'a" where
  "map_error h r = (case r of Inl e \<Rightarrow> Inl (h e) | Inr x \<Rightarrow> Inr x)"

lemma map_error_simps [simp, result_simps]:
  "map_error h (Inl e) = Inl (h e)"
  "map_error h (Inr x) = Inr x"
  by (simp_all add: map_error_def)

lemma map_error_Inr_iff [simp]: "map_error h r = Inr x \<longleftrightarrow> r = Inr x"
  by (cases r) auto

lemma Inr_map_error_iff [simp]: "Inr x = map_error h r \<longleftrightarrow> r = Inr x"
  by (cases r) auto

lemma map_error_Inl_iff: "map_error h r = Inl e \<longleftrightarrow> (\<exists>e'. r = Inl e' \<and> e = h e')"
  by (cases r) auto

section \<open>State-passing computations that may fail\<close>

text \<open>
  An effectful Go function is a function from the state to a result and the state
  after it.  The state is returned on the error path as well: what the function did
  before it failed has happened.
\<close>

type_synonym ('s, 'e, 'a) comp = "'s \<Rightarrow> ('e + 'a) \<times> 's"

definition ret :: "'a \<Rightarrow> ('s, 'e, 'a) comp" where
  "ret x s = (Inr x, s)"

definition fail :: "'e \<Rightarrow> ('s, 'e, 'a) comp" where
  "fail e s = (Inl e, s)"

definition bind_comp :: "('s, 'e, 'a) comp \<Rightarrow> ('a \<Rightarrow> ('s, 'e, 'b) comp) \<Rightarrow> ('s, 'e, 'b) comp" where
  "bind_comp m f s = (case m s of (Inl e, s') \<Rightarrow> (Inl e, s') | (Inr x, s') \<Rightarrow> f x s')"

text \<open>\<open>attempt\<close> hands the outcome to the caller, which branches on the error itself.\<close>

definition attempt :: "('s, 'e, 'a) comp \<Rightarrow> ('s, 'f, 'e + 'a) comp" where
  "attempt m s = (case m s of (r, s') \<Rightarrow> (Inr r, s'))"

definition lift_result :: "'e + 'a \<Rightarrow> ('s, 'e, 'a) comp" where
  "lift_result r s = (r, s)"

definition relabel :: "('e \<Rightarrow> 'f) \<Rightarrow> ('s, 'e, 'a) comp \<Rightarrow> ('s, 'f, 'a) comp" where
  "relabel h m s = (case m s of (r, s') \<Rightarrow> (map_error h r, s'))"

text \<open>Go's \<open>defer\<close>: the clean-up runs on every path, and its own outcome is dropped.\<close>

definition with_defer :: "('s, 'e, 'a) comp \<Rightarrow> ('s \<Rightarrow> 's) \<Rightarrow> ('s, 'e, 'a) comp" where
  "with_defer m d s = (case m s of (r, s') \<Rightarrow> (r, d s'))"

lemmas comp_defs = ret_def fail_def bind_comp_def attempt_def lift_result_def relabel_def
  with_defer_def

text \<open>Running a computation backwards from its result.\<close>

lemma bind_comp_Inr_iff:
  "bind_comp m f s = (Inr y, s') \<longleftrightarrow> (\<exists>x s1. m s = (Inr x, s1) \<and> f x s1 = (Inr y, s'))"
  by (auto simp: bind_comp_def split: sum.splits prod.splits)

lemma bind_comp_Inl_iff:
  "bind_comp m f s = (Inl e, s') \<longleftrightarrow>
     m s = (Inl e, s') \<or> (\<exists>x s1. m s = (Inr x, s1) \<and> f x s1 = (Inl e, s'))"
  by (auto simp: bind_comp_def split: sum.splits prod.splits)

lemma attempt_iff [simp]:
  "attempt m s = (Inr r, s') \<longleftrightarrow> m s = (r, s')" "attempt m s \<noteq> (Inl e, s')"
  by (auto simp: attempt_def split: prod.splits)

lemma pure_comp_iff [simp]:
  "ret x s = (r, s') \<longleftrightarrow> r = Inr x \<and> s' = s" "fail e s = (r', s') \<longleftrightarrow> r' = Inl e \<and> s' = s"
  "lift_result q s = (r', s') \<longleftrightarrow> r' = q \<and> s' = s"
  by (auto simp: ret_def fail_def lift_result_def)

lemmas bind_iffs = bind_comp_Inr_iff bind_comp_Inl_iff

subsection \<open>Triples\<close>

text \<open>
  \<open>triple P m Q R\<close>: from a state in \<open>P\<close>, \<open>m\<close> ends normally with \<open>x\<close> in \<open>Q x\<close> or
  with the error \<open>e\<close> in \<open>R e\<close>.  Every computation here is a total function, so this
  is total correctness.
\<close>

definition triple ::
  "('s \<Rightarrow> bool) \<Rightarrow> ('s, 'e, 'a) comp \<Rightarrow> ('a \<Rightarrow> 's \<Rightarrow> bool) \<Rightarrow> ('e \<Rightarrow> 's \<Rightarrow> bool) \<Rightarrow> bool" where
  "triple P m Q R \<longleftrightarrow>
     (\<forall>s. P s \<longrightarrow> (case m s of (Inl e, s') \<Rightarrow> R e s' | (Inr x, s') \<Rightarrow> Q x s'))"

lemma tripleI:
  assumes "\<And>s x s'. P s \<Longrightarrow> m s = (Inr x, s') \<Longrightarrow> Q x s'"
    and "\<And>s e s'. P s \<Longrightarrow> m s = (Inl e, s') \<Longrightarrow> R e s'"
  shows "triple P m Q R"
  using assms unfolding triple_def by (auto split: sum.splits prod.splits)

lemma triple_okD: "triple P m Q R \<Longrightarrow> P s \<Longrightarrow> m s = (Inr x, s') \<Longrightarrow> Q x s'"
  unfolding triple_def by (auto split: sum.splits prod.splits)

lemma triple_errD: "triple P m Q R \<Longrightarrow> P s \<Longrightarrow> m s = (Inl e, s') \<Longrightarrow> R e s'"
  unfolding triple_def by (auto split: sum.splits prod.splits)

lemma triple_allD: "triple P m (\<lambda>_. Q) (\<lambda>_. Q) \<Longrightarrow> P s \<Longrightarrow> m s = (r, s') \<Longrightarrow> Q s'"
  unfolding triple_def by (auto split: sum.splits prod.splits)

lemma triple_conseq:
  assumes "triple P' m Q' R'" and "\<And>s. P s \<Longrightarrow> P' s"
    and "\<And>x s. Q' x s \<Longrightarrow> Q x s" and "\<And>e s. R' e s \<Longrightarrow> R e s"
  shows "triple P m Q R"
  using assms by (intro tripleI) (blast dest: triple_okD triple_errD)+

lemma triple_ret [hoare_rules]: "(\<And>s. P s \<Longrightarrow> Q x s) \<Longrightarrow> triple P (ret x) Q R"
  by (simp add: triple_def ret_def)

lemma triple_fail [hoare_rules]: "(\<And>s. P s \<Longrightarrow> R e s) \<Longrightarrow> triple P (fail e) Q R"
  by (simp add: triple_def fail_def)

lemma triple_bind [hoare_rules]:
  assumes "triple P m M R" and "\<And>x. triple (M x) (f x) Q R"
  shows "triple P (bind_comp m f) Q R"
  using assms unfolding triple_def bind_comp_def by (fastforce split: sum.splits prod.splits)

lemma triple_attempt [hoare_rules]:
  assumes "triple P m (\<lambda>x. Q (Inr x)) (\<lambda>e. Q (Inl e))"
  shows "triple P (attempt m) Q R"
  using assms unfolding triple_def attempt_def
  by (auto split: sum.splits prod.splits) (metis sum.exhaust)

lemma triple_if [hoare_rules]:
  assumes "b \<Longrightarrow> triple P m Q R" and "\<not> b \<Longrightarrow> triple P m' Q R"
  shows "triple P (if b then m else m') Q R"
  using assms by (cases b) auto

lemma triple_lift_result [hoare_rules]:
  assumes "\<And>x s. r = Inr x \<Longrightarrow> P s \<Longrightarrow> Q x s" and "\<And>e s. r = Inl e \<Longrightarrow> P s \<Longrightarrow> R e s"
  shows "triple P (lift_result r) Q R"
  using assms by (auto simp: triple_def lift_result_def split: sum.splits)

lemma triple_relabel [hoare_rules]:
  assumes "triple P m Q (\<lambda>e. R (h e))"
  shows "triple P (relabel h m) Q R"
  using assms unfolding triple_def relabel_def by (fastforce split: sum.splits prod.splits)

lemma triple_case_option [hoare_rules]:
  assumes "v = None \<Longrightarrow> triple P m Q R" and "\<And>x. v = Some x \<Longrightarrow> triple P (f x) Q R"
  shows "triple P (case v of None \<Rightarrow> m | Some x \<Rightarrow> f x) Q R"
  using assms by (cases v) auto

lemma triple_case_sum [hoare_rules]:
  assumes "\<And>e. r = Inl e \<Longrightarrow> triple P (f e) Q R" and "\<And>x. r = Inr x \<Longrightarrow> triple P (g x) Q R"
  shows "triple P (case r of Inl e \<Rightarrow> f e | Inr x \<Rightarrow> g x) Q R"
  using assms by (cases r) auto

section \<open>Lists and association lists\<close>

lemma drop_length_less: "e \<noteq> [] \<Longrightarrow> s \<noteq> [] \<Longrightarrow> length (drop (length e) s) < length s"
  by (cases e) auto

lemma distinct_snoc [simp]: "distinct (xs @ [x]) \<longleftrightarrow> distinct xs \<and> x \<notin> set xs"
  by auto

text \<open>A run that returns a value, from the evaluation of the test that it does.\<close>

lemma returned: "isl (fst p) = False \<Longrightarrow> \<exists>y w. p = (Inr y, w)"
  by (cases p; cases "fst p") auto

lemma refused: "isl (fst p) = True \<Longrightarrow> \<exists>e w. p = (Inl e, w)"
  by (cases p; cases "fst p") auto

end
