(* ===== verification/GoStrings.thy ===== *)
theory GoStrings
  imports Prelude
begin

text \<open>
  What the code uses of Go's \<open>strings\<close>, \<open>strconv\<close> and \<open>unicode\<close> packages.  A Go
  string is a byte sequence, and so is Isabelle's \<open>string\<close> (its characters are the
  256 bytes), so \<open>len\<close> is \<open>length\<close>, and a non-ASCII character is the several bytes
  of its UTF-8 encoding.
\<close>

section \<open>Prefixes and suffixes\<close>

definition has_prefix :: "string \<Rightarrow> string \<Rightarrow> bool" where
  "has_prefix s p \<longleftrightarrow> take (length p) s = p"

definition has_suffix :: "string \<Rightarrow> string \<Rightarrow> bool" where
  "has_suffix s p \<longleftrightarrow> has_prefix (rev s) (rev p)"

definition trim_prefix :: "string \<Rightarrow> string \<Rightarrow> string" where
  "trim_prefix s p = (if has_prefix s p then drop (length p) s else s)"

definition trim_suffix :: "string \<Rightarrow> string \<Rightarrow> string" where
  "trim_suffix s p = (if has_suffix s p then take (length s - length p) s else s)"

lemma has_prefix_append [simp]: "has_prefix (p @ s) p"
  by (simp add: has_prefix_def)

lemma has_prefix_iff: "has_prefix s p \<longleftrightarrow> (\<exists>t. s = p @ t)"
  unfolding has_prefix_def by (metis append_eq_conv_conj append_take_drop_id)

lemma has_prefix_length: "has_prefix s p \<Longrightarrow> length p \<le> length s"
  by (auto simp: has_prefix_iff)

lemma has_suffix_append [simp]: "has_suffix (s @ p) p"
  by (simp add: has_suffix_def)

lemma has_suffix_iff: "has_suffix s p \<longleftrightarrow> (\<exists>t. s = t @ p)"
proof
  assume "has_suffix s p"
  then obtain t where "rev s = rev p @ t"
    unfolding has_suffix_def has_prefix_iff by blast
  then have "s = rev t @ p"
    by (metis rev_append rev_rev_ident)
  then show "\<exists>t. s = t @ p" ..
qed auto

lemma trim_suffix_append [simp]: "trim_suffix (s @ p) p = s"
  by (simp add: trim_suffix_def)

lemma trim_prefix_append [simp]: "trim_prefix (p @ s) p = s"
  by (simp add: trim_prefix_def)

lemma trim_suffix_snoc_neq: "last s \<noteq> c \<Longrightarrow> trim_suffix s [c] = s"
  by (auto simp: trim_suffix_def has_suffix_iff)

lemma trim_suffix_Nil [simp]: "p \<noteq> [] \<Longrightarrow> trim_suffix [] p = []"
  by (simp add: trim_suffix_def)

section \<open>Split and Join on a one-byte separator\<close>

fun split_on :: "char \<Rightarrow> string \<Rightarrow> string list" where
  "split_on c [] = [[]]"
| "split_on c (x # xs) =
     (if x = c then [] # split_on c xs
      else (case split_on c xs of [] \<Rightarrow> [[x]] | y # ys \<Rightarrow> (x # y) # ys))"

fun join_with :: "char \<Rightarrow> string list \<Rightarrow> string" where
  "join_with c [] = []"
| "join_with c [x] = x"
| "join_with c (x # y # ys) = x @ c # join_with c (y # ys)"

lemma split_on_neq_Nil [simp]: "split_on c s \<noteq> []"
  by (induction s) (auto split: list.splits)

lemma split_on_no_sep: "c \<notin> set s \<Longrightarrow> split_on c s = [s]"
  by (induction s) auto

lemma split_on_append_sep: "c \<notin> set s \<Longrightarrow> split_on c (s @ c # t) = s # split_on c t"
  by (induction s) (auto split: list.splits)

lemma split_on_append: "split_on c (s @ c # t) = split_on c s @ split_on c t"
proof (induction s)
  case (Cons x s)
  then show ?case by (cases "split_on c s") auto
qed simp

lemma split_on_parts: "p \<in> set (split_on c s) \<Longrightarrow> c \<notin> set p"
proof (induction s arbitrary: p)
  case (Cons x xs)
  then show ?case
    by (cases "split_on c xs") (auto split: if_splits)
qed simp

lemma split_on_chars: "p \<in> set (split_on c s) \<Longrightarrow> set p \<subseteq> set s"
proof (induction s arbitrary: p)
  case (Cons x xs)
  then show ?case
    by (cases "split_on c xs") (fastforce split: if_splits)+
qed simp

lemma join_split [simp]: "join_with c (split_on c s) = s"
proof (induction s)
  case (Cons x xs)
  then show ?case
    by (cases "split_on c xs"; cases "tl (split_on c xs)") (auto split: list.splits)
qed simp

lemma split_join:
  assumes "ps \<noteq> []" and "\<And>p. p \<in> set ps \<Longrightarrow> c \<notin> set p"
  shows "split_on c (join_with c ps) = ps"
  using assms
proof (induction c ps rule: join_with.induct)
  case (2 c x)
  then show ?case by (simp add: split_on_no_sep)
next
  case (3 c x y ys)
  then show ?case by (simp add: split_on_append_sep)
qed simp

lemma join_with_inject:
  assumes "join_with c ps = join_with c qs" and "ps \<noteq> []" and "qs \<noteq> []"
    and "\<And>p. p \<in> set ps \<Longrightarrow> c \<notin> set p" and "\<And>q. q \<in> set qs \<Longrightarrow> c \<notin> set q"
  shows "ps = qs"
  using assms by (metis split_join)

lemma join_with_Cons: "ps \<noteq> [] \<Longrightarrow> join_with c (p # ps) = p @ c # join_with c ps"
  by (cases ps) auto

lemma join_with_append:
  "ps \<noteq> [] \<Longrightarrow> qs \<noteq> [] \<Longrightarrow> join_with c (ps @ qs) = join_with c ps @ c # join_with c qs"
proof (induction ps)
  case (Cons p ps)
  then show ?case by (cases "ps = []") (auto simp: join_with_Cons)
qed simp

lemma join_with_eq_Nil:
  "(\<And>p. p \<in> set ps \<Longrightarrow> p \<noteq> []) \<Longrightarrow> join_with c ps = [] \<longleftrightarrow> ps = []"
  by (induction c ps rule: join_with.induct) auto

text \<open>\<open>strings.Cut\<close>: the text before and after the first separator, and whether there is one.\<close>

fun cut_on :: "char \<Rightarrow> string \<Rightarrow> string \<times> string \<times> bool" where
  "cut_on c [] = ([], [], False)"
| "cut_on c (x # xs) =
     (if x = c then ([], xs, True)
      else (case cut_on c xs of (k, v, ok) \<Rightarrow> (x # k, v, ok)))"

lemma cut_on_append: "c \<notin> set k \<Longrightarrow> cut_on c (k @ c # v) = (k, v, True)"
  by (induction k) auto

lemma cut_on_none: "c \<notin> set s \<Longrightarrow> cut_on c s = (s, [], False)"
  by (induction s) auto

section \<open>White space\<close>

text \<open>
  The UTF-8 encodings of the characters for which \<open>unicode.IsSpace\<close> holds.  No
  encoding is a prefix of another one, and the first byte of each is no continuation
  byte, so matching them byte-wise is decoding.
\<close>

definition space_encodings :: "string list" where
  "space_encodings =
     [[CHR 0x09], [CHR 0x0A], [CHR 0x0B], [CHR 0x0C], [CHR 0x0D], [CHR 0x20],
      [CHR 0xC2, CHR 0x85], [CHR 0xC2, CHR 0xA0], [CHR 0xE1, CHR 0x9A, CHR 0x80],
      [CHR 0xE2, CHR 0x80, CHR 0x80], [CHR 0xE2, CHR 0x80, CHR 0x81],
      [CHR 0xE2, CHR 0x80, CHR 0x82], [CHR 0xE2, CHR 0x80, CHR 0x83],
      [CHR 0xE2, CHR 0x80, CHR 0x84], [CHR 0xE2, CHR 0x80, CHR 0x85],
      [CHR 0xE2, CHR 0x80, CHR 0x86], [CHR 0xE2, CHR 0x80, CHR 0x87],
      [CHR 0xE2, CHR 0x80, CHR 0x88], [CHR 0xE2, CHR 0x80, CHR 0x89],
      [CHR 0xE2, CHR 0x80, CHR 0x8A], [CHR 0xE2, CHR 0x80, CHR 0xA8],
      [CHR 0xE2, CHR 0x80, CHR 0xA9], [CHR 0xE2, CHR 0x80, CHR 0xAF],
      [CHR 0xE2, CHR 0x81, CHR 0x9F], [CHR 0xE3, CHR 0x80, CHR 0x80]]"

lemma space_encodings_nonempty: "e \<in> set space_encodings \<Longrightarrow> e \<noteq> []"
  by (auto simp: space_encodings_def)

text \<open>Drops the words of \<open>es\<close> from the front as long as one of them is there.\<close>

function strip_front :: "string list \<Rightarrow> string \<Rightarrow> string" where
  "strip_front es s =
     (case find (\<lambda>e. e \<noteq> [] \<and> has_prefix s e) es of
        None \<Rightarrow> s
      | Some e \<Rightarrow> strip_front es (drop (length e) s))"
  by pat_completeness auto
termination
proof (relation "measure (\<lambda>(es, s). length s)", goal_cases)
  case (2 es s e)
  then have "e \<noteq> []" and "length e \<le> length s"
    by (auto simp: find_Some_iff dest: has_prefix_length)
  then show ?case by (cases e) auto
qed simp

declare strip_front.simps [simp del]

definition trim_left_space :: "string \<Rightarrow> string" where
  "trim_left_space s = strip_front space_encodings s"

definition trim_right_space :: "string \<Rightarrow> string" where
  "trim_right_space s = rev (strip_front (map rev space_encodings) (rev s))"

definition trim_space :: "string \<Rightarrow> string" where
  "trim_space s = trim_right_space (trim_left_space s)"

text \<open>A word without these bytes at its ends is left alone by \<open>TrimSpace\<close>.\<close>

definition space_bytes :: "char list" where
  "space_bytes = concat space_encodings"

definition plain_byte :: "char \<Rightarrow> bool" where
  "plain_byte c \<longleftrightarrow> c \<notin> set space_bytes"

lemma has_prefix_hd: "has_prefix s e \<Longrightarrow> e \<noteq> [] \<Longrightarrow> s \<noteq> [] \<and> hd s = hd e"
  by (auto simp: has_prefix_iff)

lemma strip_front_id:
  assumes "\<And>e. e \<in> set es \<Longrightarrow> e \<noteq> [] \<Longrightarrow> s \<noteq> [] \<Longrightarrow> hd e \<noteq> hd s"
  shows "strip_front es s = s"
proof -
  have "find (\<lambda>e. e \<noteq> [] \<and> has_prefix s e) es = None"
    using assms has_prefix_hd by (fastforce simp: find_None_iff)
  then show ?thesis by (simp add: strip_front.simps)
qed

lemma trim_left_space_plain: "plain_byte (hd s) \<Longrightarrow> trim_left_space s = s"
  unfolding trim_left_space_def plain_byte_def space_bytes_def
  by (rule strip_front_id) (metis UN_I hd_in_set set_concat)

lemma trim_right_space_plain: "s = [] \<or> plain_byte (last s) \<Longrightarrow> trim_right_space s = s"
proof -
  assume "s = [] \<or> plain_byte (last s)"
  then have "strip_front (map rev space_encodings) (rev s) = rev s"
    unfolding plain_byte_def space_bytes_def
    by (intro strip_front_id)
      (auto simp: hd_rev dest: last_in_set)
  then show ?thesis by (simp add: trim_right_space_def)
qed

lemma trim_space_plain:
  "s = [] \<or> plain_byte (hd s) \<and> plain_byte (last s) \<Longrightarrow> trim_space s = s"
  unfolding trim_space_def
  by (metis trim_left_space_plain trim_right_space_plain trim_left_space_def strip_front_id)

lemma strip_front_suffix: "\<exists>p. s = p @ strip_front es s"
proof (induction es s rule: strip_front.induct)
  case (1 es s)
  show ?case
  proof (cases "find (\<lambda>e. e \<noteq> [] \<and> has_prefix s e) es")
    case None
    then show ?thesis by (simp add: strip_front.simps)
  next
    case (Some e)
    then have "has_prefix s e" by (auto simp: find_Some_iff)
    moreover obtain p where "drop (length e) s = p @ strip_front es (drop (length e) s)"
      using 1 Some by blast
    moreover have "strip_front es s = strip_front es (drop (length e) s)"
      using Some by (subst strip_front.simps) simp
    ultimately show ?thesis
      by (metis append.assoc append_take_drop_id)
  qed
qed

lemma strip_front_none:
  "(\<And>e. e \<in> set es \<Longrightarrow> e \<noteq> [] \<Longrightarrow> \<not> has_prefix s e) \<Longrightarrow> strip_front es s = s"
  by (subst strip_front.simps)
    (auto simp: find_None_iff find_Some_iff split: option.splits dest: nth_mem)

lemma strip_front_done: "e \<in> set es \<Longrightarrow> e \<noteq> [] \<Longrightarrow> \<not> has_prefix (strip_front es s) e"
proof (induction es s rule: strip_front.induct)
  case (1 es s)
  show ?case
  proof (cases "find (\<lambda>e. e \<noteq> [] \<and> has_prefix s e) es")
    case None
    then have "strip_front es s = s" by (simp add: strip_front.simps)
    then show ?thesis using None 1(2,3) by (auto simp: find_None_iff)
  next
    case (Some e')
    then have "strip_front es s = strip_front es (drop (length e') s)"
      by (subst strip_front.simps) simp
    then show ?thesis using 1 Some by simp
  qed
qed

text \<open>A byte that is in none of the words stops the stripping.\<close>

lemma has_prefix_guard: "c \<notin> set e \<Longrightarrow> has_prefix (a @ c # b) e \<longleftrightarrow> has_prefix a e"
proof
  assume c: "c \<notin> set e" and "has_prefix (a @ c # b) e"
  then obtain t where "a @ c # b = e @ t" by (auto simp: has_prefix_iff)
  then show "has_prefix a e" using c
    by (auto simp: append_eq_append_conv2 has_prefix_iff Cons_eq_append_conv)
qed (auto simp: has_prefix_iff)

lemma strip_front_guard:
  assumes "\<And>e. e \<in> set es \<Longrightarrow> c \<notin> set e"
  shows "strip_front es (a @ c # b) = strip_front es a @ c # b"
  using assms
proof (induction es a rule: strip_front.induct)
  case (1 es a)
  have same: "find (\<lambda>e. e \<noteq> [] \<and> has_prefix (a @ c # b) e) es = find (\<lambda>e. e \<noteq> [] \<and> has_prefix a e) es"
    using 1(2) by (intro find_cong) (auto simp: has_prefix_guard)
  show ?case
  proof (cases "find (\<lambda>e. e \<noteq> [] \<and> has_prefix a e) es")
    case None
    then show ?thesis using same by (simp add: strip_front.simps)
  next
    case (Some e)
    then have "length e \<le> length a" by (auto simp: find_Some_iff dest: has_prefix_length)
    then have "drop (length e) (a @ c # b) = drop (length e) a @ c # b" by simp
    then show ?thesis using 1(1) [OF Some 1(2)] Some same
      by (simp add: strip_front.simps [of es a] strip_front.simps [of es "a @ c # b"])
  qed
qed

lemma trim_space_guard:
  assumes "plain_byte c"
  shows "trim_space (a @ c # b) = trim_left_space a @ c # trim_right_space b"
proof -
  have c: "e \<in> set space_encodings \<Longrightarrow> c \<notin> set e" for e
    using assms by (auto simp: plain_byte_def space_bytes_def)
  have "trim_left_space (a @ c # b) = trim_left_space a @ c # b"
    unfolding trim_left_space_def by (rule strip_front_guard) (rule c)
  moreover have "strip_front (map rev space_encodings) (rev b @ c # rev (trim_left_space a)) =
      strip_front (map rev space_encodings) (rev b) @ c # rev (trim_left_space a)"
    by (rule strip_front_guard) (use c in auto)
  ultimately show ?thesis by (simp add: trim_space_def trim_right_space_def)
qed

lemma trim_right_space_prefix: "\<exists>t. s = trim_right_space s @ t"
  using strip_front_suffix [of "rev s" "map rev space_encodings"]
  unfolding trim_right_space_def by (metis rev_append rev_rev_ident)

lemma trim_left_space_none:
  "trim_left_space s = s" if "\<And>e. e \<in> set space_encodings \<Longrightarrow> \<not> has_prefix s e"
  unfolding trim_left_space_def using that by (rule strip_front_none)

lemma trim_left_trim_space [simp]: "trim_left_space (trim_space s) = trim_space s"
proof (rule trim_left_space_none)
  fix e
  assume e: "e \<in> set space_encodings"
  obtain t where t: "trim_left_space s = trim_space s @ t"
    unfolding trim_space_def using trim_right_space_prefix by blast
  have "\<not> has_prefix (trim_left_space s) e"
    unfolding trim_left_space_def by (rule strip_front_done [OF e space_encodings_nonempty [OF e]])
  then show "\<not> has_prefix (trim_space s) e" by (auto simp: t has_prefix_iff)
qed

lemma trim_right_space_idem [simp]: "trim_right_space (trim_right_space s) = trim_right_space s"
  unfolding trim_right_space_def
  by (simp, intro strip_front_none strip_front_done)

lemma trim_space_idem [simp]: "trim_space (trim_space s) = trim_space s"
  unfolding trim_space_def [of "trim_space s"] trim_left_trim_space by (simp add: trim_space_def)

lemma set_trim_left_space: "set (trim_left_space s) \<subseteq> set s"
  unfolding trim_left_space_def by (metis set_append strip_front_suffix sup_ge2)

lemma set_trim_right_space: "set (trim_right_space s) \<subseteq> set s"
  unfolding trim_right_space_def by (metis set_append set_rev strip_front_suffix sup_ge2)

lemma set_trim_space: "set (trim_space s) \<subseteq> set s"
  unfolding trim_space_def using set_trim_left_space set_trim_right_space by blast

text \<open>\<open>strings.Fields\<close>: the maximal runs of non-space characters.\<close>

fun span_word :: "string \<Rightarrow> string \<times> string" where
  "span_word [] = ([], [])"
| "span_word (c # s) =
     (if find (\<lambda>e. has_prefix (c # s) e) space_encodings = None
      then (case span_word s of (w, r) \<Rightarrow> (c # w, r)) else ([], c # s))"

lemma span_word_append: "span_word s = (w, r) \<Longrightarrow> s = w @ r"
  by (induction s arbitrary: w) (auto split: if_splits prod.splits)

function fields :: "string \<Rightarrow> string list" where
  "fields s =
     (case span_word (trim_left_space s) of
        (w, r) \<Rightarrow> if w = [] then [] else w # fields r)"
  by pat_completeness auto
termination
proof (relation "measure length", goal_cases)
  case (2 s w r)
  then have "trim_left_space s = w @ r" by (metis span_word_append)
  moreover have "length (trim_left_space s) \<le> length s"
    unfolding trim_left_space_def by (metis length_append strip_front_suffix le_add2)
  ultimately show ?case using 2 by (cases w) auto
qed simp

declare fields.simps [simp del]

section \<open>Decimal numbers\<close>

definition is_digit :: "char \<Rightarrow> bool" where
  "is_digit c \<longleftrightarrow> 48 \<le> (of_char c :: nat) \<and> (of_char c :: nat) \<le> 57"

definition digit_val :: "char \<Rightarrow> nat" where
  "digit_val c = of_char c - 48"

definition digit_char :: "nat \<Rightarrow> char" where
  "digit_char n = char_of (48 + n)"

lemma of_char_of_nat [simp]: "n < 256 \<Longrightarrow> of_char (char_of (n :: nat)) = n"
  by (simp add: of_char_of take_bit_eq_mod)

lemma digit_char_simps [simp]:
  assumes "n < 10"
  shows "is_digit (digit_char n)" and "digit_val (digit_char n) = n"
  using assms by (simp_all add: is_digit_def digit_val_def digit_char_def)

fun read_nat :: "nat \<Rightarrow> string \<Rightarrow> nat" where
  "read_nat a [] = a"
| "read_nat a (c # s) = read_nat (10 * a + digit_val c) s"

fun show_nat :: "nat \<Rightarrow> string" where
  "show_nat n =
     (if n < 10 then [digit_char n] else show_nat (n div 10) @ [digit_char (n mod 10)])"

declare show_nat.simps [simp del]

lemma read_nat_append: "read_nat a (s @ t) = read_nat (read_nat a s) t"
  by (induction s arbitrary: a) auto

lemma show_nat_neq_Nil [simp]: "show_nat n \<noteq> []"
  by (subst show_nat.simps) simp

lemma show_nat_digits: "c \<in> set (show_nat n) \<Longrightarrow> is_digit c"
proof (induction n arbitrary: c rule: show_nat.induct)
  case (1 n)
  then show ?case
    by (cases "n < 10") (auto simp: show_nat.simps [of n])
qed

lemma read_show_nat [simp]: "read_nat 0 (show_nat n) = n"
proof (induction n rule: show_nat.induct)
  case (1 n)
  then show ?case
    by (cases "n < 10") (auto simp: show_nat.simps [of n] read_nat_append)
qed

text \<open>
  \<open>strconv.ParseInt(s, 10, 64)\<close> and, on a 64-bit platform, \<open>strconv.Atoi(s)\<close>: an
  optional sign, at least one digit, nothing else, and a value in the range of
  \<open>int64\<close>.  Both reject underscores in base 10.
\<close>

definition min_int64 :: int where "min_int64 = - (2 ^ 63)"
definition max_int64 :: int where "max_int64 = 2 ^ 63 - 1"

definition parse_digits :: "string \<Rightarrow> nat option" where
  "parse_digits s = (if s \<noteq> [] \<and> list_all is_digit s then Some (read_nat 0 s) else None)"

definition in_int64 :: "int \<Rightarrow> bool" where
  "in_int64 i \<longleftrightarrow> min_int64 \<le> i \<and> i \<le> max_int64"

definition parse_int :: "string \<Rightarrow> int option" where
  "parse_int s =
     (let neg = has_prefix s ''-'';
          body = (if neg \<or> has_prefix s ''+'' then tl s else s)
      in case parse_digits body of
           None \<Rightarrow> None
         | Some n \<Rightarrow> (let i = (if neg then - int n else int n)
                     in if in_int64 i then Some i else None))"

text \<open>\<open>strconv.FormatInt(i, 10)\<close> and \<open>strconv.Itoa\<close>.\<close>

definition format_int :: "int \<Rightarrow> string" where
  "format_int i = (if i < 0 then CHR ''-'' # show_nat (nat (- i)) else show_nat (nat i))"

lemma parse_digits_show [simp]: "parse_digits (show_nat n) = Some n"
  by (auto simp: parse_digits_def list_all_iff dest: show_nat_digits)

lemma digit_not_sign: "is_digit c \<Longrightarrow> c \<noteq> CHR ''-'' \<and> c \<noteq> CHR ''+''"
  by (auto simp: is_digit_def)

lemma has_prefix_show_nat:
  "\<not> has_prefix (show_nat n) ''-''" "\<not> has_prefix (show_nat n) ''+''"
  using show_nat_digits [of "hd (show_nat n)" n] digit_not_sign
  by (auto simp: has_prefix_iff is_digit_def)

lemma parse_format_int: "in_int64 i \<Longrightarrow> parse_int (format_int i) = Some i"
  by (auto simp: parse_int_def format_int_def Let_def has_prefix_show_nat)
    (auto simp: has_prefix_def)

lemma parse_int_range: "parse_int s = Some i \<Longrightarrow> in_int64 i"
  by (auto simp: parse_int_def Let_def split: option.splits if_splits)

lemma format_int_chars: "c \<in> set (format_int i) \<Longrightarrow> is_digit c \<or> c = CHR ''-''"
  by (auto simp: format_int_def dest: show_nat_digits split: if_splits)

lemma format_int_neq_Nil [simp]: "format_int i \<noteq> []"
  by (simp add: format_int_def)

lemma plain_byte_digit: "is_digit c \<or> c = CHR ''-'' \<Longrightarrow> plain_byte c"
  by (auto simp: plain_byte_def space_bytes_def space_encodings_def is_digit_def)

lemma trim_space_format_int [simp]: "trim_space (format_int i) = format_int i"
proof (rule trim_space_plain)
  have "plain_byte c" if "c \<in> set (format_int i)" for c
    using that by (blast intro: plain_byte_digit dest: format_int_chars)
  then show "format_int i = [] \<or> plain_byte (hd (format_int i)) \<and> plain_byte (last (format_int i))"
    by simp
qed

lemma digit_char_zero: "n < 10 \<Longrightarrow> digit_char n = CHR ''0'' \<Longrightarrow> n = 0"
  using digit_char_simps(2) [of n] by (simp add: digit_val_def)

lemma hd_show_nat: "hd (show_nat n) = CHR ''0'' \<Longrightarrow> n = 0"
proof (induction n rule: show_nat.induct)
  case (1 n)
  show ?case
  proof (cases "n < 10")
    case True
    then show ?thesis using 1(2) digit_char_zero by (simp add: show_nat.simps [of n])
  next
    case False
    then have "hd (show_nat (n div 10)) = CHR ''0''" using 1(2) by (simp add: show_nat.simps [of n])
    then have "n div 10 = 0" using 1(1) False by blast
    then show ?thesis using False by simp
  qed
qed

text \<open>\<open>strings.TrimRight(s, "/")\<close>.\<close>

definition trim_right_slashes :: "string \<Rightarrow> string" where
  "trim_right_slashes s = rev (dropWhile (\<lambda>c. c = CHR ''/'') (rev s))"

text \<open>ASCII case mapping of one byte.\<close>

definition lower_byte :: "char \<Rightarrow> char" where
  "lower_byte c = (let n = of_char c :: nat in if 65 \<le> n \<and> n \<le> 90 then char_of (n + 32) else c)"

section \<open>Lines of a file\<close>

text \<open>
  \<open>bufio.Scanner\<close> with its default line splitting and 64 KiB buffer: the lines without
  their line ends, a last empty line dropped; a line of 65536 bytes or more stops the
  scan with \<open>ErrTooLong\<close>, which the flag reports.
\<close>

definition scan_limit :: nat where "scan_limit = 65535"

definition raw_lines :: "string \<Rightarrow> string list" where
  "raw_lines s = (let ls = split_on CHR 0x0A s in if last ls = '''' then butlast ls else ls)"

definition scan_lines :: "string \<Rightarrow> string list \<times> bool" where
  "scan_lines s =
     (let ls = raw_lines s; ok = takeWhile (\<lambda>l. length l \<le> scan_limit) ls
      in (map (\<lambda>l. trim_suffix l [CHR 0x0D]) ok, length ok < length ls))"

end
