(* ===== verification/ArchiveSafety.thy ===== *)
theory ArchiveSafety
  imports ArchiveValidator
begin

text \<open>
  Correctness of the archive validator: the link walk of \<open>resolve\<close> against a small-step
  semantics, the verdict of the passes against declarative conditions, and what an
  accepted archive guarantees to the extraction that follows.
\<close>

section \<open>The semantics of walking a path\<close>

text \<open>
  A configuration is the number of links followed, the components walked so far (from the
  extraction root) and the components still to walk.  A symlink restarts from the root
  with its directory prefixed to its target, a hardlink restarts from the root.
\<close>

type_synonym walk_state = "nat \<times> string list \<times> string list"

abbreviation dot_part :: "string \<Rightarrow> bool" where
  "dot_part p \<equiv> p = '''' \<or> p = ''.''"

inductive walk :: "memberIndex \<Rightarrow> walk_state \<Rightarrow> walk_state \<Rightarrow> bool" for idx where
  stay: "dot_part p \<Longrightarrow> walk idx (h, r, p # ps) (h, r, ps)"
| up: "r \<noteq> [] \<Longrightarrow> walk idx (h, r, ''..'' # ps) (h, butlast r, ps)"
| follow: "\<not> dot_part p \<Longrightarrow> p \<noteq> ''..'' \<Longrightarrow> byName idx (candidate_key r p) = Some m \<Longrightarrow> is_link m
    \<Longrightarrow> linkParts (Linkname m) = Inr t
    \<Longrightarrow> walk idx (h, r, p # ps) (Suc h, [], (if IsSymlink m then r else []) @ t @ ps)"
| descend: "\<not> dot_part p \<Longrightarrow> p \<noteq> ''..'' \<Longrightarrow> \<not> link_at idx (candidate_key r p)
    \<Longrightarrow> ps = [] \<or> (\<exists>m. byName idx (candidate_key r p) = Some m \<and> IsDir m)
    \<Longrightarrow> walk idx (h, r, p # ps) (h, r @ [p], ps)"

inductive_cases walk_ConsE: "walk idx (h, r, p # ps) c"
inductive_cases walk_NilE: "walk idx (h, r, []) c"

lemma link_at_Some: "link_at idx k \<longleftrightarrow> (\<exists>m. byName idx k = Some m \<and> is_link m)"
  by (simp add: link_at_def split: option.splits)

lemma walk_deterministic:
  assumes "walk idx (h, r, p) (h1, r1, p1)" and "walk idx (g, r, p) (g1, r2, p2)"
  shows "r1 = r2 \<and> p1 = p2"
  using assms by (auto elim!: walk.cases simp: link_at_Some)

text \<open>The number of steps to the end of a walk is determined by the two component lists.\<close>

definition walk_ends_in :: "memberIndex \<Rightarrow> nat \<Rightarrow> string list \<Rightarrow> string list \<Rightarrow> bool" where
  "walk_ends_in idx n r p \<longleftrightarrow> (\<exists>h h' r'. (walk idx ^^ n) (h, r, p) (h', r', []))"

lemma walk_ends_in_0: "walk_ends_in idx 0 r p \<longleftrightarrow> p = []"
  by (auto simp: walk_ends_in_def)

lemma walk_ends_in_Suc:
  "walk_ends_in idx (Suc n) r p \<Longrightarrow>
     \<exists>h h1 r1 p1. walk idx (h, r, p) (h1, r1, p1) \<and> walk_ends_in idx n r1 p1"
  unfolding walk_ends_in_def by (metis prod_cases3 relpowp_Suc_D2)

lemma walk_ends_in_unique:
  "walk_ends_in idx n r p \<Longrightarrow> walk_ends_in idx m r p \<Longrightarrow> n = m"
proof (induction n arbitrary: m r p)
  case 0
  then show ?case
    by (cases m) (auto simp: walk_ends_in_0 dest!: walk_ends_in_Suc elim: walk_NilE)
next
  case (Suc n)
  obtain h h1 r1 p1 where w: "walk idx (h, r, p) (h1, r1, p1)" "walk_ends_in idx n r1 p1"
    using walk_ends_in_Suc Suc.prems(1) by blast
  show ?case
  proof (cases m)
    case 0
    then show ?thesis using Suc.prems w by (auto simp: walk_ends_in_0 elim: walk_NilE)
  next
    case m: (Suc m')
    obtain g g1 r2 p2 where "walk idx (g, r, p) (g1, r2, p2)" "walk_ends_in idx m' r2 p2"
      using walk_ends_in_Suc Suc.prems(2) m by blast
    then show ?thesis using Suc.IH w m walk_deterministic by blast
  qed
qed

section \<open>The state keys of the cycle check\<close>

definition safe_comp :: "string \<Rightarrow> bool" where
  "safe_comp c \<longleftrightarrow> c \<noteq> [] \<and> \<not> list_ex control_byte c"

lemma safe_comp_chars: "safe_comp c \<Longrightarrow> CHR 0x00 \<notin> set c \<and> CHR 0x01 \<notin> set c"
  by (auto simp: safe_comp_def control_byte_def list_ex_iff)

lemma set_join_with: "set (join_with c ps) \<subseteq> insert c (\<Union> (set ` set ps))"
  by (induction c ps rule: join_with.induct) auto

lemma join_safe_inject:
  assumes "join_with CHR 0x00 ps = join_with CHR 0x00 qs"
    and "list_all safe_comp ps" and "list_all safe_comp qs"
  shows "ps = qs"
proof (cases "ps = [] \<or> qs = []")
  case True
  then show ?thesis
    using assms by (metis join_with.simps(1) join_with_eq_Nil list_all_iff safe_comp_def)
next
  case False
  then show ?thesis
    using assms join_with_inject [of "CHR 0x00" ps qs] by (auto simp: list_all_iff dest: safe_comp_chars)
qed

lemma split_at_first_mark:
  assumes "xs @ c # ys = xs' @ c # ys'" and "c \<notin> set xs" and "c \<notin> set xs'"
  shows "xs = xs' \<and> ys = ys'"
proof -
  have "takeWhile (\<lambda>x. x \<noteq> c) (xs @ c # ys) = xs" "takeWhile (\<lambda>x. x \<noteq> c) (xs' @ c # ys') = xs'"
    using assms(2,3) by (auto simp: takeWhile_append)
  then show ?thesis using assms(1) by auto
qed

lemma resolveStateKey_inject:
  assumes "resolveStateKey r p = resolveStateKey r' p'"
    and "list_all safe_comp r" "list_all safe_comp p" "list_all safe_comp r'" "list_all safe_comp p'"
  shows "r = r' \<and> p = p'"
proof -
  have no_mark: "CHR 0x01 \<notin> set (join_with CHR 0x00 ps)" if "list_all safe_comp ps" for ps
  proof
    assume "CHR 0x01 \<in> set (join_with CHR 0x00 ps)"
    then obtain q where "q \<in> set ps" and "CHR 0x01 \<in> set q"
      using set_join_with [of "CHR 0x00" ps] by auto
    with that show False by (metis list_all_iff safe_comp_chars)
  qed
  from assms(1) have "join_with CHR 0x00 r = join_with CHR 0x00 r' \<and>
      join_with CHR 0x00 p = join_with CHR 0x00 p'"
    unfolding resolveStateKey_def
    by (rule split_at_first_mark) (rule no_mark, fact)+
  then show ?thesis using assms(2-5) by (blast intro: join_safe_inject)
qed

lemma posixPartsRaw_safe:
  "\<not> list_ex control_byte v \<Longrightarrow> p \<in> set (posixPartsRaw v) \<Longrightarrow> safe_comp p"
  unfolding posixPartsRaw_def safe_comp_def
  by (auto simp: list_ex_iff dest: split_on_chars)

lemma linkParts_safe: "linkParts v = Inr t \<Longrightarrow> list_all safe_comp t"
  by (auto simp: linkParts_def safeText_def list_all_iff intro: posixPartsRaw_safe split: if_splits)

lemma walk_safe:
  assumes "walk idx (h, r, p) (h', r', p')" and "list_all safe_comp r" and "list_all safe_comp p"
  shows "list_all safe_comp r' \<and> list_all safe_comp p'"
  using assms(1)
proof cases
  case (follow q m t ps)
  then show ?thesis using assms(2,3) linkParts_safe [of "Linkname m" t] by auto
next
  case up
  then show ?thesis using assms(2,3) by (auto simp: list_all_iff dest: in_set_butlastD)
qed (use assms(2,3) in auto)

section \<open>\<open>resolve\<close> implements the walk\<close>

text \<open>One round of the loop is one step of the walk, in both directions.\<close>

lemma resolve_loop_step:
  assumes "resolve_loop idx M n h seen r p = Inr r'" and "p \<noteq> []"
  obtains h1 r1 p1 where "walk idx (h, r, p) (h1, r1, p1)" and "Suc n \<le> M"
    and "h \<le> maxArchiveLinkHops \<Longrightarrow> h1 \<le> maxArchiveLinkHops"
    and "resolve_loop idx M (Suc n) h1 (resolveStateKey r p # seen) r1 p1 = Inr r'"
proof -
  obtain q ps where p: "p = q # ps" using assms(2) by (cases p) auto
  note run = assms(1)[unfolded p resolve_loop.simps [of idx M n h seen r "q # ps"]]
  have M: "Suc n \<le> M" using run by (auto split: if_splits)
  consider (stay) "dot_part q" | (up) "q = ''..''"
    | (follow) m where "\<not> dot_part q" "q \<noteq> ''..''" "byName idx (candidate_key r q) = Some m" "is_link m"
    | (descend) "\<not> dot_part q" "q \<noteq> ''..''" "\<not> link_at idx (candidate_key r q)"
    by (auto simp: link_at_Some)
  then show thesis
  proof cases
    case stay
    with run p show thesis
      by (intro that [of h r ps] M) (auto simp: Let_def split: if_splits intro: walk.stay)
  next
    case up
    with run p show thesis
      by (intro that [of h "butlast r" ps] M) (auto simp: Let_def split: if_splits intro: walk.up)
  next
    case follow
    with run obtain t where t: "linkParts (Linkname m) = Inr t"
      by (auto simp: Let_def split: if_splits sum.splits)
    have "walk idx (h, r, p) (Suc h, [], (if IsSymlink m then r else []) @ t @ ps)"
      unfolding p by (rule walk.follow) (use follow t in auto)
    with follow run t show thesis
      by (intro that [of "Suc h" "[]" "(if IsSymlink m then r else []) @ t @ ps"] M)
        (auto simp: Let_def p split: if_splits)
  next
    case descend
    with run p show thesis
      by (intro that [of h "r @ [q]" ps] M)
        (auto simp: Let_def link_at_def split: if_splits option.splits intro!: walk.descend)
  qed
qed

lemma resolve_loop_walk:
  assumes "walk idx (h, r, p) (h1, r1, p1)" and "Suc n \<le> M" and "h1 \<le> maxArchiveLinkHops"
    and "resolveStateKey r p \<notin> set seen"
  shows "resolve_loop idx M n h seen r p =
           resolve_loop idx M (Suc n) h1 (resolveStateKey r p # seen) r1 p1"
  using assms(1)
proof cases
  case (stay q)
  then show ?thesis using assms(2-) by (simp add: resolve_loop.simps [of idx M n h] Let_def)
next
  case up
  then show ?thesis using assms(2-) by (simp add: resolve_loop.simps [of idx M n h] Let_def)
next
  case (follow q m t ps)
  then show ?thesis using assms(2-) by (simp add: resolve_loop.simps [of idx M n h] Let_def)
next
  case (descend q)
  then show ?thesis using assms(2-)
    by (auto simp: resolve_loop.simps [of idx M n h] Let_def link_at_def split: option.splits)
qed

lemma resolve_loop_sound:
  "resolve_loop idx M n h seen r p = Inr r' \<Longrightarrow> h \<le> maxArchiveLinkHops \<Longrightarrow> n \<le> M \<Longrightarrow>
     \<exists>k h'. (walk idx ^^ k) (h, r, p) (h', r', []) \<and> h' \<le> maxArchiveLinkHops \<and> n + k \<le> M"
proof (induction "Suc M - n" arbitrary: n h seen r p rule: less_induct)
  case less
  show ?case
  proof (cases "p = []")
    case True
    then have "(walk idx ^^ 0) (h, r, p) (h, r', [])"
      using less.prems by (simp add: resolve_loop.simps)
    with less.prems show ?thesis by (metis add_0_right)
  next
    case False
    then obtain h1 r1 p1 where w: "walk idx (h, r, p) (h1, r1, p1)" "Suc n \<le> M" "h1 \<le> maxArchiveLinkHops"
      and l: "resolve_loop idx M (Suc n) h1 (resolveStateKey r p # seen) r1 p1 = Inr r'"
      using less.prems by (blast elim: resolve_loop_step)
    from w(2) have "Suc M - Suc n < Suc M - n" by simp
    from less.hyps [OF this l w(3) w(2)] obtain k h' where
      "(walk idx ^^ k) (h1, r1, p1) (h', r', [])" "h' \<le> maxArchiveLinkHops" "Suc n + k \<le> M" by blast
    moreover from this(1) w(1) have "(walk idx ^^ Suc k) (h, r, p) (h', r', [])"
      by (rule relpowp_Suc_I2 [rotated])
    ultimately show ?thesis by (metis add_Suc_shift)
  qed
qed

text \<open>Following links only adds to the number of links followed.\<close>

lemma walk_hops_mono: "(walk idx ^^ n) (h, r, p) (h', r', p') \<Longrightarrow> h \<le> h'"
proof (induction n arbitrary: h r p)
  case (Suc n)
  then obtain h1 r1 p1 where "walk idx (h, r, p) (h1, r1, p1)" "(walk idx ^^ n) (h1, r1, p1) (h', r', p')"
    by (metis prod_cases3 relpowp_Suc_D2)
  moreover from this have "h \<le> h1" by (auto elim: walk.cases)
  ultimately show ?case using Suc.IH by fastforce
qed simp

text \<open>
  The cycle check never fires on a walk that ends: a state seen before has a larger
  distance to the end than the current one.
\<close>

definition seen_before :: "memberIndex \<Rightarrow> nat \<Rightarrow> string list \<Rightarrow> bool" where
  "seen_before idx n seen \<longleftrightarrow>
     (\<forall>k \<in> set seen. \<exists>r p d. k = resolveStateKey r p \<and> list_all safe_comp r \<and>
        list_all safe_comp p \<and> walk_ends_in idx d r p \<and> n < d)"

lemma resolve_loop_complete:
  assumes "(walk idx ^^ k) (h, r, p) (h', r', [])" and "h' \<le> maxArchiveLinkHops" and "n + k \<le> M"
    and "list_all safe_comp r" and "list_all safe_comp p" and "seen_before idx k seen"
  shows "resolve_loop idx M n h seen r p = Inr r'"
  using assms
proof (induction k arbitrary: n h seen r p)
  case 0
  then show ?case by (simp add: resolve_loop.simps)
next
  case (Suc k)
  have ends: "walk_ends_in idx (Suc k) r p" using Suc.prems(1) walk_ends_in_def by blast
  obtain h1 r1 p1 where w: "walk idx (h, r, p) (h1, r1, p1)" "(walk idx ^^ k) (h1, r1, p1) (h', r', [])"
    using Suc.prems(1) by (metis prod_cases3 relpowp_Suc_D2)
  have "resolveStateKey r p \<notin> set seen"
  proof
    assume "resolveStateKey r p \<in> set seen"
    then obtain r0 p0 d where "resolveStateKey r p = resolveStateKey r0 p0"
      and "list_all safe_comp r0" "list_all safe_comp p0" "walk_ends_in idx d r0 p0" "Suc k < d"
      using Suc.prems(6) unfolding seen_before_def by blast
    then show False
      using ends Suc.prems(4,5) by (metis less_irrefl resolveStateKey_inject walk_ends_in_unique)
  qed
  moreover have "h1 \<le> maxArchiveLinkHops" using w(2) walk_hops_mono Suc.prems(2) le_trans by blast
  ultimately have "resolve_loop idx M n h seen r p =
      resolve_loop idx M (Suc n) h1 (resolveStateKey r p # seen) r1 p1"
    using resolve_loop_walk [OF w(1)] Suc.prems(3) by simp
  moreover have "seen_before idx k (resolveStateKey r p # seen)"
    using Suc.prems(4-6) ends unfolding seen_before_def by (fastforce intro: Suc_lessD)
  moreover have "list_all safe_comp r1" "list_all safe_comp p1"
    using walk_safe [OF w(1)] Suc.prems(4,5) by auto
  ultimately show ?case using Suc.IH [OF w(2)] Suc.prems(2,3) by simp
qed

definition resolve_bound :: "memberIndex \<Rightarrow> nat" where
  "resolve_bound idx = length (order idx) * 8 + 32"

text \<open>What a key resolves to, by the semantics, within the two bounds.\<close>

definition resolves_to :: "memberIndex \<Rightarrow> string \<Rightarrow> tarMember \<Rightarrow> bool" where
  "resolves_to idx key m \<longleftrightarrow>
     (\<exists>n h r. (walk idx ^^ n) (0, [], key_parts key) (h, r, []) \<and> n \<le> resolve_bound idx \<and>
        h \<le> maxArchiveLinkHops \<and> byName idx (join_with CHR ''/'' r) = Some m)"

lemma resolve_sound: "resolve idx key = Inr m \<Longrightarrow> resolves_to idx key m"
  unfolding resolve_def resolves_to_def resolve_bound_def
  by (fastforce simp: Let_def dest: resolve_loop_sound split: sum.splits option.splits)

lemma resolve_complete:
  assumes "resolves_to idx key m" and "list_all safe_comp (key_parts key)"
  shows "resolve idx key = Inr m"
proof -
  obtain n h r where w: "(walk idx ^^ n) (0, [], key_parts key) (h, r, [])" "n \<le> resolve_bound idx"
    "h \<le> maxArchiveLinkHops" "byName idx (join_with CHR ''/'' r) = Some m"
    using assms(1) unfolding resolves_to_def by blast
  have "seen_before idx n []" by (simp add: seen_before_def)
  then have "resolve_loop idx (resolve_bound idx) 0 0 [] [] (key_parts key) = Inr r"
    using resolve_loop_complete [OF w(1,3), of 0] w(2) assms(2) by simp
  then show ?thesis using w(4) by (simp add: resolve_def resolve_bound_def)
qed

lemma candidate_key_join: "candidate_key r p = join_with CHR ''/'' (r @ [p])"
  by (simp add: candidate_key_def join_with_append)

section \<open>The first pass builds the index of well-formed headers\<close>

definition member_of :: "tar_header \<Rightarrow> tarMember" where
  "member_of hdr =
     \<lparr>Name = header_key hdr, IsDir = (hdr_Typeflag hdr = TypeDir),
      IsFile = (hdr_Typeflag hdr \<in> {TypeReg, TypeRegA}),
      IsSymlink = (hdr_Typeflag hdr = TypeSymlink), IsHardlink = (hdr_Typeflag hdr = TypeLink),
      Linkname = hdr_Linkname hdr\<rparr>"

definition header_ok :: "tar_header \<Rightarrow> bool" where
  "header_ok hdr \<longleftrightarrow>
     \<not> list_ex control_byte (hdr_Name hdr) \<and> ''..'' \<notin> set (posixPartsRaw (hdr_Name hdr)) \<and>
     \<not> has_prefix (hdr_Name hdr) ''/'' \<and>
     hdr_Typeflag hdr \<in> {TypeReg, TypeRegA, TypeDir, TypeSymlink, TypeLink} \<and>
     (header_key hdr = '''' \<longrightarrow> hdr_Typeflag hdr = TypeDir) \<and>
     (is_link (member_of hdr) \<longrightarrow> validateLinkTarget (member_of hdr) (header_key hdr) = Inr ())"

definition index_of :: "tar_header list \<Rightarrow> memberIndex" where
  "index_of hs = \<lparr>order = map header_key hs,
                  byName = map_of (map (\<lambda>h. (header_key h, member_of h)) hs)\<rparr>"

lemma header_member_eq:
  "header_member (header_key hdr) hdr =
     (if hdr_Typeflag hdr \<in> {TypeReg, TypeRegA, TypeDir, TypeSymlink, TypeLink}
      then Inr (member_of hdr) else Inl SpecialFile)"
  by (auto simp: header_member_def member_of_def Let_def)

lemma byName_index_of_None: "byName (index_of hs) k = None \<longleftrightarrow> k \<notin> header_key ` set hs"
  by (auto simp: index_of_def map_of_eq_None_iff image_image)

lemma index_of_snoc:
  assumes "header_key h \<notin> header_key ` set hs"
  shows "index_of (hs @ [h]) =
    \<lparr>order = order (index_of hs) @ [header_key h],
     byName = (byName (index_of hs))(header_key h \<mapsto> member_of h)\<rparr>"
proof -
  have "map_of (map (\<lambda>h. (header_key h, member_of h)) hs) (header_key h) = None"
    using assms by (auto simp: map_of_eq_None_iff image_image)
  then show ?thesis
    by (auto simp: index_of_def map_add_def fun_eq_iff split: option.splits)
qed

lemma index_header_index_of:
  "index_header (index_of hs) h = Inr idx' \<longleftrightarrow>
     header_ok h \<and> header_key h \<notin> header_key ` set hs \<and> idx' = index_of (hs @ [h])"
proof (cases "header_ok h \<and> header_key h \<notin> header_key ` set hs")
  case True
  then have "IsDir (member_of h)" if "header_key h = ''''"
    using that by (auto simp: header_ok_def member_of_def)
  with True show ?thesis
    by (auto simp: index_header_def header_ok_def safeText_def Let_def header_member_eq
        byName_index_of_None index_of_snoc)
next
  case False
  have "\<not> IsDir (member_of h)" if "hdr_Typeflag h \<noteq> TypeDir"
    using that by (simp add: member_of_def)
  with False show ?thesis
    unfolding index_header_def header_ok_def safeText_def Let_def header_member_eq
      byName_index_of_None [symmetric]
    by (auto split: sum.splits if_splits)
qed

lemma first_pass_index_of:
  "distinct (map header_key hs) \<Longrightarrow>
   first_pass (index_of hs) gs = Inr idx \<longleftrightarrow>
     list_all header_ok gs \<and> distinct (map header_key (hs @ gs)) \<and> idx = index_of (hs @ gs)"
proof (induction gs arbitrary: hs)
  case (Cons g gs)
  show ?case
  proof (cases "header_ok g \<and> header_key g \<notin> header_key ` set hs")
    case True
    then have "index_header (index_of hs) g = Inr (index_of (hs @ [g]))"
      by (simp add: index_header_index_of)
    moreover have "distinct (map header_key (hs @ [g]))" using True Cons.prems by auto
    ultimately show ?thesis using True Cons.IH [of "hs @ [g]"] by simp
  next
    case False
    then have "\<exists>e. index_header (index_of hs) g = Inl e"
      by (metis index_header_index_of sum.exhaust)
    with False show ?thesis by auto
  qed
qed auto

lemma empty_index_eq: "empty_index = index_of []"
  by (simp add: empty_index_def index_of_def)

lemmas first_pass_iff = first_pass_index_of [of "[]", folded empty_index_eq, simplified]

section \<open>The other passes\<close>

lemma second_pass_iff:
  "second_pass idx keys = Inr () \<longleftrightarrow> (\<forall>k \<in> set keys. \<not> has_link_ancestor idx k)"
  by (induction keys) auto

lemma require_dirs_iff:
  "require_dirs idx ks = Inr () \<longleftrightarrow>
     (\<forall>k \<in> set ks. \<exists>m. byName idx k = Some m \<and> IsDir m \<and> \<not> is_link m)"
  by (induction ks) (auto simp: is_link_def split: option.splits)

definition parent_resolves :: "memberIndex \<Rightarrow> string \<Rightarrow> bool" where
  "parent_resolves idx key \<longleftrightarrow>
     (parent_key key \<noteq> '''' \<longrightarrow> (\<exists>e. resolve idx (parent_key key) = Inr e \<and> IsDir e))"

text \<open>The third pass without the cache of parents, as the reference for the optimised one.\<close>

fun third_pass_plain :: "memberIndex \<Rightarrow> string list \<Rightarrow> archive_error + unit" where
  "third_pass_plain idx [] = Inr ()"
| "third_pass_plain idx (key # keys) =
     (if key = '''' then third_pass_plain idx keys
      else case (if parent_key key = '''' then Inr ()
                 else case resolve idx (parent_key key) of
                   Inl e \<Rightarrow> Inl e
                 | Inr entry \<Rightarrow> if IsDir entry then Inr () else Inl (ParentNotDirectory key)) of
        Inl e \<Rightarrow> Inl e
      | Inr _ \<Rightarrow>
          (case check_link_target idx key of
             Inl e \<Rightarrow> Inl e
           | Inr _ \<Rightarrow> third_pass_plain idx keys))"

definition cache_ok :: "memberIndex \<Rightarrow> (string \<rightharpoonup> tarMember) \<Rightarrow> bool" where
  "cache_ok idx parents \<longleftrightarrow> (\<forall>p e. parents p = Some e \<longrightarrow> resolve idx p = Inr e)"

lemma third_pass_cached:
  "cache_ok idx parents \<Longrightarrow> third_pass idx parents keys = third_pass_plain idx keys"
proof (induction keys arbitrary: parents)
  case (Cons key keys)
  let ?p = "parent_key key"
  have lookup: "(case parents ?p of Some e \<Rightarrow> Inr e | None \<Rightarrow> resolve idx ?p) = resolve idx ?p"
    using Cons.prems by (auto simp: cache_ok_def split: option.splits)
  have keep: "cache_ok idx (parents(?p \<mapsto> e))" if "resolve idx ?p = Inr e" for e
    using Cons.prems that by (auto simp: cache_ok_def)
  show ?case
    unfolding third_pass.simps third_pass_plain.simps lookup Let_def
    using Cons.IH [OF Cons.prems] Cons.IH [OF keep]
    by (auto split: sum.splits simp del: fun_upd_apply)
qed simp

lemma third_pass_plain_iff:
  "third_pass_plain idx keys = Inr () \<longleftrightarrow>
     (\<forall>k \<in> set keys. k \<noteq> '''' \<longrightarrow> parent_resolves idx k \<and> check_link_target idx k = Inr ())"
  by (induction keys) (auto simp: parent_resolves_def split: sum.splits if_splits)

lemma check_link_target_iff:
  "check_link_target idx k = Inr () \<longleftrightarrow>
     (\<forall>m. byName idx k = Some m \<and> is_link m \<longrightarrow>
        (\<exists>t. resolve idx k = Inr t \<and> (IsHardlink m \<longrightarrow> IsFile t)))"
  by (auto simp: check_link_target_def split: option.splits sum.splits)

section \<open>The verdict\<close>

text \<open>The declarative condition on the headers of an acceptable archive.\<close>

definition acceptable :: "tar_header list \<Rightarrow> bool" where
  "acceptable hs \<longleftrightarrow>
     hs \<noteq> [] \<and> list_all header_ok hs \<and> distinct (map header_key hs) \<and>
     (let idx = index_of hs in
        (\<forall>k \<in> header_key ` set hs. \<not> has_link_ancestor idx k) \<and>
        (\<forall>k \<in> {''home'', ''home/agent''}. \<exists>m. byName idx k = Some m \<and> IsDir m \<and> \<not> is_link m) \<and>
        (\<forall>k \<in> header_key ` set hs. k \<noteq> '''' \<longrightarrow> parent_resolves idx k \<and>
           (\<forall>m. byName idx k = Some m \<and> is_link m \<longrightarrow>
              (\<exists>t. resolve idx k = Inr t \<and> (IsHardlink m \<longrightarrow> IsFile t)))))"

lemma validate_headers_iff: "validate_headers hs = Inr () \<longleftrightarrow> acceptable hs"
proof (cases "hs \<noteq> [] \<and> list_all header_ok hs \<and> distinct (map header_key hs)")
  case True
  then have "first_pass empty_index hs = Inr (index_of hs)" by (simp add: first_pass_iff)
  moreover have "cache_ok (index_of hs) Map.empty" by (simp add: cache_ok_def)
  moreover have "set (order (index_of hs)) = header_key ` set hs" by (simp add: index_of_def)
  moreover have "validate_headers hs = Inr () \<longleftrightarrow>
      second_pass (index_of hs) (order (index_of hs)) = Inr () \<and>
      require_dirs (index_of hs) [''home'', ''home/agent''] = Inr () \<and>
      third_pass (index_of hs) Map.empty (order (index_of hs)) = Inr ()"
    using True calculation(1)
    by (auto simp: validate_headers_def simp del: require_dirs.simps split: sum.splits)
  ultimately show ?thesis
    using True
    by (simp add: acceptable_def Let_def third_pass_cached second_pass_iff require_dirs_iff
        third_pass_plain_iff check_link_target_iff del: require_dirs.simps)
next
  case False
  then have "hs = [] \<or> (\<exists>e. first_pass empty_index hs = Inl e)"
    by (metis first_pass_iff sum.exhaust)
  with False show ?thesis by (auto simp: validate_headers_def acceptable_def)
qed

text \<open>A small archive: the two required directories, a file, and a link to the file.\<close>

definition demo_headers :: "tar_header list" where
  "demo_headers =
     [\<lparr>hdr_Name = ''home/'', hdr_Linkname = '''', hdr_Typeflag = TypeDir\<rparr>,
      \<lparr>hdr_Name = ''home/agent/'', hdr_Linkname = '''', hdr_Typeflag = TypeDir\<rparr>,
      \<lparr>hdr_Name = ''home/agent/notes'', hdr_Linkname = '''', hdr_Typeflag = TypeReg\<rparr>,
      \<lparr>hdr_Name = ''home/agent/link'', hdr_Linkname = ''notes'', hdr_Typeflag = TypeSymlink\<rparr>]"

lemma demo_headers_accepted: "acceptable demo_headers"
proof -
  have "validate_headers demo_headers = Inr ()" by code_simp
  then show ?thesis by (simp only: validate_headers_iff)
qed

lemma read_headers_iff:
  "read_headers m n hs e = Inr () \<longleftrightarrow> (hs = [] \<or> n + length hs \<le> m) \<and> e = CleanEnd"
  by (induction m n hs e rule: read_headers.induct) auto

lemma ValidateDataTar_iff:
  "ValidateDataTar maxMembers r = Inr () \<longleftrightarrow>
     gzip_opens r \<and> tar_end r = CleanEnd \<and> length (tar_headers r) \<le> maxMembers \<and>
     gzip_drains r \<and> gzip_closes r \<and> acceptable (tar_headers r)"
proof -
  have "read_headers maxMembers 0 (tar_headers r) (tar_end r) = Inr () \<longleftrightarrow>
      length (tar_headers r) \<le> maxMembers \<and> tar_end r = CleanEnd"
    by (auto simp: read_headers_iff)
  then show ?thesis
    unfolding ValidateDataTar_def
    by (auto simp: validate_headers_iff split: sum.splits)
qed

section \<open>Keys and their components\<close>

definition plain_comp :: "string \<Rightarrow> bool" where
  "plain_comp p \<longleftrightarrow> safe_comp p \<and> p \<noteq> ''.'' \<and> p \<noteq> ''..'' \<and> CHR ''/'' \<notin> set p"

lemma plain_comp_not_Nil: "plain_comp p \<Longrightarrow> p \<noteq> ''''"
  by (simp add: plain_comp_def safe_comp_def)

lemma header_parts_plain: "header_ok h \<Longrightarrow> list_all plain_comp (header_parts h)"
  unfolding header_ok_def header_parts_def list_all_iff plain_comp_def
  by (auto intro: posixPartsRaw_safe simp: posixPartsRaw_def dest: split_on_parts)

lemma key_parts_join: "list_all plain_comp ps \<Longrightarrow> key_parts (join_with CHR ''/'' ps) = ps"
proof (cases "ps = []")
  case False
  assume plain: "list_all plain_comp ps"
  then have "join_with CHR ''/'' ps \<noteq> ''''"
    using False join_with_eq_Nil plain_comp_not_Nil unfolding list_all_iff by blast
  moreover have "split_on CHR ''/'' (join_with CHR ''/'' ps) = ps"
    using plain False by (intro split_join) (auto simp: list_all_iff plain_comp_def)
  ultimately show ?thesis by (simp add: key_parts_def)
qed (simp add: key_parts_def)

lemma key_parts_header_key: "header_ok h \<Longrightarrow> key_parts (header_key h) = header_parts h"
  unfolding header_key_def by (rule key_parts_join [OF header_parts_plain])

lemma parent_key_append: "CHR ''/'' \<notin> set t \<Longrightarrow> parent_key (s @ CHR ''/'' # t) = s"
proof -
  assume "CHR ''/'' \<notin> set t"
  then have "dropWhile (\<lambda>c. c \<noteq> CHR ''/'') (rev t @ CHR ''/'' # rev s) = CHR ''/'' # rev s"
    by (subst dropWhile_append2) auto
  then show ?thesis by (simp add: parent_key_def)
qed

lemma parent_key_join:
  assumes "list_all plain_comp ps" and "ps \<noteq> []"
  shows "parent_key (join_with CHR ''/'' ps) = join_with CHR ''/'' (butlast ps)"
proof (cases "butlast ps = []")
  case True
  then obtain p where "ps = [p]" using assms(2) by (cases ps; cases "tl ps") auto
  then show ?thesis using assms(1) by (simp add: parent_key_def plain_comp_def)
next
  case False
  have "ps = butlast ps @ [last ps]" using assms(2) by simp
  then have "join_with CHR ''/'' ps = join_with CHR ''/'' (butlast ps) @ CHR ''/'' # last ps"
    using False by (metis join_with.simps(2) join_with_append list.distinct(1))
  moreover have "CHR ''/'' \<notin> set (last ps)"
    using assms by (auto simp: list_all_iff plain_comp_def)
  ultimately show ?thesis by (simp add: parent_key_append)
qed

section \<open>What an accepted archive guarantees\<close>

lemma byName_index_of_Some:
  "byName (index_of hs) k = Some m \<Longrightarrow> \<exists>g \<in> set hs. header_key g = k \<and> m = member_of g"
  by (auto simp: index_of_def dest!: map_of_SomeD)

lemma is_link_member_of: "is_link (member_of g) \<longleftrightarrow> hdr_Typeflag g \<in> {TypeSymlink, TypeLink}"
  by (auto simp: is_link_def member_of_def)

text \<open>A path with no link among its prefixes is walked literally.\<close>

lemma literal_walk:
  assumes "(walk idx ^^ n) (h, take i P, drop i P) (h', r, [])" and "i \<le> length P"
    and "list_all plain_comp P"
    and "\<And>j. 0 < j \<Longrightarrow> j \<le> length P \<Longrightarrow> \<not> link_at idx (join_with CHR ''/'' (take j P))"
  shows "r = P \<and> (\<forall>j. i < j \<and> j < length P \<longrightarrow>
           (\<exists>m. byName idx (join_with CHR ''/'' (take j P)) = Some m \<and> IsDir m))"
  using assms(1,2)
proof (induction n arbitrary: h i)
  case 0
  then show ?case by auto
next
  case (Suc n)
  obtain h1 r1 p1 where w: "walk idx (h, take i P, drop i P) (h1, r1, p1)"
    and rest: "(walk idx ^^ n) (h1, r1, p1) (h', r, [])"
    using Suc.prems(1) by (metis prod_cases3 relpowp_Suc_D2)
  from w have i: "i < length P" by (cases "i < length P") (auto elim: walk_NilE)
  have drop: "drop i P = P ! i # drop (Suc i) P" and take: "take (Suc i) P = take i P @ [P ! i]"
    using i by (simp_all add: Cons_nth_drop_Suc take_Suc_conv_app_nth)
  have key: "candidate_key (take i P) (P ! i) = join_with CHR ''/'' (take (Suc i) P)"
    by (simp add: candidate_key_join take)
  have plain: "plain_comp (P ! i)" using i assms(3) by (auto simp: list_all_iff)
  have nolink: "\<not> link_at idx (join_with CHR ''/'' (take (Suc i) P))" using assms(4) i by simp
  from w have "r1 = take (Suc i) P \<and> p1 = drop (Suc i) P \<and>
      (drop (Suc i) P = [] \<or> (\<exists>m. byName idx (join_with CHR ''/'' (take (Suc i) P)) = Some m \<and> IsDir m))"
    unfolding drop using plain nolink key
    by (cases rule: walk.cases) (auto simp: take link_at_Some plain_comp_def safe_comp_def)
  then have step: "r1 = take (Suc i) P" "p1 = drop (Suc i) P"
    and dir: "Suc i < length P \<Longrightarrow>
      \<exists>m. byName idx (join_with CHR ''/'' (take (Suc i) P)) = Some m \<and> IsDir m"
    by auto
  from Suc.IH [of h1 "Suc i"] rest step i
  have "r = P \<and> (\<forall>j. Suc i < j \<and> j < length P \<longrightarrow>
      (\<exists>m. byName idx (join_with CHR ''/'' (take j P)) = Some m \<and> IsDir m))"
    by simp
  then show ?case using dir by (metis Suc_lessI)
qed

lemma ancestors_below:
  assumes "acceptable hs" and "h \<in> set hs" and "0 < n" and "n < length (header_parts h)"
  shows "\<exists>m. byName (index_of hs) (join_with CHR ''/'' (take n (header_parts h))) = Some m \<and> IsDir m"
proof -
  let ?idx = "index_of hs" and ?P = "butlast (header_parts h)"
  have ok: "header_ok h" using assms(1,2) by (auto simp: acceptable_def list_all_iff)
  then have plain: "list_all plain_comp (header_parts h)" by (rule header_parts_plain)
  then have plainP: "list_all plain_comp ?P" by (auto simp: list_all_iff dest: in_set_butlastD)
  have ne: "header_parts h \<noteq> []" "?P \<noteq> []" using assms(3,4) by (auto simp: butlast_conv_take)
  have par: "parent_key (header_key h) = join_with CHR ''/'' ?P"
    unfolding header_key_def using plain ne(1) by (rule parent_key_join)
  have par_ne: "join_with CHR ''/'' ?P \<noteq> ''''"
    using plainP ne(2) join_with_eq_Nil plain_comp_not_Nil unfolding list_all_iff by blast
  have "header_key h \<noteq> ''''" "\<not> has_link_ancestor ?idx (header_key h)"
    using key_parts_header_key [OF ok] ne(1) assms(1,2)
    by (auto simp: key_parts_def acceptable_def Let_def)
  then have res: "parent_resolves ?idx (header_key h)"
    and nolink: "\<not> link_at ?idx (join_with CHR ''/'' (take j (header_parts h)))"
      if "0 < j" "j < length (header_parts h)" for j
    using assms(1,2) that unfolding acceptable_def Let_def has_link_ancestor_def key_parts_header_key [OF ok]
    by (auto simp: list_ex_iff)
  obtain e where res_e: "resolve ?idx (join_with CHR ''/'' ?P) = Inr e" and dir: "IsDir e"
    using res [of 1] assms(3,4) par par_ne by (auto simp: parent_resolves_def)
  obtain k h' r where w: "(walk ?idx ^^ k) (0, [], ?P) (h', r, [])"
    and final: "byName ?idx (join_with CHR ''/'' r) = Some e"
    using resolve_sound [OF res_e] unfolding resolves_to_def key_parts_join [OF plainP] by blast
  have take_eq: "take j ?P = take j (header_parts h)" if "j \<le> length ?P" for j
  proof (rule take_butlast)
    have "length ?P = length (header_parts h) - 1" by simp
    then show "j < length (header_parts h)" using that assms(4) by linarith
  qed
  have lit: "r = ?P \<and> (\<forall>j. 0 < j \<and> j < length ?P \<longrightarrow>
      (\<exists>m. byName ?idx (join_with CHR ''/'' (take j ?P)) = Some m \<and> IsDir m))"
    by (rule literal_walk [OF _ _ plainP, of k ?idx 0 0 h']) (use w nolink take_eq in auto)
  show ?thesis
  proof (cases "n < length ?P")
    case True
    then show ?thesis using lit assms(3) take_eq [of n] by auto
  next
    case False
    then have "n = length (header_parts h) - 1" using assms(4) by simp
    then have "take n (header_parts h) = ?P" by (simp add: butlast_conv_take)
    then show ?thesis using lit final dir by auto
  qed
qed

text \<open>No prefix of the components walked so far names a link.\<close>

definition no_link_prefix :: "memberIndex \<Rightarrow> string list \<Rightarrow> bool" where
  "no_link_prefix idx r \<longleftrightarrow> (\<forall>j. 0 < j \<and> j \<le> length r \<longrightarrow> \<not> link_at idx (join_with CHR ''/'' (take j r)))"

lemma walk_no_link_prefix:
  assumes "walk idx (h, r, p) (h', r', p')" and "no_link_prefix idx r"
  shows "no_link_prefix idx r'"
  using assms(1)
proof cases
  case (descend q)
  then show ?thesis
    using assms(2) by (auto simp: no_link_prefix_def candidate_key_join le_Suc_eq)
next
  case up
  then show ?thesis
    using assms(2) by (auto simp: no_link_prefix_def butlast_conv_take min_def)
qed (use assms(2) in \<open>auto simp: no_link_prefix_def\<close>)

lemma walks_no_link_prefix:
  "(walk idx ^^ n) (h, r, p) (h', r', p') \<Longrightarrow> no_link_prefix idx r \<Longrightarrow> no_link_prefix idx r'"
proof (induction n arbitrary: h r p)
  case (Suc n)
  then show ?case by (metis prod_cases3 relpowp_Suc_D2 walk_no_link_prefix)
qed simp

text \<open>A path of an archive with well-formed headers never resolves to a link: the resolver
  follows links to their end.\<close>

theorem resolves_to_no_link:
  assumes "list_all header_ok hs" and "resolves_to (index_of hs) key m"
  shows "\<not> is_link m"
proof -
  obtain n h r where w: "(walk (index_of hs) ^^ n) (0, [], key_parts key) (h, r, [])"
    and m: "byName (index_of hs) (join_with CHR ''/'' r) = Some m"
    using assms(2) unfolding resolves_to_def by blast
  have nl: "no_link_prefix (index_of hs) r"
    using walks_no_link_prefix [OF w] by (simp add: no_link_prefix_def)
  show ?thesis
  proof (cases "r = []")
    case True
    obtain g where "g \<in> set hs" "header_key g = ''''" "m = member_of g"
      using byName_index_of_Some [OF m] True by auto
    then show ?thesis using assms(1) by (auto simp: list_all_iff header_ok_def is_link_member_of)
  next
    case False
    then show ?thesis using nl m by (force simp: no_link_prefix_def link_at_Some)
  qed
qed

theorem resolves_to_no_link_witness:
  "\<exists>m. resolves_to (index_of demo_headers) ''home/agent/link'' m \<and> \<not> is_link m"
proof -
  have hs: "list_all header_ok demo_headers" using demo_headers_accepted by (simp add: acceptable_def)
  have "isl (resolve (index_of demo_headers) ''home/agent/link'') = False" by code_simp
  then obtain m where "resolve (index_of demo_headers) ''home/agent/link'' = Inr m"
    by (cases "resolve (index_of demo_headers) ''home/agent/link''") auto
  then have "resolves_to (index_of demo_headers) ''home/agent/link'' m" by (rule resolve_sound)
  then show ?thesis using resolves_to_no_link [OF hs] by blast
qed

section \<open>The lexical check on link targets\<close>

definition climbs :: "string list \<Rightarrow> nat" where
  "climbs ps = length (filter (\<lambda>p. p = ''..'') ps)"

definition descends :: "string list \<Rightarrow> nat" where
  "descends ps = length (filter (\<lambda>p. p \<noteq> ''..'') ps)"

lemma lexical_walk_iff:
  "lexical_walk r ps = Inr () \<longleftrightarrow>
     (\<forall>n \<le> length ps. climbs (take n ps) \<le> length r + descends (take n ps))"
proof (induction r ps rule: lexical_walk.induct)
  case (2 r p ps)
  have split: "(\<forall>n \<le> length (p # ps). Q n) \<longleftrightarrow> Q 0 \<and> (\<forall>n \<le> length ps. Q (Suc n))" for Q
    by (metis Suc_le_mono bot_nat_0.extremum length_Cons not0_implies_Suc)
  show ?case
  proof (cases "p = ''..''")
    case True
    have "(\<forall>n \<le> length ps. climbs (take n ps) \<le> length (butlast r) + descends (take n ps)) \<longleftrightarrow>
        (\<forall>n \<le> length ps. Suc (climbs (take n ps)) \<le> length r + descends (take n ps))" if "r \<noteq> []"
      using that by (cases r rule: rev_cases) auto
    moreover have "\<not> (\<forall>n \<le> length ps. Suc (climbs (take n ps)) \<le> length r + descends (take n ps))" if "r = []"
      using that by (auto simp: climbs_def descends_def intro!: exI [of _ 0])
    ultimately show ?thesis
      unfolding split using True 2(1) by (auto simp: climbs_def descends_def)
  next
    case False
    then show ?thesis unfolding split using 2(2) by (simp add: climbs_def descends_def)
  qed
qed (simp add: climbs_def descends_def)

text \<open>The walk specification and the resolver agree.\<close>

text \<open>C8: the resolver, with its set of seen states, its hop count and its step bound, returns the
  member that the step relation \<open>walk\<close> reaches from the path within those bounds, and no other: the
  loop detection never rejects a walk that ends.\<close>

theorem resolve_iff:
  assumes "list_all safe_comp (key_parts key)"
  shows "resolve idx key = Inr m \<longleftrightarrow> resolves_to idx key m"
  using assms resolve_sound resolve_complete by blast

theorem resolve_iff_witness:
  "\<exists>m. resolve (index_of demo_headers) ''home/agent/link'' = Inr m \<and>
       resolves_to (index_of demo_headers) ''home/agent/link'' m"
proof -
  have safe: "list_all safe_comp (key_parts ''home/agent/link'')" by code_simp
  have "isl (resolve (index_of demo_headers) ''home/agent/link'') = False" by code_simp
  then obtain m where m: "resolve (index_of demo_headers) ''home/agent/link'' = Inr m"
    by (cases "resolve (index_of demo_headers) ''home/agent/link''") auto
  then show ?thesis using resolve_iff [OF safe] by blast
qed

text \<open>The cache of resolved parents changes no answer of the third pass.\<close>

text \<open>The third pass, which keeps the parents it has resolved in a cache, gives the answer of the
  pass that resolves every parent anew.\<close>

theorem third_pass_uncached: "third_pass idx Map.empty keys = third_pass_plain idx keys"
  by (rule third_pass_cached) (simp add: cache_ok_def)

end
