(* ===== verification/ArchiveSpec.thy ===== *)
theory ArchiveSpec
  imports ArchiveSafety
begin

text \<open>
  A specification of the archives the validator accepts that mentions none of its passes:
  only the headers, the paths in them and where links lead.
\<close>

definition link_contained :: "string list \<Rightarrow> string \<Rightarrow> bool" where
  "link_contained base target \<longleftrightarrow>
     \<not> list_ex control_byte target \<and> \<not> has_prefix target ''/'' \<and>
     (let ps = filter (\<lambda>p. p \<noteq> ''.'') (posixPartsRaw target) in
        ps \<noteq> [] \<and> (\<forall>n \<le> length ps. climbs (take n ps) \<le> length base + descends (take n ps)))"

definition name_safe :: "string \<Rightarrow> bool" where
  "name_safe s \<longleftrightarrow> \<not> list_ex control_byte s \<and> ''..'' \<notin> set (posixPartsRaw s) \<and> \<not> has_prefix s ''/''"

definition header_safe :: "tar_header \<Rightarrow> bool" where
  "header_safe h \<longleftrightarrow> name_safe (hdr_Name h) \<and>
     hdr_Typeflag h \<in> {TypeReg, TypeRegA, TypeDir, TypeSymlink, TypeLink} \<and>
     (header_parts h = [] \<longrightarrow> hdr_Typeflag h = TypeDir) \<and>
     (hdr_Typeflag h = TypeSymlink \<longrightarrow> link_contained (butlast (header_parts h)) (hdr_Linkname h)) \<and>
     (hdr_Typeflag h = TypeLink \<longrightarrow> link_contained [] (hdr_Linkname h))"

definition dir_member :: "tar_header list \<Rightarrow> string list \<Rightarrow> bool" where
  "dir_member hs P \<longleftrightarrow> (\<exists>g \<in> set hs. header_parts g = P \<and> hdr_Typeflag g = TypeDir)"

definition well_formed_archive :: "tar_header list \<Rightarrow> bool" where
  "well_formed_archive hs \<longleftrightarrow>
     hs \<noteq> [] \<and> list_all header_safe hs \<and> distinct (map header_parts hs) \<and>
     (\<forall>h \<in> set hs. \<forall>n. 0 < n \<and> n < length (header_parts h) \<longrightarrow> dir_member hs (take n (header_parts h))) \<and>
     dir_member hs [''home''] \<and> dir_member hs [''home'', ''agent''] \<and>
     (\<forall>h \<in> set hs. hdr_Typeflag h \<in> {TypeSymlink, TypeLink} \<longrightarrow>
        (\<exists>t. resolves_to (index_of hs) (header_key h) t \<and> (hdr_Typeflag h = TypeLink \<longrightarrow> IsFile t)))"

lemma name_safe_parts: "name_safe (hdr_Name h) \<Longrightarrow> list_all plain_comp (header_parts h)"
  unfolding name_safe_def header_parts_def list_all_iff plain_comp_def
  by (auto intro: posixPartsRaw_safe simp: posixPartsRaw_def dest: split_on_parts)

lemma header_safe_parts: "header_safe h \<Longrightarrow> list_all plain_comp (header_parts h)"
  by (simp add: header_safe_def name_safe_parts)

lemma header_key_Nil:
  assumes "list_all plain_comp (header_parts h)"
  shows "header_key h = '''' \<longleftrightarrow> header_parts h = []"
proof -
  have "p \<noteq> ''''" if "p \<in> set (header_parts h)" for p
    using assms that plain_comp_not_Nil by (auto simp: list_all_iff)
  then show ?thesis unfolding header_key_def using join_with_eq_Nil by auto
qed

lemma keyDirParts_header_key:
  assumes "list_all plain_comp (header_parts h)"
  shows "keyDirParts (header_key h) = butlast (header_parts h)"
  using key_parts_join [OF assms] header_key_Nil [OF assms]
  by (auto simp: keyDirParts_def key_parts_def header_key_def split: if_splits)

lemma validateLinkTarget_iff:
  "validateLinkTarget m key = Inr () \<longleftrightarrow>
     link_contained (if IsSymlink m then keyDirParts key else []) (Linkname m)"
  by (auto simp: validateLinkTarget_def linkParts_def safeText_def link_contained_def Let_def
      lexical_walk_iff split: if_splits sum.splits)

lemma header_ok_iff: "header_ok h \<longleftrightarrow> header_safe h"
proof (cases "name_safe (hdr_Name h)")
  case True
  note plain = name_safe_parts [OF True]
  have "IsSymlink (member_of h) = (hdr_Typeflag h = TypeSymlink)"
    "Linkname (member_of h) = hdr_Linkname h" by (simp_all add: member_of_def)
  then show ?thesis
    using True unfolding header_ok_def header_safe_def name_safe_def validateLinkTarget_iff
      keyDirParts_header_key [OF plain] header_key_Nil [OF plain] is_link_member_of
    by auto
qed (auto simp: header_ok_def header_safe_def name_safe_def)

lemma list_all_header_ok: "list_all header_ok hs \<longleftrightarrow> list_all header_safe hs"
  by (simp add: header_ok_iff [abs_def])

lemma join_plain_inject:
  assumes "list_all plain_comp ps" and "list_all plain_comp qs"
    and "join_with CHR ''/'' ps = join_with CHR ''/'' qs"
  shows "ps = qs"
  using assms key_parts_join by metis

lemma header_keys_distinct:
  assumes "list_all header_safe hs"
  shows "distinct (map header_key hs) \<longleftrightarrow> distinct (map header_parts hs)"
proof -
  have plain: "list_all plain_comp P" if "P \<in> header_parts ` set hs" for P
    using that assms header_safe_parts by (auto simp: list_all_iff)
  have "inj_on (join_with CHR ''/'') (header_parts ` set hs)"
    by (intro inj_onI join_plain_inject plain)
  moreover have "map header_key hs = map (join_with CHR ''/'') (map header_parts hs)"
    by (simp add: header_key_def)
  ultimately show ?thesis by (metis distinct_map list.set_map)
qed

lemma byName_member:
  assumes "distinct (map header_key hs)" and "g \<in> set hs"
  shows "byName (index_of hs) (header_key g) = Some (member_of g)"
  using assms by (auto simp: index_of_def comp_def intro!: map_of_is_SomeI image_eqI [of _ _ g])

lemma dir_member_iff:
  assumes "list_all header_safe hs" and "distinct (map header_key hs)" and "list_all plain_comp P"
  shows "dir_member hs P \<longleftrightarrow>
    (\<exists>m. byName (index_of hs) (join_with CHR ''/'' P) = Some m \<and> IsDir m \<and> \<not> is_link m)" (is "?l \<longleftrightarrow> ?r")
proof
  assume ?l
  then obtain g where g: "g \<in> set hs" "header_parts g = P" "hdr_Typeflag g = TypeDir"
    by (auto simp: dir_member_def)
  have "header_key g = join_with CHR ''/'' P" using g(2) by (simp add: header_key_def)
  then show ?r using byName_member [OF assms(2) g(1)] g(3)
    by (simp add: is_link_member_of) (simp add: member_of_def)
next
  assume ?r
  then obtain g where g: "g \<in> set hs" "header_key g = join_with CHR ''/'' P" "IsDir (member_of g)"
    using byName_index_of_Some by blast
  have "list_all plain_comp (header_parts g)"
    using assms(1) g(1) header_safe_parts by (auto simp: list_all_iff)
  then have "header_parts g = P" using g(2) assms(3) join_plain_inject by (auto simp: header_key_def)
  then show ?l using g by (auto simp: dir_member_def member_of_def)
qed

text \<open>Below directories only, a path is walked component by component.\<close>

lemma directories_walk:
  assumes plain: "list_all plain_comp P"
    and dirs: "\<And>n. 0 < n \<Longrightarrow> n \<le> length P \<Longrightarrow>
      \<exists>m. byName idx (join_with CHR ''/'' (take n P)) = Some m \<and> IsDir m \<and> \<not> is_link m"
  shows "n \<le> length P \<Longrightarrow> (walk idx ^^ n) (0, [], P) (0, take n P, drop n P)"
proof (induction n)
  case (Suc n)
  then have n: "n < length P" by simp
  obtain m where m: "byName idx (join_with CHR ''/'' (take (Suc n) P)) = Some m" "IsDir m" "\<not> is_link m"
    using dirs [of "Suc n"] Suc.prems by auto
  have comp: "plain_comp (P ! n)" using plain n by (auto simp: list_all_iff)
  have key: "candidate_key (take n P) (P ! n) = join_with CHR ''/'' (take (Suc n) P)"
    by (simp add: candidate_key_join take_Suc_conv_app_nth [OF n])
  have "walk idx (0, take n P, P ! n # drop (Suc n) P) (0, take n P @ [P ! n], drop (Suc n) P)"
    using comp m by (intro walk.descend) (auto simp: key link_at_def plain_comp_def plain_comp_not_Nil)
  then have "walk idx (0, take n P, drop n P) (0, take (Suc n) P, drop (Suc n) P)"
    by (simp add: Cons_nth_drop_Suc n take_Suc_conv_app_nth)
  then show ?case using Suc by auto
qed simp

lemma directories_resolve:
  assumes plain: "list_all plain_comp P" and ne: "P \<noteq> []"
    and dirs: "\<And>n. 0 < n \<Longrightarrow> n \<le> length P \<Longrightarrow>
      \<exists>m. byName idx (join_with CHR ''/'' (take n P)) = Some m \<and> IsDir m \<and> \<not> is_link m"
    and short: "length P \<le> resolve_bound idx"
  shows "\<exists>e. resolve idx (join_with CHR ''/'' P) = Inr e \<and> IsDir e"
proof -
  obtain m where m: "byName idx (join_with CHR ''/'' P) = Some m" "IsDir m"
    using dirs [of "length P"] ne by auto
  have parts: "key_parts (join_with CHR ''/'' P) = P" by (rule key_parts_join [OF plain])
  have "(walk idx ^^ length P) (0, [], P) (0, P, [])"
    using directories_walk [OF plain dirs order.refl] by simp
  then have "resolves_to idx (join_with CHR ''/'' P) m"
    unfolding resolves_to_def parts using m(1) short by blast
  moreover have "list_all safe_comp (key_parts (join_with CHR ''/'' P))"
    unfolding parts using plain by (auto simp: list_all_iff plain_comp_def)
  ultimately show ?thesis using m(2) resolve_complete by blast
qed

lemma member_depth:
  assumes "\<And>n. 0 < n \<Longrightarrow> n \<le> length P \<Longrightarrow> dir_member hs (take n P)"
  shows "length P \<le> length hs"
proof -
  let ?S = "(\<lambda>n. take n P) ` {1..length P}"
  have "inj_on (\<lambda>n. take n P) {1..length P}"
    by (auto intro!: inj_onI dest!: arg_cong [where f = length])
  then have "card ?S = length P" by (simp add: card_image)
  moreover have "?S \<subseteq> header_parts ` set hs"
  proof
    fix P' assume "P' \<in> ?S"
    then have "dir_member hs P'" using assms by auto
    then show "P' \<in> header_parts ` set hs" unfolding dir_member_def by blast
  qed
  then have "card ?S \<le> card (header_parts ` set hs)" by (intro card_mono) auto
  moreover have "card (header_parts ` set hs) \<le> length hs"
    using card_image_le [of "set hs" header_parts] card_length [of hs] by simp
  ultimately show ?thesis by simp
qed

lemma bound_index_of: "length hs \<le> resolve_bound (index_of hs)"
  by (simp add: resolve_bound_def index_of_def)

lemma safe_key_parts: "header_safe h \<Longrightarrow> list_all safe_comp (key_parts (header_key h))"
  using header_safe_parts [of h] key_parts_join [of "header_parts h"]
  by (auto simp: header_key_def list_all_iff plain_comp_def)

lemma resolve_header_iff:
  "header_safe h \<Longrightarrow> resolve idx (header_key h) = Inr t \<longleftrightarrow> resolves_to idx (header_key h) t"
  using resolve_sound resolve_complete [OF _ safe_key_parts] by blast

lemma links_resolve_iff:
  assumes "list_all header_safe hs" and keys: "distinct (map header_key hs)" and h: "h \<in> set hs"
  shows "(\<forall>m. byName (index_of hs) (header_key h) = Some m \<and> is_link m \<longrightarrow>
            (\<exists>t. resolve (index_of hs) (header_key h) = Inr t \<and> (IsHardlink m \<longrightarrow> IsFile t))) \<longleftrightarrow>
    (hdr_Typeflag h \<in> {TypeSymlink, TypeLink} \<longrightarrow>
       (\<exists>t. resolves_to (index_of hs) (header_key h) t \<and> (hdr_Typeflag h = TypeLink \<longrightarrow> IsFile t)))"
proof -
  have safe: "header_safe h" using assms by (simp add: list_all_iff)
  have hard: "IsHardlink (member_of h) \<longleftrightarrow> hdr_Typeflag h = TypeLink" by (simp add: member_of_def)
  show ?thesis
    unfolding byName_member [OF keys h] resolve_header_iff [OF safe] option.inject
    using is_link_member_of [of h] hard by auto
qed

lemma acceptable_dirs:
  assumes "acceptable hs"
  shows "list_all header_safe hs" and "distinct (map header_key hs)"
    and "h \<in> set hs \<Longrightarrow> 0 < n \<Longrightarrow> n < length (header_parts h) \<Longrightarrow> dir_member hs (take n (header_parts h))"
proof -
  show safe: "list_all header_safe hs" and keys: "distinct (map header_key hs)"
    using assms by (simp_all add: acceptable_def list_all_header_ok)
  assume h: "h \<in> set hs" "0 < n" "n < length (header_parts h)"
  let ?P = "take n (header_parts h)"
  have "list_all plain_comp (header_parts h)"
    using safe h(1) header_safe_parts by (auto simp: list_all_iff)
  then have plain: "list_all plain_comp ?P" by (auto simp: list_all_iff dest: in_set_takeD)
  obtain m where m: "byName (index_of hs) (join_with CHR ''/'' ?P) = Some m" "IsDir m"
    using ancestors_below [OF assms h] by blast
  then have "\<not> is_link m" using byName_index_of_Some by (fastforce simp: member_of_def is_link_def)
  then show "dir_member hs ?P" using m dir_member_iff [OF safe keys plain] by blast
qed

lemma home_keys:
  "join_with CHR ''/'' [''home''] = ''home''" "join_with CHR ''/'' [''home'', ''agent''] = ''home/agent''"
  "list_all plain_comp [''home'']" "list_all plain_comp [''home'', ''agent'']"
  by code_simp+

lemma acceptable_well_formed:
  assumes acc: "acceptable hs"
  shows "well_formed_archive hs"
proof -
  note dirs = acceptable_dirs [OF acc]
  have "dir_member hs [''home'']" "dir_member hs [''home'', ''agent'']"
    using acc dir_member_iff [OF dirs(1,2)] home_keys by (auto simp: acceptable_def Let_def)
  moreover have "hs \<noteq> []" using acc by (simp add: acceptable_def)
  moreover have "\<forall>h \<in> set hs. hdr_Typeflag h \<in> {TypeSymlink, TypeLink} \<longrightarrow>
      (\<exists>t. resolves_to (index_of hs) (header_key h) t \<and> (hdr_Typeflag h = TypeLink \<longrightarrow> IsFile t))"
  proof (intro ballI)
    fix h assume h: "h \<in> set hs"
    have root: "header_key h = '''' \<Longrightarrow> hdr_Typeflag h = TypeDir"
      using acc h by (auto simp: acceptable_def list_all_iff header_ok_def)
    show "hdr_Typeflag h \<in> {TypeSymlink, TypeLink} \<longrightarrow>
      (\<exists>t. resolves_to (index_of hs) (header_key h) t \<and> (hdr_Typeflag h = TypeLink \<longrightarrow> IsFile t))"
    proof (cases "header_key h = ''''")
      case False
      then have "\<forall>m. byName (index_of hs) (header_key h) = Some m \<and> is_link m \<longrightarrow>
          (\<exists>t. resolve (index_of hs) (header_key h) = Inr t \<and> (IsHardlink m \<longrightarrow> IsFile t))"
        using acc h unfolding acceptable_def Let_def by blast
      then show ?thesis by (rule iffD1 [OF links_resolve_iff [OF dirs(1,2) h]])
    qed (use root in simp)
  qed
  ultimately show ?thesis
    unfolding well_formed_archive_def using dirs header_keys_distinct [OF dirs(1)] by blast
qed

lemma well_formed_parents:
  assumes safe: "list_all header_safe hs" and keys: "distinct (map header_key hs)"
    and wf: "\<And>g n. g \<in> set hs \<Longrightarrow> 0 < n \<Longrightarrow> n < length (header_parts g) \<Longrightarrow>
      dir_member hs (take n (header_parts g))"
    and h: "h \<in> set hs" and key: "header_key h \<noteq> ''''"
  shows "parent_resolves (index_of hs) (header_key h)"
proof -
  let ?P = "butlast (header_parts h)" and ?idx = "index_of hs"
  have plain: "list_all plain_comp (header_parts h)"
    using h safe header_safe_parts by (auto simp: list_all_iff)
  have ne: "header_parts h \<noteq> []" using key header_key_Nil [OF plain] by simp
  have plainP: "list_all plain_comp (take n ?P)" for n
    using plain by (auto simp: list_all_iff dest: in_set_takeD in_set_butlastD)
  have dirs: "dir_member hs (take n ?P)" if "0 < n" "n \<le> length ?P" for n
    using wf [OF h, of n] that ne take_butlast [of n "header_parts h"] by simp
  have short: "length ?P \<le> resolve_bound ?idx"
    using member_depth [OF dirs] bound_index_of [of hs] by linarith
  have "\<exists>m. byName ?idx (join_with CHR ''/'' (take n ?P)) = Some m \<and> IsDir m \<and> \<not> is_link m"
    if "0 < n" "n \<le> length ?P" for n
    using dirs [OF that] dir_member_iff [OF safe keys plainP] by blast
  then have "?P \<noteq> [] \<Longrightarrow> \<exists>e. resolve ?idx (join_with CHR ''/'' ?P) = Inr e \<and> IsDir e"
    using directories_resolve [OF plainP [of "length ?P", simplified] _ _ short] by blast
  moreover have "parent_key (header_key h) = join_with CHR ''/'' ?P"
    unfolding header_key_def by (rule parent_key_join [OF plain ne])
  ultimately show ?thesis by (cases "?P = []") (auto simp: parent_resolves_def)
qed

lemma well_formed_acceptable:
  assumes wf: "well_formed_archive hs"
  shows "acceptable hs"
proof -
  let ?idx = "index_of hs"
  have safe: "list_all header_safe hs" and dist: "distinct (map header_parts hs)"
    and up: "\<And>g n. g \<in> set hs \<Longrightarrow> 0 < n \<Longrightarrow> n < length (header_parts g) \<Longrightarrow>
      dir_member hs (take n (header_parts g))"
    using wf by (simp_all add: well_formed_archive_def)
  have keys: "distinct (map header_key hs)" using header_keys_distinct [OF safe] dist by simp
  note dir_iff = dir_member_iff [OF safe keys]
  have ancestors: "\<not> has_link_ancestor ?idx (header_key h)" if h: "h \<in> set hs" for h
  proof -
    have plain: "list_all plain_comp (header_parts h)"
      using h safe header_safe_parts by (auto simp: list_all_iff)
    then have "list_all plain_comp (take n (header_parts h))" for n
      by (auto simp: list_all_iff dest: in_set_takeD)
    then have "\<not> link_at ?idx (join_with CHR ''/'' (take n (header_parts h)))"
      if "0 < n" "n < length (header_parts h)" for n
      using dir_iff up [OF h that] by (fastforce simp: link_at_def)
    then show ?thesis
      using key_parts_join [OF plain]
      by (auto simp: has_link_ancestor_def Let_def header_key_def list_ex_iff)
  qed
  have roots: "\<forall>k \<in> {''home'', ''home/agent''}. \<exists>m. byName ?idx k = Some m \<and> IsDir m \<and> \<not> is_link m"
    using wf dir_iff [OF home_keys(3)] dir_iff [OF home_keys(4)] home_keys(1,2)
    by (simp add: well_formed_archive_def)
  have links: "\<forall>m. byName ?idx (header_key h) = Some m \<and> is_link m \<longrightarrow>
      (\<exists>t. resolve ?idx (header_key h) = Inr t \<and> (IsHardlink m \<longrightarrow> IsFile t))" if "h \<in> set hs" for h
    using wf that links_resolve_iff [OF safe keys that] unfolding well_formed_archive_def by blast
  have parents: "parent_resolves ?idx (header_key h)" if "h \<in> set hs" "header_key h \<noteq> ''''" for h
    using safe keys up that by (rule well_formed_parents)
  have "hs \<noteq> []" using wf by (simp add: well_formed_archive_def)
  then show ?thesis
    unfolding acceptable_def Let_def list_all_header_ok
    using safe keys ancestors parents roots links by blast
qed

text \<open>C1: the validator accepts an archive exactly when its gzip stream opens, drains and closes, the
  tar stream in it ends cleanly within the limit of members, and the headers form a well-formed
  archive: safe names and links that stay inside, no path twice, every proper ancestor of a member a
  directory member, the two required directories present, and every link leading to a member (a hard
  link to a file).\<close>

theorem ValidateDataTar_accepts:
  "ValidateDataTar maxMembers r = Inr () \<longleftrightarrow>
     gzip_opens r \<and> tar_end r = CleanEnd \<and> length (tar_headers r) \<le> maxMembers \<and>
     gzip_drains r \<and> gzip_closes r \<and> well_formed_archive (tar_headers r)"
  unfolding ValidateDataTar_iff using acceptable_well_formed well_formed_acceptable by blast

end
