(* ===== verification/Names.thy ===== *)
theory Names
  imports GoStrings
begin

text \<open>
  \<open>internal/names/names.go\<close>: validation and generation of box names.  The random
  numbers of \<open>Generate\<close> are an argument: \<open>rnd k\<close> is the raw draw behind the
  \<open>k\<close>-th call of \<open>rand.IntN\<close>, reduced to the range the call asks for.
\<close>

section \<open>Vocabulary\<close>

definition adjectives :: "string list" where
  "adjectives =
     [''large'', ''small'', ''quick'', ''slow'', ''quiet'', ''loud'', ''brave'', ''calm'',
      ''eager'', ''gentle'', ''happy'', ''jolly'', ''kind'', ''lively'', ''mighty'', ''noble'',
      ''proud'', ''silly'', ''witty'', ''young'', ''amber'', ''azure'', ''bold'', ''bright'',
      ''clever'', ''crisp'', ''dapper'', ''fuzzy'', ''grumpy'', ''handy'', ''icy'', ''keen'',
      ''lucky'', ''merry'', ''nifty'', ''plucky'', ''rowdy'', ''sturdy'', ''tidy'', ''vivid'']"

definition animals :: "string list" where
  "animals =
     [''cat'', ''dog'', ''fox'', ''owl'', ''wolf'', ''bear'', ''hawk'', ''seal'', ''crane'',
      ''otter'', ''lynx'', ''moose'', ''heron'', ''raven'', ''gecko'', ''ibis'', ''koala'',
      ''mole'', ''newt'', ''puma'', ''quail'', ''ram'', ''shark'', ''toad'', ''vole'',
      ''whale'', ''yak'', ''zebra'', ''bison'', ''civet'', ''eagle'', ''ferret'', ''goose'',
      ''hare'', ''jay'', ''kite'', ''loris'', ''mink'', ''panda'', ''stoat'']"

definition reserved :: "string list" where
  "reserved =
     [''create'', ''new'', ''list'', ''ls'', ''enter'', ''ssh'', ''shell'', ''start'', ''stop'',
      ''backup'', ''export'', ''save'', ''import'', ''load'', ''restore'', ''logs'', ''resources'',
      ''gateway'', ''open'', ''doctor'', ''upgrade'', ''update'', ''delete'', ''rm'', ''remove'',
      ''prune'', ''help'', ''version'', ''all'', ''none'', ''default'']"

section \<open>Validate\<close>

datatype name_error = NameEmpty | NameTooLong string | NameNoMatch string | NameReserved string

definition maxNameLen :: nat where
  "maxNameLen = 32"

definition is_lower :: "char \<Rightarrow> bool" where
  "is_lower c \<longleftrightarrow> 97 \<le> (of_char c :: nat) \<and> (of_char c :: nat) \<le> 122"

definition name_start :: "char \<Rightarrow> bool" where
  "name_start c \<longleftrightarrow> is_lower c \<or> is_digit c"

definition name_char :: "char \<Rightarrow> bool" where
  "name_char c \<longleftrightarrow> is_lower c \<or> is_digit c \<or> c = CHR ''_'' \<or> c = CHR ''-''"

text \<open>The pattern \<open>^[a-z0-9][a-z0-9_-]*$\<close>; without flags \<open>$\<close> is the end of the text.\<close>

fun validPattern :: "string \<Rightarrow> bool" where
  "validPattern [] = False"
| "validPattern (c # cs) = (name_start c \<and> list_all name_char cs)"

definition Validate :: "string \<Rightarrow> name_error + unit" where
  "Validate name =
     (if name = '''' then Inl NameEmpty
      else if length name > maxNameLen then Inl (NameTooLong name)
      else if \<not> validPattern name then Inl (NameNoMatch name)
      else if name \<in> set reserved then Inl (NameReserved name)
      else Inr ())"

lemma Validate_iff:
  "Validate name = Inr () \<longleftrightarrow>
     length name \<le> 32 \<and> validPattern name \<and> name \<notin> set reserved"
  by (auto simp: Validate_def maxNameLen_def)

lemma name_char_plain: "name_char c \<Longrightarrow> c \<noteq> CHR ''/'' \<and> c \<noteq> CHR ''.'' \<and> c \<noteq> CHR '':'' \<and> c \<noteq> CHR ''='' \<and> c \<noteq> CHR 0x0A"
  by (auto simp: name_char_def is_lower_def is_digit_def)

lemma validPattern_chars: "validPattern s \<Longrightarrow> c \<in> set s \<Longrightarrow> name_char c"
  by (cases s) (auto simp: name_start_def name_char_def list_all_iff)

lemma Validate_chars: "Validate s = Inr () \<Longrightarrow> c \<in> set s \<Longrightarrow> name_char c"
  by (auto simp: Validate_iff dest: validPattern_chars)

lemma Validate_neq_Nil: "Validate s = Inr () \<Longrightarrow> s \<noteq> []"
  by (auto simp: Validate_iff)

section \<open>Generate\<close>

definition IntN :: "(nat \<Rightarrow> nat) \<Rightarrow> nat \<Rightarrow> nat \<Rightarrow> nat" where
  "IntN rnd k n = rnd k mod n"

definition pair_name :: "string \<Rightarrow> string \<Rightarrow> string" where
  "pair_name adj an = adj @ ''-'' @ an"

text \<open>The random attempts: two draws each, from draw \<open>k\<close> on.\<close>

fun random_attempts :: "(string \<Rightarrow> bool) \<Rightarrow> (nat \<Rightarrow> nat) \<Rightarrow> nat \<Rightarrow> nat \<Rightarrow> string option" where
  "random_attempts taken rnd k 0 = None"
| "random_attempts taken rnd k (Suc n) =
     (let name = pair_name (adjectives ! IntN rnd k (length adjectives))
                           (animals ! IntN rnd (Suc k) (length animals))
      in if \<not> taken name then Some name else random_attempts taken rnd (k + 2) n)"

definition all_pairs :: "string list" where
  "all_pairs = concat (map (\<lambda>adj. map (pair_name adj) animals) adjectives)"

text \<open>\<open>%04d\<close>\<close>

definition pad4 :: "nat \<Rightarrow> string" where
  "pad4 n = (let s = show_nat n in replicate (4 - length s) CHR ''0'' @ s)"

fun suffix_attempts :: "(string \<Rightarrow> bool) \<Rightarrow> (nat \<Rightarrow> nat) \<Rightarrow> nat \<Rightarrow> nat \<Rightarrow> string option" where
  "suffix_attempts taken rnd k 0 = None"
| "suffix_attempts taken rnd k (Suc n) =
     (let name = pair_name (adjectives ! IntN rnd k (length adjectives))
                   (animals ! IntN rnd (Suc k) (length animals)) @ ''-'' @
                 pad4 (IntN rnd (k + 2) 10000)
      in if \<not> taken name then Some name else suffix_attempts taken rnd (k + 3) n)"

datatype generate_error = ExhaustedCandidates

definition maxAttempts :: nat where
  "maxAttempts = 10 * length adjectives * length animals"

definition Generate :: "(string \<Rightarrow> bool) \<Rightarrow> (nat \<Rightarrow> nat) \<Rightarrow> generate_error + string" where
  "Generate taken rnd =
     (case random_attempts taken rnd 0 maxAttempts of
        Some name \<Rightarrow> Inr name
      | None \<Rightarrow>
          (case find (\<lambda>name. \<not> taken name) all_pairs of
             Some name \<Rightarrow> Inr name
           | None \<Rightarrow>
               (case suffix_attempts taken rnd (2 * maxAttempts) 100 of
                  Some name \<Rightarrow> Inr name
                | None \<Rightarrow> Inl ExhaustedCandidates)))"

lemma length_words [simp]: "length adjectives = 40" "length animals = 40"
  by (simp_all add: adjectives_def animals_def)

lemma IntN_less [simp]: "0 < n \<Longrightarrow> IntN rnd k n < n"
  by (simp add: IntN_def)

definition word_ok :: "string \<Rightarrow> bool" where
  "word_ok w \<longleftrightarrow> w \<noteq> [] \<and> length w \<le> 7 \<and> list_all is_lower w"

lemma words_ok: "list_all word_ok adjectives" "list_all word_ok animals"
  by (simp_all add: adjectives_def animals_def word_ok_def is_lower_def)

lemma word_ok_nth [simp]:
  "i < 40 \<Longrightarrow> word_ok (adjectives ! i)" "i < 40 \<Longrightarrow> word_ok (animals ! i)"
  using words_ok by (simp_all add: list_all_length)

lemma reserved_no_dash: "s \<in> set reserved \<Longrightarrow> CHR ''-'' \<notin> set s"
  by (auto simp: reserved_def)

lemma show_nat_length: "n < 10 ^ Suc k \<Longrightarrow> length (show_nat n) \<le> Suc k"
proof (induction k arbitrary: n)
  case 0
  then show ?case by (simp add: show_nat.simps)
next
  case (Suc k)
  show ?case
  proof (cases "n < 10")
    case True
    then show ?thesis by (simp add: show_nat.simps)
  next
    case False
    have "n div 10 < 10 ^ Suc k" using Suc.prems by (simp add: div_less_iff_less_mult)
    then have "length (show_nat (n div 10)) \<le> Suc k" by (rule Suc.IH)
    then show ?thesis using False by (simp add: show_nat.simps [of n])
  qed
qed

lemma pad4_ok:
  assumes "n < 10000"
  shows "length (pad4 n) = 4" and "list_all is_digit (pad4 n)"
proof -
  have "length (show_nat n) \<le> 4" using assms show_nat_length [of n 3] by simp
  then show "length (pad4 n) = 4" by (simp add: pad4_def Let_def)
  show "list_all is_digit (pad4 n)"
    by (auto simp: pad4_def Let_def list_all_iff is_digit_def [of "CHR ''0''"] dest: show_nat_digits)
qed

lemma pair_name_valid:
  assumes "word_ok a" and "word_ok b" and "list_all name_char t" and "length t \<le> 5"
  shows "Validate (pair_name a b @ t) = Inr ()"
proof -
  have "pair_name a b @ t \<notin> set reserved"
    using reserved_no_dash [of "pair_name a b @ t"] by (auto simp: pair_name_def)
  moreover have "validPattern (pair_name a b @ t)"
    using assms unfolding pair_name_def word_ok_def
    by (cases a) (auto simp: name_start_def name_char_def list_all_iff)
  ultimately show ?thesis
    using assms by (auto simp: Validate_iff pair_name_def word_ok_def)
qed

lemma random_attempts_Some:
  "random_attempts taken rnd k n = Some name \<Longrightarrow> \<not> taken name \<and> Validate name = Inr ()"
proof (induction taken rnd k n rule: random_attempts.induct)
  case (2 taken rnd k n)
  then show ?case
    using pair_name_valid [of _ _ "[]"] by (auto simp: Let_def split: if_splits)
qed simp

lemma suffix_attempts_Some:
  "suffix_attempts taken rnd k n = Some name \<Longrightarrow> \<not> taken name \<and> Validate name = Inr ()"
proof (induction taken rnd k n rule: suffix_attempts.induct)
  case (2 taken rnd k n)
  have "list_all name_char (''-'' @ pad4 (IntN rnd (k + 2) 10000))"
    using pad4_ok(2) [of "IntN rnd (k + 2) 10000"] by (auto simp: name_char_def list_all_iff)
  then show ?case
    using 2 pair_name_valid [of _ _ "''-'' @ pad4 (IntN rnd (k + 2) 10000)"]
      pad4_ok(1) [of "IntN rnd (k + 2) 10000"]
    by (auto simp: Let_def split: if_splits)
qed simp

lemma all_pairs_valid: "name \<in> set all_pairs \<Longrightarrow> Validate name = Inr ()"
  using words_ok pair_name_valid [of _ _ "[]"] by (auto simp: all_pairs_def list_all_iff)

text \<open>Whichever path the generator takes (random pairs, the scan of all pairs, or pairs with a
  number), a name it returns is not taken and is a valid box name.\<close>

theorem Generate_ok: "Generate taken rnd = Inr name \<Longrightarrow> \<not> taken name \<and> Validate name = Inr ()"
  unfolding Generate_def
  by (auto split: option.splits simp: find_Some_iff dest: random_attempts_Some suffix_attempts_Some
      intro: all_pairs_valid)

theorem Generate_ok_witness: "Validate ''large-dog'' = Inr ()"
proof -
  have n: "maxAttempts = Suc 15999" by (simp add: maxAttempts_def)
  have "Generate (\<lambda>s. False) (\<lambda>k. k) = Inr ''large-dog''"
    unfolding Generate_def n random_attempts.simps(2)
    by (simp add: IntN_def Let_def pair_name_def) (simp add: adjectives_def animals_def)
  then show ?thesis using Generate_ok by blast
qed

lemma Generate_error: "Generate taken rnd = Inl e \<Longrightarrow> name \<in> set all_pairs \<Longrightarrow> taken name"
  unfolding Generate_def by (auto split: option.splits simp: find_None_iff)

end
