(* ===== verification/GoPath.thy ===== *)
theory GoPath
  imports GoStrings
begin

text \<open>
  What the code uses of Go's \<open>path\<close> and \<open>path/filepath\<close> (the two agree on Unix): the
  lexical operations \<open>Clean\<close>, \<open>IsAbs\<close>, \<open>Join\<close>, \<open>Base\<close> and \<open>Dir\<close>.
\<close>

definition IsAbs :: "string \<Rightarrow> bool" where
  "IsAbs p \<longleftrightarrow> has_prefix p ''/''"

text \<open>The components of a path without empty and \<open>.\<close> ones.\<close>

definition comps :: "string \<Rightarrow> string list" where
  "comps p = filter (\<lambda>c. c \<noteq> '''' \<and> c \<noteq> ''.'') (split_on CHR ''/'' p)"

fun clean_comps :: "bool \<Rightarrow> string list \<Rightarrow> string list \<Rightarrow> string list" where
  "clean_comps rooted out [] = out"
| "clean_comps rooted out (c # cs) =
     (if c = ''..'' then
        (if out \<noteq> [] \<and> last out \<noteq> ''..'' then clean_comps rooted (butlast out) cs
         else if rooted then clean_comps rooted out cs
         else clean_comps rooted (out @ [c]) cs)
      else clean_comps rooted (out @ [c]) cs)"

definition Clean :: "string \<Rightarrow> string" where
  "Clean p =
     (if p = '''' then ''.''
      else let rooted = IsAbs p; out = join_with CHR ''/'' (clean_comps rooted [] (comps p))
      in if rooted then ''/'' @ out else if out = '''' then ''.'' else out)"

definition Join2 :: "string \<Rightarrow> string \<Rightarrow> string" where
  "Join2 a b =
     (if a = '''' then (if b = '''' then '''' else Clean b)
      else if b = '''' then Clean a else Clean (a @ ''/'' @ b))"

text \<open>\<open>Base\<close>: trailing slashes are dropped, then everything up to the last slash.\<close>

definition Base :: "string \<Rightarrow> string" where
  "Base p =
     (if p = '''' then ''.''
      else let q = rev (dropWhile (\<lambda>c. c = CHR ''/'') (rev p)); b = last (split_on CHR ''/'' q)
      in if b = '''' then ''/'' else b)"

text \<open>\<open>filepath.Dir\<close>: everything up to the last slash, cleaned.\<close>

definition DirOf :: "string \<Rightarrow> string" where
  "DirOf p = Clean (rev (dropWhile (\<lambda>c. c \<noteq> CHR ''/'') (rev p)))"

section \<open>Facts\<close>

definition proper_comp :: "string \<Rightarrow> bool" where
  "proper_comp c \<longleftrightarrow> c \<noteq> '''' \<and> c \<noteq> ''.'' \<and> c \<noteq> ''..'' \<and> CHR ''/'' \<notin> set c"

lemma comps_set: "c \<in> set (comps p) \<Longrightarrow> c \<noteq> '''' \<and> c \<noteq> ''.'' \<and> CHR ''/'' \<notin> set c"
  by (auto simp: comps_def dest: split_on_parts)

lemma clean_comps_rooted:
  "list_all proper_comp out \<Longrightarrow> (\<And>c. c \<in> set cs \<Longrightarrow> c \<noteq> '''' \<and> c \<noteq> ''.'' \<and> CHR ''/'' \<notin> set c)
     \<Longrightarrow> list_all proper_comp (clean_comps True out cs)"
proof (induction cs arbitrary: out)
  case (Cons c cs)
  have "list_all proper_comp (butlast out)"
    using Cons.prems(1) by (auto simp: list_all_iff dest: in_set_butlastD)
  moreover have "list_all proper_comp (out @ [c])" if "c \<noteq> ''..''"
    using Cons.prems that by (auto simp: list_all_iff proper_comp_def)
  ultimately show ?case using Cons by simp
qed simp

text \<open>A clean absolute path is the root followed by proper components.\<close>

lemma Clean_abs:
  assumes "IsAbs p"
  obtains cs where "Clean p = ''/'' @ join_with CHR ''/'' cs" and "list_all proper_comp cs"
proof
  show "Clean p = ''/'' @ join_with CHR ''/'' (clean_comps True [] (comps p))"
    using assms by (auto simp: Clean_def IsAbs_def has_prefix_def)
  show "list_all proper_comp (clean_comps True [] (comps p))"
    by (rule clean_comps_rooted) (auto dest: comps_set)
qed

lemma clean_comps_proper:
  "list_all proper_comp cs \<Longrightarrow> clean_comps rooted out cs = out @ cs"
  by (induction cs arbitrary: out) (auto simp: proper_comp_def)

lemma comps_join:
  assumes "list_all proper_comp cs"
  shows "comps (''/'' @ join_with CHR ''/'' cs) = cs"
proof (cases "cs = []")
  case False
  have "split_on CHR ''/'' (join_with CHR ''/'' cs) = cs"
    using assms False by (intro split_join) (auto simp: list_all_iff proper_comp_def)
  moreover have "filter (\<lambda>c. c \<noteq> '''' \<and> c \<noteq> ''.'') cs = cs"
    using assms by (auto simp: filter_id_conv list_all_iff proper_comp_def)
  ultimately show ?thesis by (simp add: comps_def)
qed (simp add: comps_def)

lemma Clean_join:
  "list_all proper_comp cs \<Longrightarrow>
     Clean (''/'' @ join_with CHR ''/'' cs) = ''/'' @ join_with CHR ''/'' cs"
  using comps_join [of cs]
  by (simp add: Clean_def IsAbs_def has_prefix_def clean_comps_proper)

lemma Clean_idem_abs: "IsAbs p \<Longrightarrow> Clean (Clean p) = Clean p"
  by (elim Clean_abs) (simp add: Clean_join del: append.simps)

lemma IsAbs_Clean: "IsAbs p \<Longrightarrow> IsAbs (Clean p)"
  by (elim Clean_abs) (simp add: IsAbs_def has_prefix_def)

lemma Base_snoc:
  assumes "CHR ''/'' \<notin> set b" and "b \<noteq> ''''"
  shows "Base (d @ ''/'' @ b) = b"
proof -
  have split: "last (split_on CHR ''/'' (d @ ''/'' @ b)) = b"
    using assms by (simp add: split_on_append split_on_no_sep)
  have "dropWhile (\<lambda>c. c = CHR ''/'') (rev (d @ ''/'' @ b)) = rev (d @ ''/'' @ b)"
    using assms by (cases b rule: rev_cases) auto
  then show ?thesis using split assms by (simp add: Base_def Let_def)
qed

lemma Base_no_sep:
  assumes "CHR ''/'' \<notin> set b" and "b \<noteq> []"
  shows "Base b = b"
proof -
  have "dropWhile (\<lambda>c. c = CHR ''/'') (rev b) = rev b"
    using assms by (cases b rule: rev_cases) auto
  then show ?thesis using assms by (simp add: Base_def Let_def split_on_no_sep)
qed

lemma comps_proper: "proper_comp b \<Longrightarrow> comps b = [b]"
  by (simp add: comps_def proper_comp_def split_on_no_sep)

lemma comps_snoc: "proper_comp b \<Longrightarrow> comps (d @ ''/'' @ b) = comps d @ [b]"
  by (simp add: comps_def proper_comp_def split_on_append split_on_no_sep)

lemma clean_comps_snoc:
  "proper_comp b \<Longrightarrow> clean_comps r out (cs @ [b]) = clean_comps r out cs @ [b]"
proof (induction cs arbitrary: out)
  case (Cons c cs)
  then show ?case by (cases r) simp_all
qed (simp add: proper_comp_def)

lemma join_snoc_ends:
  "\<exists>pre. join_with CHR ''/'' (cs @ [b]) = pre @ b \<and> (pre = [] \<or> last pre = CHR ''/'')"
proof (cases "cs = []")
  case True
  then show ?thesis by simp
next
  case False
  then show ?thesis
    by (intro exI [of _ "join_with CHR ''/'' cs @ ''/''"]) (simp add: join_with_append)
qed

lemma Clean_ends:
  assumes "p \<noteq> []" and "proper_comp b" and "comps p = cs @ [b]"
  shows "\<exists>pre. Clean p = pre @ b \<and> (pre = [] \<or> last pre = CHR ''/'')"
proof -
  obtain pre where pre: "join_with CHR ''/'' (clean_comps (IsAbs p) [] (comps p)) = pre @ b"
    and last: "pre = [] \<or> last pre = CHR ''/''"
    using join_snoc_ends [of "clean_comps (IsAbs p) [] cs" b] assms(2,3)
    by (auto simp: clean_comps_snoc)
  have "Clean p = (if IsAbs p then ''/'' @ pre else pre) @ b"
    using assms(1,2) pre by (auto simp: Clean_def Let_def proper_comp_def)
  then show ?thesis using last by (auto split: if_splits)
qed

text \<open>The base name of a joined path is the name that was joined.\<close>

lemma Base_Join2:
  assumes "proper_comp b"
  shows "Base (Join2 d b) = b"
proof -
  have b: "b \<noteq> []" "CHR ''/'' \<notin> set b" using assms by (auto simp: proper_comp_def)
  have "\<exists>p cs. Join2 d b = Clean p \<and> p \<noteq> [] \<and> comps p = cs @ [b]"
  proof (cases "d = []")
    case True
    then show ?thesis using b comps_proper [OF assms]
      by (intro exI [of _ b] exI [of _ "[]"]) (simp add: Join2_def)
  next
    case False
    then show ?thesis using b comps_snoc [OF assms, of d]
      by (intro exI [of _ "d @ ''/'' @ b"] exI [of _ "comps d"]) (simp add: Join2_def)
  qed
  then obtain pre where pre: "Join2 d b = pre @ b" "pre = [] \<or> last pre = CHR ''/''"
    using Clean_ends [OF _ assms] by metis
  show ?thesis
  proof (cases "pre = []")
    case True
    then show ?thesis using pre b by (simp add: Base_no_sep)
  next
    case False
    then have "Join2 d b = butlast pre @ ''/'' @ b"
      using pre append_butlast_last_id [of pre] by (metis append.assoc)
    then show ?thesis using Base_snoc [OF b(2,1)] by simp
  qed
qed

end
