(* ===== verification/BoxEnv.thy ===== *)
theory BoxEnv
  imports Names GoPath "HOL-Library.AList" "HOL-Library.Char_ord" "HOL-Library.List_Lexorder"
begin

text \<open>
  \<open>internal/state/state.go\<close>: the on-host state directory and the per-box
  \<open>KEY=VALUE\<close> files.  A Go \<open>map[string]string\<close> is an association list with distinct
  keys; files are a partial map from paths to contents.  \<open>WriteBoxEnv\<close> is modelled
  operation by operation, with every file-system state it passes through, so that a crash
  between two operations is covered.
\<close>

section \<open>Paths\<close>

datatype env_error =
    NoHome
  | MkdirFailed string
  | BadName name_error
  | ReadFailed string
  | WriteFailed string
  | RemoveFailed string

text \<open>The home directory, if there is one, and which directories \<open>MkdirAll\<close> can make.\<close>

record host =
  home_dir :: "string option"
  mkdir_ok :: "string \<Rightarrow> bool"

definition Dir :: "host \<Rightarrow> env_error + string" where
  "Dir h =
     (case home_dir h of
        None \<Rightarrow> Inl NoHome
      | Some home \<Rightarrow>
          (let dir = Join2 home ''.tx9''
           in if mkdir_ok h dir then Inr dir else Inl (MkdirFailed dir)))"

definition BoxesDir :: "host \<Rightarrow> env_error + string" where
  "BoxesDir h =
     result_bind (Dir h) (\<lambda>dir.
       let d = Join2 dir ''boxes''
       in if mkdir_ok h d then Inr d else Inl (MkdirFailed d))"

definition LocksDir :: "host \<Rightarrow> env_error + string" where
  "LocksDir h =
     result_bind (Dir h) (\<lambda>dir.
       let d = Join2 dir ''locks''
       in if mkdir_ok h d then Inr d else Inl (MkdirFailed d))"

definition BoxEnvPath :: "host \<Rightarrow> string \<Rightarrow> env_error + string" where
  "BoxEnvPath h name =
     result_bind (map_error BadName (Validate name)) (\<lambda>_.
     result_bind (BoxesDir h) (\<lambda>dir. Inr (Join2 dir (name @ ''.env''))))"

definition LockPath :: "host \<Rightarrow> string \<Rightarrow> env_error + string" where
  "LockPath h name =
     result_bind (map_error BadName (Validate name)) (\<lambda>_.
     result_bind (LocksDir h) (\<lambda>dir. Inr (Join2 dir (name @ ''.lock''))))"

section \<open>Reading\<close>

type_synonym env = "(string \<times> string) list"

text \<open>One line of the file.\<close>

definition read_line :: "env \<Rightarrow> string \<Rightarrow> env" where
  "read_line env raw =
     (let line = trim_suffix raw [CHR 0x0D]; trimmed = trim_space line in
      if trimmed = '''' \<or> has_prefix trimmed ''#'' then env
      else case cut_on CHR ''='' line of
        (k, v, ok) \<Rightarrow> if \<not> ok then env else AList.update (trim_space k) v env)"

definition parse_env :: "string \<Rightarrow> env" where
  "parse_env contents = foldl read_line [] (split_on CHR 0x0A contents)"

type_synonym files = "string \<rightharpoonup> string"

text \<open>\<open>unreadable p\<close>: reading \<open>p\<close> fails although the file is there.\<close>

definition ReadBoxEnv ::
  "host \<Rightarrow> (string \<Rightarrow> bool) \<Rightarrow> files \<Rightarrow> string \<Rightarrow> env_error + env" where
  "ReadBoxEnv h unreadable fs name =
     result_bind (BoxEnvPath h name) (\<lambda>path.
       if unreadable path then Inl (ReadFailed path)
       else case fs path of
         None \<Rightarrow> Inr []
       | Some contents \<Rightarrow> Inr (parse_env contents))"

section \<open>Writing\<close>

definition env_line :: "env \<Rightarrow> string \<Rightarrow> string" where
  "env_line env k = k @ ''='' @ the (map_of env k) @ [CHR 0x0A]"

definition print_env :: "env \<Rightarrow> string" where
  "print_env env = concat (map (env_line env) (sort (map fst env)))"

text \<open>
  The system calls of \<open>WriteBoxEnv\<close> in order.  \<open>fails s\<close> says that call \<open>s\<close> fails,
  \<open>partial\<close> is what a failed \<open>WriteString\<close> leaves in the temporary file, and \<open>rnd\<close>
  is the number \<open>CreateTemp\<close> draws for its name; \<open>CreateTemp\<close> opens exclusively, so a
  name that is taken is a failure (after Go's retries).  The result is the error or
  success and the list of the file-system states passed through, the last one being the
  final state.
\<close>

datatype write_call = CreateTemp | WriteString | SyncTemp | CloseTemp | RenameTemp | RemoveTemp

definition temp_path :: "string \<Rightarrow> nat \<Rightarrow> string" where
  "temp_path path rnd = Join2 (DirOf path) (''.'' @ Base path @ ''.tmp-'' @ show_nat rnd)"

definition drop_temp :: "(write_call \<Rightarrow> bool) \<Rightarrow> string \<Rightarrow> files \<Rightarrow> files" where
  "drop_temp fails tmp fs = (if fails RemoveTemp then fs else fs(tmp := None))"

definition write_atomically ::
  "(write_call \<Rightarrow> bool) \<Rightarrow> string \<Rightarrow> string \<Rightarrow> string \<Rightarrow> string \<Rightarrow> files
     \<Rightarrow> (env_error + unit) \<times> files list" where
  "write_atomically fails partial tmp path contents fs =
     (if fails CreateTemp \<or> fs tmp \<noteq> None then (Inl (WriteFailed path), [fs])
      else let fs1 = fs(tmp \<mapsto> '''') in
      if fails WriteString then
        (let fs2 = fs1(tmp \<mapsto> partial)
         in (Inl (WriteFailed path), [fs, fs1, fs2, drop_temp fails tmp fs2]))
      else let fs2 = fs1(tmp \<mapsto> contents) in
      if fails SyncTemp \<or> fails CloseTemp \<or> fails RenameTemp then
        (Inl (WriteFailed path), [fs, fs1, fs2, drop_temp fails tmp fs2])
      else
        (Inr (), [fs, fs1, fs2, (fs2(tmp := None))(path \<mapsto> contents)]))"

definition WriteBoxEnv ::
  "host \<Rightarrow> (write_call \<Rightarrow> bool) \<Rightarrow> string \<Rightarrow> nat \<Rightarrow> files \<Rightarrow> string \<Rightarrow> env
     \<Rightarrow> (env_error + unit) \<times> files list" where
  "WriteBoxEnv h fails partial rnd fs name env =
     (case BoxEnvPath h name of
        Inl e \<Rightarrow> (Inl e, [fs])
      | Inr path \<Rightarrow> write_atomically fails partial (temp_path path rnd) path (print_env env) fs)"

definition RemoveBoxEnv :: "host \<Rightarrow> bool \<Rightarrow> files \<Rightarrow> string \<Rightarrow> (env_error + unit) \<times> files" where
  "RemoveBoxEnv h remove_fails fs name =
     (case BoxEnvPath h name of
        Inl e \<Rightarrow> (Inl e, fs)
      | Inr path \<Rightarrow>
          if fs path = None then (Inr (), fs)
          else if remove_fails then (Inl (RemoveFailed path), fs)
          else (Inr (), fs(path := None)))"

section \<open>The round trip\<close>

text \<open>
  What the keys and values of a parsed file look like, and so what a caller may write
  back: a key is trimmed, is no comment and holds no \<open>=\<close>; a value is one line.
\<close>

definition key_ok :: "string \<Rightarrow> bool" where
  "key_ok k \<longleftrightarrow> trim_space k = k \<and> \<not> has_prefix k ''#'' \<and> CHR ''='' \<notin> set k \<and> CHR 0x0A \<notin> set k"

definition value_ok :: "string \<Rightarrow> bool" where
  "value_ok v \<longleftrightarrow> CHR 0x0A \<notin> set v"

definition env_ok :: "env \<Rightarrow> bool" where
  "env_ok env \<longleftrightarrow> distinct (map fst env) \<and> (\<forall>(k, v) \<in> set env. key_ok k \<and> value_ok v)"

text \<open>What a value reads as after it was written: the reader drops one carriage return.\<close>

definition read_value :: "string \<Rightarrow> string" where
  "read_value v = trim_suffix v [CHR 0x0D]"

lemma read_value_id: "v = [] \<or> last v \<noteq> CHR 0x0D \<Longrightarrow> read_value v = v"
  unfolding read_value_def by (cases "v = []") (simp_all add: trim_suffix_snoc_neq)

lemma value_ok_read_value: "value_ok v \<Longrightarrow> value_ok (read_value v)"
  by (auto simp: value_ok_def read_value_def trim_suffix_def dest: in_set_takeD)

lemma plain_byte_eq [simp]: "plain_byte CHR ''=''"
  by (simp add: plain_byte_def space_bytes_def space_encodings_def)

lemma trim_suffix_assign: "trim_suffix (k @ CHR ''='' # v) [CHR 0x0D] = k @ CHR ''='' # read_value v"
proof (cases "v = [] \<or> last v \<noteq> CHR 0x0D")
  case True
  then have "last (k @ CHR ''='' # v) \<noteq> CHR 0x0D" by auto
  then show ?thesis using True by (simp add: trim_suffix_snoc_neq read_value_id)
next
  case False
  then obtain u where v: "v = u @ [CHR 0x0D]" by (metis append_butlast_last_id)
  have "trim_suffix ((k @ CHR ''='' # u) @ [CHR 0x0D]) [CHR 0x0D] = k @ CHR ''='' # u"
    by (rule trim_suffix_append)
  then show ?thesis by (simp add: v read_value_def)
qed

lemma has_prefix_single: "has_prefix s [c] \<longleftrightarrow> s \<noteq> [] \<and> hd s = c"
  by (cases s) (auto simp: has_prefix_def)

text \<open>A line with an assignment, whatever its value is.\<close>

lemma read_assign:
  assumes "CHR ''='' \<notin> set k" and "\<not> has_prefix (trim_left_space k) ''#''"
  shows "read_line env (k @ CHR ''='' # v) = AList.update (trim_space k) (read_value v) env"
proof -
  let ?l = "k @ CHR ''='' # read_value v"
  have t: "trim_space ?l = trim_left_space k @ CHR ''='' # trim_right_space (read_value v)"
    by (rule trim_space_guard) simp
  then have "\<not> (trim_space ?l = '''' \<or> has_prefix (trim_space ?l) ''#'')"
    using assms(2) by (cases "trim_left_space k") (auto simp: has_prefix_single)
  moreover have "cut_on CHR ''='' ?l = (k, read_value v, True)"
    using cut_on_append [OF assms(1)] by simp
  ultimately show ?thesis by (simp add: read_line_def trim_suffix_assign Let_def)
qed

lemma read_env_line:
  assumes "key_ok k"
  shows "read_line env (k @ CHR ''='' # v) = AList.update k (read_value v) env"
proof -
  have "trim_space k = k" using assms by (simp add: key_ok_def)
  moreover from this have "trim_left_space k = k" by (metis trim_left_trim_space)
  ultimately show ?thesis using read_assign [of k env v] assms by (simp add: key_ok_def)
qed

definition ident_byte :: "char \<Rightarrow> bool" where
  "ident_byte c \<longleftrightarrow> c \<in> set ''ABCDEFGHIJKLMNOPQRSTUVWXYZ0123456789_''"

lemma key_ok_ident:
  assumes "k \<noteq> []" and "list_all ident_byte k"
  shows "key_ok k"
proof -
  have plain: "plain_byte c \<and> c \<notin> {CHR ''='', CHR ''#'', CHR 0x0A}" if "c \<in> set k" for c
  proof -
    have "ident_byte c" using assms(2) that by (simp add: list_all_iff)
    then show ?thesis
      by (auto simp: ident_byte_def plain_byte_def space_bytes_def space_encodings_def)
  qed
  then have "trim_space k = k" using assms(1) by (intro trim_space_plain) simp
  moreover have "\<not> has_prefix k ''#''" using plain [of "hd k"] assms(1) by (simp add: has_prefix_single)
  ultimately show ?thesis using plain by (auto simp: key_ok_def)
qed

text \<open>Every parsed file has such keys and values.\<close>

lemma cut_on_found: "cut_on c s = (k, v, True) \<Longrightarrow> s = k @ c # v \<and> c \<notin> set k"
  by (induction s arbitrary: k) (auto split: if_splits prod.splits)

lemma env_ok_update:
  assumes "env_ok env" and "key_ok k" and "value_ok v"
  shows "env_ok (AList.update k v env)"
proof -
  have d: "distinct (map fst (AList.update k v env))"
    using assms(1) by (auto simp: env_ok_def intro: distinct_update)
  moreover have "key_ok k' \<and> value_ok v'" if "(k', v') \<in> set (AList.update k v env)" for k' v'
  proof (cases "k' = k")
    case True
    have "map_of (AList.update k v env) k' = Some v'" using d that by simp
    then show ?thesis using True assms(2,3) by (simp add: update_conv')
  next
    case False
    have "map_of (AList.update k v env) k' = Some v'" using d that by simp
    then have "(k', v') \<in> set env" using False by (simp add: update_conv' map_of_SomeD)
    then show ?thesis using assms(1) by (auto simp: env_ok_def)
  qed
  ultimately show ?thesis by (auto simp: env_ok_def)
qed

lemma env_ok_read_line:
  assumes "env_ok env" and "CHR 0x0A \<notin> set raw"
  shows "env_ok (read_line env raw)"
proof -
  let ?line = "trim_suffix raw [CHR 0x0D]"
  have line: "CHR 0x0A \<notin> set ?line"
    using assms(2) by (auto simp: trim_suffix_def dest: in_set_takeD)
  obtain k v ok where cut: "cut_on CHR ''='' ?line = (k, v, ok)" by (cases "cut_on CHR ''='' ?line")
  show ?thesis
  proof (cases "trim_space ?line = '''' \<or> has_prefix (trim_space ?line) ''#'' \<or> \<not> ok")
    case True
    then show ?thesis using assms(1) cut by (auto simp: read_line_def Let_def)
  next
    case False
    then have split: "?line = k @ CHR ''='' # v" "CHR ''='' \<notin> set k"
      using cut cut_on_found by auto
    have "trim_space ?line = trim_left_space k @ CHR ''='' # trim_right_space v"
      unfolding split(1) by (rule trim_space_guard) simp
    then have "\<not> has_prefix (trim_left_space k) ''#''"
      using False by (cases "trim_left_space k") (auto simp: has_prefix_single)
    moreover obtain t where "trim_left_space k = trim_space k @ t"
      unfolding trim_space_def using trim_right_space_prefix by blast
    ultimately have "\<not> has_prefix (trim_space k) ''#''" by (auto simp: has_prefix_iff)
    then have "key_ok (trim_space k)" and "value_ok v"
      using split line set_trim_space [of k] by (auto simp: key_ok_def value_ok_def)
    then show ?thesis using False cut assms(1)
      by (auto simp: read_line_def Let_def intro: env_ok_update)
  qed
qed

lemma env_ok_parse: "env_ok (parse_env contents)"
proof -
  have "env_ok (foldl read_line env lines)"
    if "env_ok env" and "\<And>l. l \<in> set lines \<Longrightarrow> CHR 0x0A \<notin> set l" for env lines
    using that by (induction lines arbitrary: env) (auto intro: env_ok_read_line)
  moreover have "env_ok []" by (simp add: env_ok_def)
  ultimately show ?thesis unfolding parse_env_def by (auto dest: split_on_parts)
qed

lemma read_line_Nil: "read_line env '''' = env"
proof -
  have "trim_space '''' = ''''" by (rule trim_space_plain) simp
  then show ?thesis by (simp add: read_line_def)
qed

lemma split_env_lines:
  assumes "\<And>k. k \<in> set ks \<Longrightarrow> CHR 0x0A \<notin> set (k @ ''='' @ the (map_of env k))"
  shows "split_on CHR 0x0A (concat (map (env_line env) ks)) =
           map (\<lambda>k. k @ ''='' @ the (map_of env k)) ks @ ['''']"
  using assms
proof (induction ks)
  case (Cons k ks)
  have "split_on CHR 0x0A ((k @ ''='' @ the (map_of env k)) @ CHR 0x0A # concat (map (env_line env) ks)) =
      (k @ ''='' @ the (map_of env k)) # split_on CHR 0x0A (concat (map (env_line env) ks))"
    by (rule split_on_append_sep) (rule Cons.prems, simp)
  then show ?case using Cons by (simp add: env_line_def [of env k])
qed simp

lemma foldl_read_lines:
  assumes "\<And>k. k \<in> set ks \<Longrightarrow> key_ok k"
  shows "map_of (foldl read_line env0 (map (\<lambda>k. k @ ''='' @ f k) ks)) =
           map_of env0 ++ (\<lambda>k. if k \<in> set ks then Some (read_value (f k)) else None)"
  using assms
proof (induction ks arbitrary: env0)
  case (Cons k ks)
  then show ?case
    by (auto simp: read_env_line update_conv' map_add_def fun_eq_iff split: option.splits)
qed (simp add: map_add_def)

text \<open>Reading what was written gives every key back, with one trailing carriage return off.\<close>

lemma parse_print_env:
  assumes "env_ok env"
  shows "map_of (parse_env (print_env env)) k = map_option read_value (map_of env k)"
proof -
  let ?ks = "sort (map fst env)"
  have val: "map_of env k = Some v \<longleftrightarrow> (k, v) \<in> set env" for k v
    using assms by (simp add: env_ok_def)
  have ok: "key_ok k \<and> value_ok (the (map_of env k))" if "k \<in> set ?ks" for k
  proof -
    obtain v where "(k, v) \<in> set env" using \<open>k \<in> set ?ks\<close> by auto
    moreover from this have "map_of env k = Some v" using val by blast
    ultimately show ?thesis using assms by (auto simp: env_ok_def)
  qed
  then have "CHR 0x0A \<notin> set (k @ ''='' @ the (map_of env k))" if "k \<in> set ?ks" for k
    using that by (fastforce simp: key_ok_def value_ok_def)
  then have "parse_env (print_env env) =
      foldl read_line [] (map (\<lambda>k. k @ ''='' @ the (map_of env k)) ?ks)"
    unfolding parse_env_def print_env_def by (subst split_env_lines) (auto simp: read_line_Nil)
  then have "map_of (parse_env (print_env env)) =
      (\<lambda>k. if k \<in> set ?ks then Some (read_value (the (map_of env k))) else None)"
    using foldl_read_lines [of ?ks "[]" "\<lambda>k. the (map_of env k)"] ok by (simp add: map_add_def)
  then show ?thesis
    by (cases "map_of env k") (auto simp: map_of_eq_None_iff dest!: map_of_SomeD intro: rev_image_eqI)
qed

section \<open>Atomicity\<close>

lemma write_atomically_states:
  assumes "write_atomically fails partial tmp path contents fs = (r, states)" and "tmp \<noteq> path"
    and "s \<in> set states"
  shows "s path = fs path \<or> r = Inr () \<and> s path = Some contents"
  using assms
  by (auto simp: write_atomically_def drop_temp_def Let_def split: if_splits)

lemma write_atomically_last:
  assumes "write_atomically fails partial tmp path contents fs = (r, states)" and "tmp \<noteq> path"
  shows "states \<noteq> [] \<and>
    (r = Inr () \<longrightarrow> last states = fs(path \<mapsto> contents)) \<and>
    (r \<noteq> Inr () \<longrightarrow> \<not> fails RemoveTemp \<longrightarrow> last states = fs)"
  using assms
  by (auto simp: write_atomically_def drop_temp_def Let_def fun_eq_iff split: if_splits)

lemma show_nat_no_slash: "CHR ''/'' \<notin> set (show_nat n)"
  using show_nat_digits [of _ n] by (force simp: is_digit_def)

lemma box_file_proper:
  assumes "Validate name = Inr ()" and "CHR ''/'' \<notin> set suffix" and "length suffix > 2"
  shows "proper_comp (name @ suffix)"
proof -
  have "CHR ''/'' \<notin> set name"
    using assms(1) Validate_chars name_char_plain by fastforce
  moreover have "name @ suffix \<noteq> ''.''" and "name @ suffix \<noteq> ''..''" and "name @ suffix \<noteq> []"
    using assms(3) by (auto dest: arg_cong [of _ _ length])
  ultimately show ?thesis using assms(2) by (simp add: proper_comp_def)
qed

lemma BoxEnvPath_Base:
  assumes "BoxEnvPath h name = Inr path"
  shows "Base path = name @ ''.env'' \<and> proper_comp (name @ ''.env'')"
proof -
  obtain dir where valid: "Validate name = Inr ()" and path: "path = Join2 dir (name @ ''.env'')"
    using assms by (auto simp: BoxEnvPath_def result_bind_Inr_iff)
  have "proper_comp (name @ ''.env'')" using valid by (rule box_file_proper) simp_all
  then show ?thesis by (simp add: path Base_Join2)
qed

text \<open>The temporary file is never the file that is replaced.\<close>

lemma temp_path_neq:
  assumes "BoxEnvPath h name = Inr path"
  shows "temp_path path rnd \<noteq> path"
proof
  assume eq: "temp_path path rnd = path"
  have base: "Base path = name @ ''.env''" and proper: "proper_comp (name @ ''.env'')"
    using BoxEnvPath_Base [OF assms] by auto
  have "proper_comp (''.'' @ Base path @ ''.tmp-'' @ show_nat rnd)"
    using proper base show_nat_no_slash [of rnd] by (auto simp: proper_comp_def)
  then have "Base (temp_path path rnd) = ''.'' @ Base path @ ''.tmp-'' @ show_nat rnd"
    unfolding temp_path_def by (rule Base_Join2)
  then have "length (Base path) = length (''.'' @ Base path @ ''.tmp-'' @ show_nat rnd)"
    using eq by metis
  then show False by simp
qed

text \<open>C32: in every state of the disk that a write passes through, whichever of its system calls fail,
  the settings file has its old contents or, and only when the write reports success, all the new ones.\<close>

theorem WriteBoxEnv_states:
  assumes "WriteBoxEnv h fails partial rnd fs name env = (r, states)"
    and "BoxEnvPath h name = Inr path" and "s \<in> set states"
  shows "s path = fs path \<or> r = Inr () \<and> s path = Some (print_env env)"
proof -
  have w: "write_atomically fails partial (temp_path path rnd) path (print_env env) fs = (r, states)"
    using assms by (simp add: WriteBoxEnv_def)
  show ?thesis by (rule write_atomically_states [OF w temp_path_neq [OF assms(2)] assms(3)])
qed

theorem WriteBoxEnv_states_witness:
  "list_all (\<lambda>s. s ''/h/.tx9/boxes/a.env'' = Some ''old'') (snd (WriteBoxEnv \<lparr>home_dir = Some ''/h'', mkdir_ok = \<lambda>d. True\<rparr> (\<lambda>c. c = SyncTemp) ''par'' 7
        [''/h/.tx9/boxes/a.env'' \<mapsto> ''old''] ''a'' [(''K'', ''v'')]))"
proof -
  let ?h = "\<lparr>home_dir = Some ''/h'', mkdir_ok = \<lambda>d. True\<rparr>"
  let ?w = "WriteBoxEnv ?h (\<lambda>c. c = SyncTemp) ''par'' 7 [''/h/.tx9/boxes/a.env'' \<mapsto> ''old''] ''a'' [(''K'', ''v'')]"
  have path: "BoxEnvPath ?h ''a'' = Inr ''/h/.tx9/boxes/a.env''" by code_simp
  have failed: "fst ?w \<noteq> Inr ()" unfolding WriteBoxEnv_def path by (simp add: write_atomically_def Let_def)
  obtain r states where w: "?w = (r, states)" by (cases ?w)
  then have "r \<noteq> Inr ()" using failed by simp
  then show ?thesis using WriteBoxEnv_states [OF w path] w by (auto simp: list_all_iff)
qed

lemma WriteBoxEnv_last:
  assumes "WriteBoxEnv h fails partial rnd fs name env = (r, states)"
    and "BoxEnvPath h name = Inr path"
  shows "states \<noteq> [] \<and> (r = Inr () \<longrightarrow> last states = fs(path \<mapsto> print_env env)) \<and>
    (r \<noteq> Inr () \<longrightarrow> last states path = fs path)"
proof -
  have w: "write_atomically fails partial (temp_path path rnd) path (print_env env) fs = (r, states)"
    using assms by (simp add: WriteBoxEnv_def)
  have neq: "temp_path path rnd \<noteq> path" by (rule temp_path_neq [OF assms(2)])
  show ?thesis
    using write_atomically_last [OF w neq] write_atomically_states [OF w neq last_in_set]
    by blast
qed

text \<open>Reading back a box's settings after a successful write.\<close>

text \<open>C33: after a successful write the settings read back have exactly the written keys, each with
  its value as the reader reads it: unchanged, but for one carriage return at its end.\<close>

theorem Read_WriteBoxEnv:
  assumes "WriteBoxEnv h fails partial rnd fs name env = (Inr (), states)" and "env_ok env"
    and "\<And>p. \<not> unreadable p"
  shows "\<exists>env'. ReadBoxEnv h unreadable (last states) name = Inr env' \<and>
    (\<forall>k. map_of env' k = map_option read_value (map_of env k))"
proof -
  obtain path where path: "BoxEnvPath h name = Inr path"
    using assms(1) by (cases "BoxEnvPath h name") (auto simp: WriteBoxEnv_def)
  have "last states = fs(path \<mapsto> print_env env)"
    using WriteBoxEnv_last [OF assms(1) path] by simp
  then show ?thesis using path assms(2,3) by (simp add: ReadBoxEnv_def parse_print_env)
qed

theorem Read_WriteBoxEnv_witness:
  "\<exists>states env'. WriteBoxEnv \<lparr>home_dir = Some ''/h'', mkdir_ok = \<lambda>d. True\<rparr> (\<lambda>c. False) '''' 7 Map.empty ''a'' [(''K'', ''v'')]
       = (Inr (), states) \<and>
     ReadBoxEnv \<lparr>home_dir = Some ''/h'', mkdir_ok = \<lambda>d. True\<rparr> (\<lambda>p. False) (last states) ''a'' = Inr env' \<and>
     map_of env' ''K'' = Some ''v''"
proof -
  let ?h = "\<lparr>home_dir = Some ''/h'', mkdir_ok = \<lambda>d. True\<rparr>"
  let ?w = "WriteBoxEnv ?h (\<lambda>c. False) '''' 7 Map.empty ''a'' [(''K'', ''v'')]"
  have path: "BoxEnvPath ?h ''a'' = Inr ''/h/.tx9/boxes/a.env''" by code_simp
  have "fst ?w = Inr ()" unfolding WriteBoxEnv_def path by (simp add: write_atomically_def Let_def)
  then obtain states where w: "?w = (Inr (), states)" by (metis eq_fst_iff)
  have ok: "env_ok [(''K'', ''v'')]" by code_simp
  obtain env' where "ReadBoxEnv ?h (\<lambda>p. False) (last states) ''a'' = Inr env'"
    and "\<forall>k. map_of env' k = map_option read_value (map_of [(''K'', ''v'')] k)"
    using Read_WriteBoxEnv [OF w ok, of "\<lambda>p. False"] by blast
  moreover have "read_value ''v'' = ''v''" by code_simp
  ultimately show ?thesis using w by auto
qed

end
