(* ===== verification/LocalFiles.thy ===== *)
theory LocalFiles
  imports BoxEnv
begin

text \<open>
  Local files of the commands that write archives: which operation may fail, and the pattern that
  \<open>ExtractData\<close>, \<open>Encrypt\<close>, \<open>Decrypt\<close> and \<open>writeTx9Staged\<close> share - open the output with
  \<open>O_CREATE|O_EXCL\<close>, fill it, sync it in one of them, close it, and remove it again on every failure.
\<close>

datatype file_op =
    OpenFile string
  | CreateExcl string
  | SyncFile string
  | CloseFile string
  | RemoveFile string
  | LinkFile string
  | MkdirTemp

datatype local_error =
    FileOp file_op
  | NotContainer
  | MetadataNotRegular
  | MetadataUnreadable
  | MetadataInvalid
  | FormatNotPositive
  | FormatTooNew int
  | MetadataUnprintable
  | WriterFailed
  | NoDataMember
  | WrongDataMember string string
  | DataNotRegular
  | DataUnreadable
  | ExtraMember
  | BadTrailer
  | BadPassphrase
  | NoGPG
  | GPGPipe
  | GPGStart
  | GPGPassphraseWrite
  | GPGFailed
  | NotTarGz
  | UnsafeArchive
  | NoTerminal
  | EmptyPassphrase
  | PassphraseMismatch

text \<open>\<open>os.Open\<close> of a file and what it holds.\<close>

definition open_read :: "(file_op \<Rightarrow> bool) \<Rightarrow> string \<Rightarrow> files \<Rightarrow> local_error + string" where
  "open_read fails path fs =
     (case fs path of
        None \<Rightarrow> Inl (FileOp (OpenFile path))
      | Some contents \<Rightarrow> if fails (OpenFile path) then Inl (FileOp (OpenFile path)) else Inr contents)"

definition remove_file :: "(file_op \<Rightarrow> bool) \<Rightarrow> string \<Rightarrow> files \<Rightarrow> files" where
  "remove_file fails path fs = (if fails (RemoveFile path) then fs else fs(path := None))"

text \<open>
  The producer gives its result and what it has written to the output by then.
\<close>

definition write_new ::
  "(file_op \<Rightarrow> bool) \<Rightarrow> bool \<Rightarrow> string \<Rightarrow> (local_error + 'a) \<times> string \<Rightarrow> files
     \<Rightarrow> (local_error + 'a) \<times> files" where
  "write_new fails sync dst produced fs =
     (if fs dst \<noteq> None \<or> fails (CreateExcl dst) then (Inl (FileOp (CreateExcl dst)), fs)
      else case produced of (r, out) \<Rightarrow>
        let fs1 = fs(dst \<mapsto> out); failed = (\<lambda>e. (Inl e, remove_file fails dst fs1)) in
        case r of
          Inl e \<Rightarrow> failed e
        | Inr x \<Rightarrow>
            if sync \<and> fails (SyncFile dst) then failed (FileOp (SyncFile dst))
            else if fails (CloseFile dst) then failed (FileOp (CloseFile dst))
            else (Inr x, fs1))"

lemma write_new_ok:
  "write_new fails sync dst (r, out) fs = (Inr x, fs') \<longleftrightarrow>
     fs dst = None \<and> \<not> fails (CreateExcl dst) \<and> r = Inr x \<and>
     \<not> (sync \<and> fails (SyncFile dst)) \<and> \<not> fails (CloseFile dst) \<and> fs' = fs(dst \<mapsto> out)"
  by (auto simp: write_new_def Let_def split: sum.splits)

lemma write_new_error:
  assumes "write_new fails sync dst p fs = (Inl e, fs')"
  shows "\<forall>q. q \<noteq> dst \<longrightarrow> fs' q = fs q" and "fs dst \<noteq> None \<Longrightarrow> fs' = fs"
    and "\<not> fails (RemoveFile dst) \<Longrightarrow> fs' = fs"
  using assms by (auto simp: write_new_def Let_def remove_file_def fun_upd_idem split: prod.splits sum.splits if_splits)

lemma write_new_other:
  "write_new fails sync dst p fs = (r, fs') \<Longrightarrow> q \<noteq> dst \<Longrightarrow> fs' q = fs q"
  by (cases p) (auto simp: write_new_def Let_def remove_file_def split: sum.splits if_splits)

end
