(* ===== verification/Lock.thy ===== *)
theory Lock
  imports BoxEnv
begin

text \<open>
  \<open>internal/lock/lock.go\<close>: the per-box advisory lock.  The kernel's \<open>flock\<close> table maps
  a path to the open file description that holds its exclusive lock; several tx9
  processes run against the same table.  A release closure carries its own \<open>released\<close>
  flag, so calling it again does nothing.
\<close>

record lock_world =
  holder :: "string \<rightharpoonup> nat"    \<comment> \<open>kernel: which handle holds the lock on a path\<close>
  handle :: "nat \<rightharpoonup> string"    \<comment> \<open>live release closures: the path each one locked\<close>
  next_handle :: nat

datatype lock_error = OpenFailed string | Busy string | FlockFailed string

definition boxNameFromPath :: "string \<Rightarrow> string" where
  "boxNameFromPath path = trim_suffix (Base path) ''.lock''"

text \<open>\<open>can_open\<close> and \<open>flock_works\<close> say whether the two system calls fail for other reasons.\<close>

definition Acquire ::
  "bool \<Rightarrow> bool \<Rightarrow> string \<Rightarrow> lock_world \<Rightarrow> (lock_error + nat) \<times> lock_world" where
  "Acquire can_open flock_works path w =
     (if \<not> can_open then (Inl (OpenFailed path), w)
      else let h = next_handle w; w1 = w\<lparr>next_handle := Suc h\<rparr> in
      if holder w path \<noteq> None then (Inl (Busy (boxNameFromPath path)), w1)
      else if \<not> flock_works then (Inl (FlockFailed path), w1)
      else (Inr h, w1\<lparr>holder := (holder w)(path \<mapsto> h), handle := (handle w)(h \<mapsto> path)\<rparr>))"

text \<open>The closure \<open>release\<close> of handle \<open>h\<close>: nothing when it ran before.\<close>

definition release :: "nat \<Rightarrow> lock_world \<Rightarrow> lock_world" where
  "release h w =
     (case handle w h of
        None \<Rightarrow> w
      | Some path \<Rightarrow> w\<lparr>handle := (handle w)(h := None), holder := (holder w)(path := None)\<rparr>)"

definition initial_locks :: lock_world where
  "initial_locks = \<lparr>holder = Map.empty, handle = Map.empty, next_handle = 0\<rparr>"

inductive lock_step :: "lock_world \<Rightarrow> lock_world \<Rightarrow> bool" where
  acquire: "Acquire can_open flock_works path w = (r, w') \<Longrightarrow> lock_step w w'"
| release: "lock_step w (release h w)"

inductive_cases lock_stepE: "lock_step w w'"

definition lock_reachable :: "lock_world \<Rightarrow> bool" where
  "lock_reachable w \<longleftrightarrow> lock_step\<^sup>*\<^sup>* initial_locks w"

definition lock_inv :: "lock_world \<Rightarrow> bool" where
  "lock_inv w \<longleftrightarrow>
     (\<forall>p h. holder w p = Some h \<longleftrightarrow> handle w h = Some p) \<and> (\<forall>h. handle w h \<noteq> None \<longrightarrow> h < next_handle w)"

lemma lock_inv_initial: "lock_inv initial_locks"
  by (simp add: lock_inv_def initial_locks_def)

lemma lock_inv_Acquire:
  assumes "lock_inv w" and "Acquire can_open flock_works path w = (r, w')"
  shows "lock_inv w'"
proof -
  have fresh: "handle w (next_handle w) = None" using assms(1) by (auto simp: lock_inv_def)
  then have "holder w p \<noteq> Some (next_handle w)" for p using assms(1) by (auto simp: lock_inv_def)
  then show ?thesis
    using assms fresh
    by (auto simp: lock_inv_def Acquire_def Let_def less_Suc_eq split: if_splits)
qed

lemma lock_inv_release: "lock_inv w \<Longrightarrow> lock_inv (release h w)"
proof (cases "handle w h")
  case (Some p)
  assume inv: "lock_inv w"
  then have "holder w p = Some h" using Some by (simp add: lock_inv_def)
  moreover have "handle w h' \<noteq> Some p" if "h' \<noteq> h" for h'
    using inv that calculation unfolding lock_inv_def by (metis option.inject)
  ultimately show ?thesis using inv Some by (auto simp: lock_inv_def release_def)
qed (simp add: release_def)

lemma lock_inv_reachable: "lock_reachable w \<Longrightarrow> lock_inv w"
  unfolding lock_reachable_def
  by (induction rule: rtranclp_induct)
    (auto intro: lock_inv_initial lock_inv_release lock_inv_Acquire elim!: lock_stepE)

text \<open>Two live handles never lock the same path.\<close>

lemma lock_exclusive:
  "lock_reachable w \<Longrightarrow> handle w h = Some p \<Longrightarrow> handle w h' = Some p \<Longrightarrow> h = h'"
  using lock_inv_reachable by (metis lock_inv_def option.inject)

text \<open>While the lock is held every other attempt fails at once and changes no holder.\<close>

text \<open>In every reachable state of the locks, while a handle holds the lock of a path, another attempt
  to acquire it fails with the busy error naming the box and changes no holder.\<close>

theorem Acquire_busy:
  assumes "lock_reachable w" and "handle w h = Some p"
  shows "fst (Acquire True flock_works p w) = Inl (Busy (boxNameFromPath p)) \<and>
         holder (snd (Acquire True flock_works p w)) = holder w"
  using assms lock_inv_reachable [of w] by (auto simp: Acquire_def lock_inv_def Let_def)

theorem Acquire_busy_witness:
  "fst (Acquire True True ''/l/a.lock'' (snd (Acquire True True ''/l/a.lock'' initial_locks))) = Inl (Busy ''a'')"
proof -
  let ?w = "snd (Acquire True True ''/l/a.lock'' initial_locks)"
  have "lock_step initial_locks ?w" by (rule lock_step.acquire) (rule prod.collapse [symmetric])
  then have "lock_reachable ?w" unfolding lock_reachable_def by (rule r_into_rtranclp)
  moreover have "handle ?w 0 = Some ''/l/a.lock''" by code_simp
  moreover have "boxNameFromPath ''/l/a.lock'' = ''a''" by code_simp
  ultimately show ?thesis using Acquire_busy [of ?w 0 "''/l/a.lock''" True] by simp
qed

text \<open>A release that ran before never frees a lock somebody else took in the meantime.\<close>

lemma release_stale: "handle w h = None \<Longrightarrow> release h w = w"
  by (simp add: release_def)

text \<open>In every reachable state, releasing a handle, live or stale, never takes the lock from
  another handle that holds it.\<close>

theorem release_other:
  assumes "lock_reachable w" and "handle w h = Some p" and "h' \<noteq> h"
  shows "handle (release h' w) h = Some p \<and> holder (release h' w) p = Some h"
proof -
  have inv: "lock_inv w" using assms(1) by (rule lock_inv_reachable)
  then have holder: "holder w p = Some h" using assms(2) by (auto simp: lock_inv_def)
  have "handle w h' \<noteq> Some p" using lock_exclusive [OF assms(1,2)] assms(3) by metis
  then show ?thesis
    using holder assms(2,3) by (auto simp: release_def split: option.splits)
qed

theorem release_other_witness:
  "holder (release 5 (snd (Acquire True True ''/l/a.lock'' initial_locks))) ''/l/a.lock'' = Some 0"
proof -
  let ?w = "snd (Acquire True True ''/l/a.lock'' initial_locks)"
  have "lock_step initial_locks ?w" by (rule lock_step.acquire) (rule prod.collapse [symmetric])
  then have "lock_reachable ?w" unfolding lock_reachable_def by (rule r_into_rtranclp)
  moreover have "handle ?w 0 = Some ''/l/a.lock''" by code_simp
  ultimately show ?thesis using release_other [of ?w 0 "''/l/a.lock''" 5] by simp
qed

text \<open>The name in the busy message is the box's name.\<close>

lemma boxNameFromPath_LockPath:
  assumes "LockPath h name = Inr path"
  shows "boxNameFromPath path = name"
proof -
  obtain dir where valid: "Validate name = Inr ()" and path: "path = Join2 dir (name @ ''.lock'')"
    using assms by (auto simp: LockPath_def result_bind_Inr_iff)
  have "CHR ''/'' \<notin> set (name @ ''.lock'')"
    using valid Validate_chars name_char_plain by fastforce
  then have "proper_comp (name @ ''.lock'')"
    by (auto simp: proper_comp_def append_eq_Cons_conv)
  then show ?thesis by (simp add: boxNameFromPath_def path Base_Join2)
qed

section \<open>The contract clients of a lock rely on\<close>

text \<open>
  A non-blocking exclusive lock over a state: \<open>acquire\<close> succeeds only on a free lock and
  then makes the caller its owner; \<open>release\<close> of an owned lock frees it.
\<close>

locale exclusive =
  fixes acquire :: "('w, 'e, nat) comp" and release :: "nat \<Rightarrow> 'w \<Rightarrow> 'w"
    and free :: "'w \<Rightarrow> bool" and owns :: "nat \<Rightarrow> 'w \<Rightarrow> bool" and inv :: "'w \<Rightarrow> bool"
  assumes acquire_ok: "inv w \<Longrightarrow> acquire w = (Inr h, w') \<Longrightarrow> free w \<and> owns h w' \<and> inv w'"
    and acquire_fail: "inv w \<Longrightarrow> acquire w = (Inl e, w') \<Longrightarrow> inv w' \<and> free w' = free w"
    and release_frees: "inv w \<Longrightarrow> owns h w \<Longrightarrow> free (release h w) \<and> inv (release h w)"
begin

definition guarded :: "('w, 'e, 'a) comp \<Rightarrow> ('w, 'e, 'a) comp" where
  "guarded m = bind_comp acquire (\<lambda>h. with_defer m (release h))"

text \<open>A busy lock keeps the body from running at all.\<close>

lemma guarded_busy:
  assumes "inv w" and "\<not> free w"
  shows "\<exists>e w'. acquire w = (Inl e, w') \<and> guarded m w = (Inl e, w')"
proof -
  obtain r w' where r: "acquire w = (r, w')" by (cases "acquire w")
  then have "isl r" using acquire_ok [OF assms(1)] assms(2) by (cases r) auto
  then show ?thesis using r by (cases r) (auto simp: guarded_def bind_comp_def)
qed

text \<open>Whatever the body does and however it ends, the lock is free afterwards.\<close>

lemma guarded_frees:
  assumes body: "\<And>h w r w'. inv w \<Longrightarrow> owns h w \<Longrightarrow> m w = (r, w') \<Longrightarrow> inv w' \<and> owns h w'"
    and "inv w" and "free w" and run: "guarded m w = (r, w')"
  shows "inv w' \<and> free w'"
proof -
  obtain q w1 where a: "acquire w = (q, w1)" by (cases "acquire w")
  show ?thesis
  proof (cases q)
    case (Inl e)
    then show ?thesis using run a acquire_fail [OF assms(2)] assms(3)
      by (auto simp: guarded_def bind_comp_def)
  next
    case (Inr h)
    then have own: "owns h w1" "inv w1" using acquire_ok [OF assms(2)] a by auto
    obtain r2 w2 where m: "m w1 = (r2, w2)" by (cases "m w1")
    then have "w' = release h w2" using run a Inr by (simp add: guarded_def bind_comp_def with_defer_def)
    then show ?thesis using release_frees body [OF own(2,1) m] by blast
  qed
qed

end

text \<open>The \<open>flock\<close> table provides it, for each path.\<close>

lemma Acquire_contract:
  assumes "lock_inv w"
  shows "Acquire can_open flock_works path w = (Inr h, w') \<Longrightarrow>
      holder w path = None \<and> handle w' h = Some path \<and> lock_inv w'"
    and "Acquire can_open flock_works path w = (Inl e, w') \<Longrightarrow>
      lock_inv w' \<and> (holder w' path = None) = (holder w path = None)"
  using lock_inv_Acquire [OF assms, of can_open flock_works path]
  by (auto simp: Acquire_def Let_def split: if_splits)

lemma release_contract:
  assumes "lock_inv w" and "handle w h = Some path"
  shows "holder (release h w) path = None \<and> lock_inv (release h w)"
  using assms(2) lock_inv_release [OF assms(1), of h] by (simp add: release_def)

interpretation flock: exclusive "Acquire can_open flock_works path" release
  "\<lambda>w. holder w path = None" "\<lambda>h w. handle w h = Some path" lock_inv
  for can_open flock_works :: bool and path :: string
  by unfold_locales (use Acquire_contract release_contract in blast)+

end
