(* ===== verification/Settings.thy ===== *)
theory Settings
  imports BoxEnv
begin

text \<open>
  The interface between the env file of a box (\<open>BoxEnv\<close>) and the components that keep
  settings in it (resources, mounts, executor configuration): a store that can be read
  and written whole.  Clients read it, edit some keys and write it back; the locale says
  what they rely on and proves once what such an edit leaves in the file.
\<close>

datatype edit = Put string string | Del string

fun apply_edit :: "edit \<Rightarrow> env \<Rightarrow> env" where
  "apply_edit (Put k v) env = AList.update k v env"
| "apply_edit (Del k) env = AList.delete k env"

fun edit_map :: "edit \<Rightarrow> (string \<rightharpoonup> string) \<Rightarrow> (string \<rightharpoonup> string)" where
  "edit_map (Put k v) m = m(k \<mapsto> v)"
| "edit_map (Del k) m = m(k := None)"

fun edit_ok :: "edit \<Rightarrow> bool" where
  "edit_ok (Put k v) = (key_ok k \<and> value_ok v)"
| "edit_ok (Del k) = True"

fun edit_key :: "edit \<Rightarrow> string" where
  "edit_key (Put k v) = k"
| "edit_key (Del k) = k"

lemma map_of_apply_edit: "map_of (apply_edit e env) = edit_map e (map_of env)"
  by (cases e) (simp_all add: update_conv' delete_conv')

lemma edit_map_other: "k \<noteq> edit_key e \<Longrightarrow> edit_map e m k = m k"
  by (cases e) auto

lemma fold_edit_map_other: "k \<notin> edit_key ` set es \<Longrightarrow> fold edit_map es m k = m k"
  by (induction es arbitrary: m) (auto simp: edit_map_other)

locale settings_store =
  fixes read :: "'f \<Rightarrow> env" and render :: "env \<Rightarrow> 'f" and good :: "env \<Rightarrow> bool"
    and norm :: "string \<Rightarrow> string"
  assumes read_good: "good (read f)"
    and read_render: "good env \<Longrightarrow> map_of (read (render env)) k = map_option norm (map_of env k)"
    and good_put: "good env \<Longrightarrow> key_ok k \<Longrightarrow> value_ok v \<Longrightarrow> good (AList.update k v env)"
    and good_del: "good env \<Longrightarrow> good (AList.delete k env)"
begin

lemma good_edits: "good env \<Longrightarrow> list_all edit_ok es \<Longrightarrow> good (fold apply_edit es env)"
proof (induction es arbitrary: env)
  case (Cons e es)
  then show ?case by (cases e) (auto intro: good_put good_del)
qed simp

lemma map_of_edits: "map_of (fold apply_edit es env) = fold edit_map es (map_of env)"
  by (induction es arbitrary: env) (auto simp: map_of_apply_edit)

text \<open>Editing the parsed contents of a file and writing it back.\<close>

definition edited :: "edit list \<Rightarrow> 'f \<Rightarrow> 'f" where
  "edited es f = render (fold apply_edit es (read f))"

lemma read_edited:
  assumes "list_all edit_ok es"
  shows "map_of (read (edited es f)) k = map_option norm (fold edit_map es (map_of (read f)) k)"
  using assms by (simp add: edited_def read_render good_edits read_good map_of_edits)

text \<open>An edit does not touch the keys it does not name.\<close>

lemma read_edited_other:
  assumes "list_all edit_ok es" and "k \<notin> edit_key ` set es"
  shows "map_of (read (edited es f)) k = map_option norm (map_of (read f) k)"
  using assms by (simp add: read_edited fold_edit_map_other)

end

lemma set_delete_subset: "set (AList.delete k env) \<subseteq> set env"
  by (induction env) auto

lemma env_ok_delete: "env_ok env \<Longrightarrow> env_ok (AList.delete k env)"
  unfolding env_ok_def using set_delete_subset distinct_delete by fast

interpretation env_file: settings_store parse_env print_env env_ok read_value
  by unfold_locales
    (simp_all add: env_ok_parse parse_print_env env_ok_update env_ok_delete)

text \<open>\<open>setOrDelete\<close> of \<open>executor_config.go\<close>.\<close>

definition setOrDelete :: "env \<Rightarrow> string \<Rightarrow> string \<Rightarrow> env" where
  "setOrDelete env key value =
     (if value = '''' then AList.delete key env else AList.update key value env)"

definition set_or_delete_edit :: "string \<Rightarrow> string \<Rightarrow> edit" where
  "set_or_delete_edit key value = (if value = '''' then Del key else Put key value)"

lemma setOrDelete_edit: "setOrDelete env key value = apply_edit (set_or_delete_edit key value) env"
  by (simp add: setOrDelete_def set_or_delete_edit_def)

end
