(* ===== verification/Resources.thy ===== *)
theory Resources
  imports Settings
begin

text \<open>
  \<open>internal/box/resources.go\<close>: the CPU and memory limits and the advisory volume
  budgets of a box, and their six keys in the box's env file.  \<open>int64\<close> values are
  integers in the range \<open>in_int64\<close>; the file's round trip is over the parsed file, so the
  functions here take and return the map, and \<open>World\<close> adds the reading and writing.
  \<open>units.RAMInBytes\<close> of the go-units package is a parameter.
\<close>

definition AgentNanoCPUsEnv :: string where "AgentNanoCPUsEnv = ''TX9_AGENT_NANO_CPUS''"
definition AgentMemoryBytesEnv :: string where "AgentMemoryBytesEnv = ''TX9_AGENT_MEMORY_BYTES''"
definition ExecutorNanoCPUsEnv :: string where
  "ExecutorNanoCPUsEnv = ''TX9_EXECUTOR_NANO_CPUS''"
definition ExecutorMemoryBytesEnv :: string where
  "ExecutorMemoryBytesEnv = ''TX9_EXECUTOR_MEMORY_BYTES''"
definition AgentVolumeBudgetBytesEnv :: string where
  "AgentVolumeBudgetBytesEnv = ''TX9_AGENT_VOLUME_BUDGET_BYTES''"
definition ExecutorVolumeBudgetBytesEnv :: string where
  "ExecutorVolumeBudgetBytesEnv = ''TX9_EXECUTOR_VOLUME_BUDGET_BYTES''"

definition resourceEnvKeys :: "string list" where
  "resourceEnvKeys =
     [AgentNanoCPUsEnv, AgentMemoryBytesEnv, ExecutorNanoCPUsEnv, ExecutorMemoryBytesEnv,
      AgentVolumeBudgetBytesEnv, ExecutorVolumeBudgetBytesEnv]"

lemmas resource_key_defs = AgentNanoCPUsEnv_def AgentMemoryBytesEnv_def ExecutorNanoCPUsEnv_def
  ExecutorMemoryBytesEnv_def AgentVolumeBudgetBytesEnv_def ExecutorVolumeBudgetBytesEnv_def

record ContainerResources =
  NanoCPUs :: int
  MemoryBytes :: int

record Resources =
  Agent :: ContainerResources
  Executor :: ContainerResources
  AgentVolumeBudgetBytes :: int
  ExecutorVolumeBudgetBytes :: int

definition GiB :: int where "GiB = 1024 ^ 3"
definition MiB :: int where "MiB = 1024 ^ 2"

definition DefaultAgentNanoCPUs :: int where "DefaultAgentNanoCPUs = 4000000000"
definition DefaultAgentMemoryBytes :: int where "DefaultAgentMemoryBytes = 8 * GiB"
definition DefaultExecutorNanoCPUs :: int where "DefaultExecutorNanoCPUs = 2000000000"
definition DefaultExecutorMemoryBytes :: int where "DefaultExecutorMemoryBytes = 2 * GiB"
definition MinimumMemoryBytes :: int where "MinimumMemoryBytes = 6 * MiB"

definition DefaultResources :: Resources where
  "DefaultResources =
     \<lparr>Agent = \<lparr>NanoCPUs = DefaultAgentNanoCPUs, MemoryBytes = DefaultAgentMemoryBytes\<rparr>,
      Executor = \<lparr>NanoCPUs = DefaultExecutorNanoCPUs, MemoryBytes = DefaultExecutorMemoryBytes\<rparr>,
      AgentVolumeBudgetBytes = 0, ExecutorVolumeBudgetBytes = 0\<rparr>"

lemmas resource_value_defs = DefaultResources_def DefaultAgentNanoCPUs_def
  DefaultAgentMemoryBytes_def DefaultExecutorNanoCPUs_def DefaultExecutorMemoryBytes_def
  MinimumMemoryBytes_def GiB_def MiB_def

datatype role = RoleAgent | RoleExecutor

datatype resource_error =
    NegativeCPUs role
  | MemoryTooSmall role
  | MemoryTooLarge role
  | NegativeBudget role
  | InvalidSetting string string
  | InvalidSize string
  | MemoryBelowMinimum string
  | InvalidBudget string
  | InvalidCPUs string

text \<open>One round of the loop in \<open>Resources.Validate\<close>.\<close>

definition validate_allocation :: "role \<Rightarrow> ContainerResources \<Rightarrow> resource_error + unit" where
  "validate_allocation who a =
     (if NanoCPUs a < 0 then Inl (NegativeCPUs who)
      else if MemoryBytes a < 0 \<or> MemoryBytes a > 0 \<and> MemoryBytes a < MinimumMemoryBytes
        then Inl (MemoryTooSmall who)
      else if MemoryBytes a > max_int64 div 2 then Inl (MemoryTooLarge who)
      else Inr ())"

definition ValidateResources :: "Resources \<Rightarrow> resource_error + unit" where
  "ValidateResources r =
     result_bind (validate_allocation RoleAgent (Agent r)) (\<lambda>_.
     result_bind (validate_allocation RoleExecutor (Executor r)) (\<lambda>_.
     if AgentVolumeBudgetBytes r < 0 then Inl (NegativeBudget RoleAgent)
     else if ExecutorVolumeBudgetBytes r < 0 then Inl (NegativeBudget RoleExecutor)
     else Inr ()))"

text \<open>\<open>LoadResources\<close> after the file is read.\<close>

definition resource_fields :: "(string \<times> (int \<Rightarrow> Resources \<Rightarrow> Resources)) list" where
  "resource_fields =
     [(AgentNanoCPUsEnv, \<lambda>v. Agent_update (NanoCPUs_update (\<lambda>_. v))),
      (AgentMemoryBytesEnv, \<lambda>v. Agent_update (MemoryBytes_update (\<lambda>_. v))),
      (ExecutorNanoCPUsEnv, \<lambda>v. Executor_update (NanoCPUs_update (\<lambda>_. v))),
      (ExecutorMemoryBytesEnv, \<lambda>v. Executor_update (MemoryBytes_update (\<lambda>_. v))),
      (AgentVolumeBudgetBytesEnv, \<lambda>v. AgentVolumeBudgetBytes_update (\<lambda>_. v)),
      (ExecutorVolumeBudgetBytesEnv, \<lambda>v. ExecutorVolumeBudgetBytes_update (\<lambda>_. v))]"

fun load_fields ::
  "(string \<Rightarrow> string option) \<Rightarrow> (string \<times> (int \<Rightarrow> Resources \<Rightarrow> Resources)) list
     \<Rightarrow> Resources \<Rightarrow> resource_error + Resources" where
  "load_fields m [] r = Inr r"
| "load_fields m ((key, dest) # fs) r =
     (case m key of
        None \<Rightarrow> load_fields m fs r
      | Some raw \<Rightarrow>
          (case parse_int (trim_space raw) of
             None \<Rightarrow> Inl (InvalidSetting key raw)
           | Some value \<Rightarrow>
               if value < 0 then Inl (InvalidSetting key raw)
               else load_fields m fs (dest value r)))"

definition resources_of_env :: "env \<Rightarrow> resource_error + Resources" where
  "resources_of_env env =
     result_bind (load_fields (map_of env) resource_fields DefaultResources) (\<lambda>r.
     result_bind (ValidateResources r) (\<lambda>_. Inr r))"

text \<open>The assignments of \<open>SaveResources\<close> and the deletions of \<open>ResetResources\<close>.\<close>

definition put_resources :: "Resources \<Rightarrow> env \<Rightarrow> env" where
  "put_resources r env =
     AList.update ExecutorVolumeBudgetBytesEnv (format_int (ExecutorVolumeBudgetBytes r))
     (AList.update AgentVolumeBudgetBytesEnv (format_int (AgentVolumeBudgetBytes r))
     (AList.update ExecutorMemoryBytesEnv (format_int (MemoryBytes (Executor r)))
     (AList.update ExecutorNanoCPUsEnv (format_int (NanoCPUs (Executor r)))
     (AList.update AgentMemoryBytesEnv (format_int (MemoryBytes (Agent r)))
     (AList.update AgentNanoCPUsEnv (format_int (NanoCPUs (Agent r))) env)))))"

definition delete_resources :: "env \<Rightarrow> env" where
  "delete_resources env = fold AList.delete resourceEnvKeys env"

section \<open>Sizes on the command line\<close>

definition ParseBytes :: "(string \<Rightarrow> int option) \<Rightarrow> string \<Rightarrow> resource_error + int" where
  "ParseBytes RAMInBytes value =
     (case RAMInBytes (trim_space value) of
        None \<Rightarrow> Inl (InvalidSize value)
      | Some bytes \<Rightarrow> if bytes < 0 then Inl (InvalidSize value) else Inr bytes)"

definition ParseMemoryBytes :: "(string \<Rightarrow> int option) \<Rightarrow> string \<Rightarrow> resource_error + int" where
  "ParseMemoryBytes RAMInBytes value =
     (case ParseBytes RAMInBytes value of
        Inl _ \<Rightarrow> Inl (MemoryBelowMinimum value)
      | Inr bytes \<Rightarrow> if bytes < MinimumMemoryBytes then Inl (MemoryBelowMinimum value) else Inr bytes)"

text \<open>
  \<open>strings.EqualFold(value, "unlimited")\<close>: no letter of the word has a non-ASCII simple
  fold, so the comparison is ASCII case-insensitive.
\<close>

definition ascii_lower :: "char \<Rightarrow> char" where
  "ascii_lower c =
     (let n = of_char c :: nat in if 65 \<le> n \<and> n \<le> 90 then char_of (n + 32) else c)"

definition ParseVolumeBudgetBytes :: "(string \<Rightarrow> int option) \<Rightarrow> string \<Rightarrow> resource_error + int" where
  "ParseVolumeBudgetBytes RAMInBytes value =
     (let value = trim_space value in
      if map ascii_lower value = ''unlimited'' \<or> value = ''0'' then Inr 0
      else case ParseBytes RAMInBytes value of
        Inl _ \<Rightarrow> Inl (InvalidBudget value)
      | Inr bytes \<Rightarrow> if bytes \<le> 0 then Inl (InvalidBudget value) else Inr bytes)"

definition FormatVolumeBudget :: "(int \<Rightarrow> string) \<Rightarrow> int \<Rightarrow> string" where
  "FormatVolumeBudget FormatBytes bytes = (if bytes = 0 then ''unlimited'' else FormatBytes bytes)"

section \<open>Flags\<close>

record resourceFlagValues =
  agentCPUs :: string
  agentMemory :: string
  executorCPUs :: string
  executorMemory :: string
  agentVolumeBudget :: string
  executorVolumeBudget :: string

definition hasOverrides :: "resourceFlagValues \<Rightarrow> bool" where
  "hasOverrides f \<longleftrightarrow>
     agentCPUs f \<noteq> '''' \<or> agentMemory f \<noteq> '''' \<or> executorCPUs f \<noteq> '''' \<or> executorMemory f \<noteq> '''' \<or>
     agentVolumeBudget f \<noteq> '''' \<or> executorVolumeBudget f \<noteq> ''''"

text \<open>One \<open>if f.x != "" { result.y, err = parse(f.x) ... }\<close>.\<close>

definition set_flag ::
  "string \<Rightarrow> (string \<Rightarrow> resource_error + int) \<Rightarrow> (int \<Rightarrow> Resources \<Rightarrow> Resources) \<Rightarrow> Resources
     \<Rightarrow> resource_error + Resources" where
  "set_flag raw parse dest r =
     (if raw = '''' then Inr r else result_bind (parse raw) (\<lambda>v. Inr (dest v r)))"

text \<open>\<open>ParseCPUs\<close>, which goes through floating point, is a parameter as well.\<close>

definition apply_flags ::
  "(string \<Rightarrow> resource_error + int) \<Rightarrow> (string \<Rightarrow> int option) \<Rightarrow> resourceFlagValues \<Rightarrow> Resources
     \<Rightarrow> resource_error + Resources" where
  "apply_flags ParseCPUs RAMInBytes f base =
     result_bind (set_flag (agentCPUs f) ParseCPUs
       (\<lambda>v. Agent_update (NanoCPUs_update (\<lambda>_. v))) base) (\<lambda>r.
     result_bind (set_flag (agentMemory f) (ParseMemoryBytes RAMInBytes)
       (\<lambda>v. Agent_update (MemoryBytes_update (\<lambda>_. v))) r) (\<lambda>r.
     result_bind (set_flag (executorCPUs f) ParseCPUs
       (\<lambda>v. Executor_update (NanoCPUs_update (\<lambda>_. v))) r) (\<lambda>r.
     result_bind (set_flag (executorMemory f) (ParseMemoryBytes RAMInBytes)
       (\<lambda>v. Executor_update (MemoryBytes_update (\<lambda>_. v))) r) (\<lambda>r.
     result_bind (set_flag (agentVolumeBudget f) (ParseVolumeBudgetBytes RAMInBytes)
       (\<lambda>v. AgentVolumeBudgetBytes_update (\<lambda>_. v)) r) (\<lambda>r.
     result_bind (set_flag (executorVolumeBudget f) (ParseVolumeBudgetBytes RAMInBytes)
       (\<lambda>v. ExecutorVolumeBudgetBytes_update (\<lambda>_. v)) r) (\<lambda>r.
     result_bind (ValidateResources r) (\<lambda>_. Inr r)))))))"

definition splitResourcesAction :: "string list \<Rightarrow> string \<times> string list" where
  "splitResourcesAction args =
     (case args of
        a # b # rest \<Rightarrow>
          if a = ''show'' \<or> a = ''set'' \<or> a = ''reset'' then (a, b # rest) else (''show'', args)
      | _ \<Rightarrow> (''show'', args))"

section \<open>Live updates\<close>

datatype resource_kind = CPU | Memory

definition validateLiveResourceTransition ::
  "Resources \<Rightarrow> Resources \<Rightarrow> (role \<times> resource_kind) + unit" where
  "validateLiveResourceTransition old new =
     (let bad = find (\<lambda>(_, _, o', n). (o' = 0) \<noteq> (n = 0))
        [(RoleAgent, CPU, NanoCPUs (Agent old), NanoCPUs (Agent new)),
         (RoleAgent, Memory, MemoryBytes (Agent old), MemoryBytes (Agent new)),
         (RoleExecutor, CPU, NanoCPUs (Executor old), NanoCPUs (Executor new)),
         (RoleExecutor, Memory, MemoryBytes (Executor old), MemoryBytes (Executor new))]
      in case bad of None \<Rightarrow> Inr () | Some (who, kind, _, _) \<Rightarrow> Inl (who, kind))"

text \<open>\<open>defaultMemorySwapLimit\<close> of \<open>internal/docker/client.go\<close>.\<close>

definition defaultMemorySwapLimit :: "int \<Rightarrow> int + int" where
  "defaultMemorySwapLimit memoryBytes =
     (if memoryBytes = 0 then Inr 0
      else if memoryBytes < 0 \<or> memoryBytes > max_int64 div 2 then Inl memoryBytes
      else Inr (memoryBytes * 2))"

section \<open>Display\<close>

definition formatResourceBytes :: "(int \<Rightarrow> string) \<Rightarrow> int \<Rightarrow> string" where
  "formatResourceBytes FormatBytes bytes = (if bytes \<le> 0 then ''unlimited'' else FormatBytes bytes)"

definition resourceRoleState :: "string \<Rightarrow> string \<Rightarrow> string" where
  "resourceRoleState cid state =
     (if cid = '''' then ''missing'' else if state = '''' then ''unknown'' else state)"

definition formatResourceMemory :: "(int \<Rightarrow> string) \<Rightarrow> string \<Rightarrow> int \<Rightarrow> string" where
  "formatResourceMemory FormatBytes cid bytes =
     (if cid = '''' then ''-'' else formatResourceBytes FormatBytes bytes)"

definition formatVolumeUsed :: "(int \<Rightarrow> string) \<Rightarrow> int \<Rightarrow> string" where
  "formatVolumeUsed FormatBytes bytes = (if bytes < 0 then ''unknown'' else FormatBytes bytes)"

definition volumeBudgetStatus :: "int \<Rightarrow> int \<Rightarrow> string" where
  "volumeBudgetStatus used budget =
     (if budget = 0 \<or> used < 0 then ''-'' else if used > budget then ''OVER'' else ''ok'')"

section \<open>Facts\<close>

definition allocation_ok :: "ContainerResources \<Rightarrow> bool" where
  "allocation_ok a \<longleftrightarrow> 0 \<le> NanoCPUs a \<and>
     (MemoryBytes a = 0 \<or> MinimumMemoryBytes \<le> MemoryBytes a \<and> MemoryBytes a \<le> max_int64 div 2)"

definition resources_ok :: "Resources \<Rightarrow> bool" where
  "resources_ok r \<longleftrightarrow> allocation_ok (Agent r) \<and> allocation_ok (Executor r) \<and>
     0 \<le> AgentVolumeBudgetBytes r \<and> 0 \<le> ExecutorVolumeBudgetBytes r"

text \<open>The fields of a Go value are machine integers.\<close>

definition resources_int64 :: "Resources \<Rightarrow> bool" where
  "resources_int64 r \<longleftrightarrow> in_int64 (NanoCPUs (Agent r)) \<and> in_int64 (MemoryBytes (Agent r)) \<and>
     in_int64 (NanoCPUs (Executor r)) \<and> in_int64 (MemoryBytes (Executor r)) \<and>
     in_int64 (AgentVolumeBudgetBytes r) \<and> in_int64 (ExecutorVolumeBudgetBytes r)"

lemma validate_allocation_iff: "validate_allocation who a = Inr () \<longleftrightarrow> allocation_ok a"
  by (auto simp: validate_allocation_def allocation_ok_def resource_value_defs max_int64_def)

lemma ValidateResources_iff: "ValidateResources r = Inr () \<longleftrightarrow> resources_ok r"
  by (auto simp: ValidateResources_def resources_ok_def result_bind_Inr_iff validate_allocation_iff)

lemma DefaultResources_ok: "resources_ok DefaultResources" "resources_int64 DefaultResources"
  by (simp_all add: resources_ok_def allocation_ok_def resources_int64_def in_int64_def
      resource_value_defs max_int64_def min_int64_def)

text \<open>What validation lets through the swap limit accepts, without overflow.\<close>

lemma swap_limit_of_valid:
  assumes "allocation_ok a"
  shows "\<exists>s. defaultMemorySwapLimit (MemoryBytes a) = Inr s \<and> s = 2 * MemoryBytes a \<and> in_int64 s"
  using assms
  by (auto simp: defaultMemorySwapLimit_def allocation_ok_def in_int64_def resource_value_defs
      max_int64_def min_int64_def)

subsection \<open>The env file\<close>

lemma format_int_value_ok: "value_ok (format_int i)" "read_value (format_int i) = format_int i"
proof -
  have "c \<noteq> CHR 0x0A \<and> c \<noteq> CHR 0x0D" if "c \<in> set (format_int i)" for c
    using format_int_chars [OF that] by (auto simp: is_digit_def)
  then show "value_ok (format_int i)" "read_value (format_int i) = format_int i"
    using last_in_set [OF format_int_neq_Nil]
    by (auto simp: value_ok_def intro!: read_value_id)
qed

definition resource_edits :: "Resources \<Rightarrow> edit list" where
  "resource_edits r =
     [Put AgentNanoCPUsEnv (format_int (NanoCPUs (Agent r))),
      Put AgentMemoryBytesEnv (format_int (MemoryBytes (Agent r))),
      Put ExecutorNanoCPUsEnv (format_int (NanoCPUs (Executor r))),
      Put ExecutorMemoryBytesEnv (format_int (MemoryBytes (Executor r))),
      Put AgentVolumeBudgetBytesEnv (format_int (AgentVolumeBudgetBytes r)),
      Put ExecutorVolumeBudgetBytesEnv (format_int (ExecutorVolumeBudgetBytes r))]"

lemma put_resources_edits: "put_resources r env = fold apply_edit (resource_edits r) env"
  by (simp add: put_resources_def resource_edits_def)

lemma delete_resources_edits: "delete_resources env = fold apply_edit (map Del resourceEnvKeys) env"
  by (simp add: delete_resources_def resourceEnvKeys_def)

lemma resource_key_ok: "k \<in> set resourceEnvKeys \<Longrightarrow> key_ok k"
  by (auto simp: resourceEnvKeys_def resource_key_defs ident_byte_def intro!: key_ok_ident)

lemma resource_edits_ok: "list_all edit_ok (resource_edits r)"
  using resource_key_ok by (simp add: resource_edits_def resourceEnvKeys_def format_int_value_ok)

lemma resource_edits_keys: "edit_key ` set (resource_edits r) = set resourceEnvKeys"
  by (auto simp: resource_edits_def resourceEnvKeys_def)

text \<open>Every setting is read back as it was saved, and no other setting is touched.\<close>

lemma load_fields_map: "(\<And>k. m k = m' k) \<Longrightarrow> load_fields m fs r = load_fields m' fs r"
proof -
  assume "\<And>k. m k = m' k"
  then have "m = m'" by (rule ext)
  then show ?thesis by simp
qed

definition shown_resources :: "Resources \<Rightarrow> string \<Rightarrow> string option" where
  "shown_resources r k = fold edit_map (resource_edits r) Map.empty k"

lemma load_shown_resources:
  assumes "resources_int64 r" and "resources_ok r"
    and m: "\<And>k. k \<in> set resourceEnvKeys \<Longrightarrow> m k = shown_resources r k"
  shows "load_fields m resource_fields r0 = Inr r"
proof -
  have "m AgentNanoCPUsEnv = Some (format_int (NanoCPUs (Agent r)))"
    "m AgentMemoryBytesEnv = Some (format_int (MemoryBytes (Agent r)))"
    "m ExecutorNanoCPUsEnv = Some (format_int (NanoCPUs (Executor r)))"
    "m ExecutorMemoryBytesEnv = Some (format_int (MemoryBytes (Executor r)))"
    "m AgentVolumeBudgetBytesEnv = Some (format_int (AgentVolumeBudgetBytes r))"
    "m ExecutorVolumeBudgetBytesEnv = Some (format_int (ExecutorVolumeBudgetBytes r))"
    using m by (simp_all add: resourceEnvKeys_def shown_resources_def resource_edits_def
        resource_key_defs)
  moreover have "0 \<le> MemoryBytes (Agent r)" "0 \<le> MemoryBytes (Executor r)"
    using assms(2) by (auto simp: resources_ok_def allocation_ok_def resource_value_defs)
  ultimately show ?thesis
    using assms(1,2)
    by (simp add: resource_fields_def parse_format_int resources_int64_def resources_ok_def
        allocation_ok_def)
qed

lemma fold_edit_map_put:
  "k \<in> edit_key ` set es \<Longrightarrow> fold edit_map es m k = fold edit_map es m' k"
proof (induction es arbitrary: m m')
  case (Cons e es)
  show ?case
  proof (cases "k \<in> edit_key ` set es")
    case True
    then show ?thesis using Cons.IH by simp
  next
    case False
    then show ?thesis using Cons.prems by (cases e) (auto simp: fold_edit_map_other)
  qed
qed simp

lemma read_saved_resources:
  assumes "k \<in> set resourceEnvKeys"
  shows "map_of (parse_env (print_env (put_resources r (parse_env f)))) k = shown_resources r k"
proof -
  have "map_of (parse_env (print_env (put_resources r (parse_env f)))) k =
      map_option read_value (fold edit_map (resource_edits r) (map_of (parse_env f)) k)"
    unfolding put_resources_edits env_file.edited_def [symmetric]
    by (rule env_file.read_edited) (rule resource_edits_ok)
  also have "\<dots> = map_option read_value (shown_resources r k)"
    unfolding shown_resources_def
    by (rule arg_cong [OF fold_edit_map_put]) (simp add: assms resource_edits_keys)
  also have "\<dots> = shown_resources r k"
    using assms by (auto simp: shown_resources_def resource_edits_def resourceEnvKeys_def
        resource_key_defs format_int_value_ok)
  finally show ?thesis .
qed

text \<open>Valid resources written into the settings of a box are read back unchanged from the file,
  whatever else the file held.\<close>

theorem resources_saved:
  assumes "resources_int64 r" and "resources_ok r"
  shows "resources_of_env (parse_env (print_env (put_resources r (parse_env f)))) = Inr r"
  using load_shown_resources [OF assms read_saved_resources] assms(2)
  by (simp add: resources_of_env_def ValidateResources_iff [THEN iffD2])

theorem resources_saved_witness:
  "resources_of_env (parse_env (print_env (put_resources DefaultResources (parse_env ''A=b'')))) =
     Inr DefaultResources"
proof (rule resources_saved)
  show "resources_int64 DefaultResources" by code_simp
  have "ValidateResources DefaultResources = Inr ()" by code_simp
  then show "resources_ok DefaultResources" by (simp add: ValidateResources_iff)
qed

lemma resources_saved_other:
  assumes "k \<notin> set resourceEnvKeys"
  shows "map_of (parse_env (print_env (put_resources r (parse_env f)))) k =
     map_option read_value (map_of (parse_env f) k)"
  unfolding put_resources_edits env_file.edited_def [symmetric]
  by (rule env_file.read_edited_other) (use assms resource_edits_ok resource_edits_keys in auto)

lemma resources_deleted:
  "resources_of_env (parse_env (print_env (delete_resources (parse_env f)))) = Inr DefaultResources"
proof -
  have "map_of (parse_env (print_env (delete_resources (parse_env f)))) k = None"
    if "k \<in> set resourceEnvKeys" for k
  proof -
    have "map_of (parse_env (print_env (delete_resources (parse_env f)))) k =
        map_option read_value (fold edit_map (map Del resourceEnvKeys) (map_of (parse_env f)) k)"
      unfolding delete_resources_edits env_file.edited_def [symmetric]
      by (rule env_file.read_edited) (simp add: list_all_iff)
    then show ?thesis
      using fold_edit_map_put [of k "map Del resourceEnvKeys" _ Map.empty] that
      by (auto simp: resourceEnvKeys_def)
  qed
  then show ?thesis
    by (simp add: resources_of_env_def resource_fields_def resourceEnvKeys_def DefaultResources_ok
        ValidateResources_iff [THEN iffD2])
qed

lemma resources_deleted_other:
  assumes "k \<notin> set resourceEnvKeys"
  shows "map_of (parse_env (print_env (delete_resources (parse_env f)))) k =
     map_option read_value (map_of (parse_env f) k)"
  unfolding delete_resources_edits env_file.edited_def [symmetric]
  by (rule env_file.read_edited_other) (use assms in \<open>auto simp: list_all_iff\<close>)

lemma resources_of_env_ok: "resources_of_env env = Inr r \<Longrightarrow> resources_ok r"
  by (auto simp: resources_of_env_def result_bind_Inr_iff ValidateResources_iff)

subsection \<open>Flags and transitions\<close>

lemma apply_flags_ok: "apply_flags ParseCPUs RAMInBytes f base = Inr r \<Longrightarrow> resources_ok r"
  by (auto simp: apply_flags_def result_bind_Inr_iff ValidateResources_iff)

lemma set_flag_Inr: "set_flag raw parse dest r = Inr r' \<longleftrightarrow>
   raw = '''' \<and> r' = r \<or> raw \<noteq> '''' \<and> (\<exists>v. parse raw = Inr v \<and> r' = dest v r)"
  by (auto simp: set_flag_def result_bind_Inr_iff)

lemma validateLive_iff:
  "validateLiveResourceTransition old new = Inr () \<longleftrightarrow>
     (NanoCPUs (Agent old) = 0 \<longleftrightarrow> NanoCPUs (Agent new) = 0) \<and>
     (MemoryBytes (Agent old) = 0 \<longleftrightarrow> MemoryBytes (Agent new) = 0) \<and>
     (NanoCPUs (Executor old) = 0 \<longleftrightarrow> NanoCPUs (Executor new) = 0) \<and>
     (MemoryBytes (Executor old) = 0 \<longleftrightarrow> MemoryBytes (Executor new) = 0)"
  by (auto simp: validateLiveResourceTransition_def)

text \<open>What the validated limits become at the daemon still fits its 64-bit fields.\<close>

text \<open>Once resources are validated, the swap limit computed for each container is twice its
  memory limit and stays within a signed 64-bit integer, so the doubling never wraps.\<close>

theorem validated_swap_fits:
  assumes "ValidateResources r = Inr ()"
  shows "\<exists>sA sX. defaultMemorySwapLimit (MemoryBytes (Agent r)) = Inr sA \<and> sA = 2 * MemoryBytes (Agent r) \<and>
     in_int64 sA \<and> defaultMemorySwapLimit (MemoryBytes (Executor r)) = Inr sX \<and>
     sX = 2 * MemoryBytes (Executor r) \<and> in_int64 sX"
  using assms swap_limit_of_valid [of "Agent r"] swap_limit_of_valid [of "Executor r"]
  by (simp add: ValidateResources_iff resources_ok_def)

theorem validated_swap_fits_witness:
  "\<exists>s. defaultMemorySwapLimit (MemoryBytes (Agent DefaultResources)) = Inr s \<and> in_int64 s"
proof -
  have "ValidateResources DefaultResources = Inr ()" by code_simp
  then show ?thesis using validated_swap_fits by blast
qed

end
