(* ===== verification/Mounts.thy ===== *)
theory Mounts
  imports Settings "HOL-Library.Word"
begin

text \<open>
  \<open>internal/box/agent_mounts.go\<close>: host directories bound into the agent container.  The
  host's file system is a parameter (\<open>stat\<close>, the contents of \<open>/proc/self/mountinfo\<close>,
  \<open>Abs\<close> and \<open>EvalSymlinks\<close>); permission bits and IDs are 32-bit words.  The last
  section gives the kernel's permission rule and shows that the prepared mounts are
  accessible under it with the groups that are handed to the container.
\<close>

unbundle bit_operations_syntax

definition AgentMountsEnv :: string where "AgentMountsEnv = ''TX9_AGENT_MOUNTS''"
definition agentUID :: "32 word" where "agentUID = 1001"
definition agentGID :: "32 word" where "agentGID = 1001"

record AgentMount =
  Source :: string
  Target :: string
  ReadOnly :: bool
  RequireMountpoint :: bool

text \<open>\<open>os.FileInfo\<close>: \<open>Sys()\<close> is a \<open>Stat_t\<close> with owner and group, or something else.\<close>

record FileInfo =
  IsDir :: bool
  Perm :: "32 word"
  Sys :: "(32 word \<times> 32 word) option"

record mount_host =
  Stat :: "string \<Rightarrow> FileInfo option"
  mountinfo :: "string option"
  AbsPath :: "string \<Rightarrow> string option"
  EvalSymlinks :: "string \<Rightarrow> string option"

datatype mount_error =
    BadSource string
  | SourceChars string
  | BadTarget string
  | TargetNotBelowMnt string
  | TargetChars string
  | DuplicateTarget string
  | NoAbs string
  | Unavailable string
  | NotADirectory string
  | NoMountinfo
  | MountinfoTooLong
  | NotMounted string
  | NoAccess string
  | NoCombinedAccess string
  | BadMountsJSON

section \<open>Validation\<close>

definition contains_any :: "string \<Rightarrow> char list \<Rightarrow> bool" where
  "contains_any s cs \<longleftrightarrow> list_ex (\<lambda>c. c \<in> set cs) s"

definition bind_breakers :: "char list" where
  "bind_breakers = [CHR '':'', CHR 0x0A, CHR 0x0D, CHR 0x00]"

definition validateAgentMount :: "AgentMount \<Rightarrow> mount_error + unit" where
  "validateAgentMount m =
     (if Source m = '''' \<or> \<not> IsAbs (Source m) \<or> Clean (Source m) \<noteq> Source m
        then Inl (BadSource (Source m))
      else if contains_any (Source m) bind_breakers then Inl (SourceChars (Source m))
      else if Target m = '''' \<or> \<not> IsAbs (Target m) \<or> Clean (Target m) \<noteq> Target m
        then Inl (BadTarget (Target m))
      else if Target m = ''/mnt'' \<or> \<not> has_prefix (Target m) ''/mnt/''
        then Inl (TargetNotBelowMnt (Target m))
      else if contains_any (Target m) bind_breakers then Inl (TargetChars (Target m))
      else Inr ())"

fun validate_set_loop :: "string list \<Rightarrow> AgentMount list \<Rightarrow> mount_error + unit" where
  "validate_set_loop targets [] = Inr ()"
| "validate_set_loop targets (m # ms) =
     result_bind (validateAgentMount m) (\<lambda>_.
       if Target m \<in> set targets then Inl (DuplicateTarget (Target m))
       else validate_set_loop (Target m # targets) ms)"

definition validateAgentMountSet :: "AgentMount list \<Rightarrow> mount_error + unit" where
  "validateAgentMountSet ms = validate_set_loop [] ms"

section \<open>Access\<close>

definition group_name :: "32 word \<Rightarrow> string" where
  "group_name gid = show_nat (unat gid)"

definition needed_bits :: "bool \<Rightarrow> 32 word" where
  "needed_bits readOnly = (if readOnly then 5 else 7)"

definition supplementalGroupWithMembership ::
  "FileInfo \<Rightarrow> bool \<Rightarrow> string list \<Rightarrow> unit + string" where
  "supplementalGroupWithMembership info readOnly groups =
     (case Sys info of
        None \<Rightarrow> Inr ''''
      | Some (uid, gid) \<Rightarrow>
          (let needed = needed_bits readOnly; permissions = Perm info in
           if uid = agentUID then
             (if drop_bit 6 permissions AND needed = needed then Inr '''' else Inl ())
           else if gid = agentGID \<or> group_name gid \<in> set groups then
             (if drop_bit 3 permissions AND needed = needed then Inr '''' else Inl ())
           else if permissions AND needed = needed then Inr ''''
           else if gid \<noteq> 0 \<and> drop_bit 3 permissions AND needed = needed
             then Inr (group_name gid)
           else Inl ()))"

definition supplementalGroup :: "FileInfo \<Rightarrow> bool \<Rightarrow> unit + string" where
  "supplementalGroup info readOnly = supplementalGroupWithMembership info readOnly []"

section \<open>Mount points\<close>

text \<open>The \<open>strings.Replacer\<close>: leftmost match, the four words tried at each position.\<close>

definition mountinfo_escapes :: "(string \<times> char) list" where
  "mountinfo_escapes =
     [(CHR 0x5C # ''040'', CHR '' ''), (CHR 0x5C # ''011'', CHR 0x09),
      (CHR 0x5C # ''012'', CHR 0x0A), (CHR 0x5C # ''134'', CHR 0x5C)]"

fun unescapeMountInfoPath :: "string \<Rightarrow> string" where
  "unescapeMountInfoPath (a # b # c # d # s) =
     (case map_of mountinfo_escapes [a, b, c, d] of
        Some r \<Rightarrow> r # unescapeMountInfoPath s
      | None \<Rightarrow> a # unescapeMountInfoPath (b # c # d # s))"
| "unescapeMountInfoPath s = s"

definition isMountpoint :: "mount_host \<Rightarrow> string \<Rightarrow> mount_error + bool" where
  "isMountpoint h target =
     (case mountinfo h of
        None \<Rightarrow> Inl NoMountinfo
      | Some contents \<Rightarrow>
          (case scan_lines contents of
             (ls, toolong) \<Rightarrow>
               if list_ex (\<lambda>l. let fs = GoStrings.fields l in
                      length fs > 4 \<and> unescapeMountInfoPath (fs ! 4) = target) ls then Inr True
               else if toolong then Inl MountinfoTooLong
               else Inr False))"

section \<open>Preparation\<close>

record preparedAgentMount =
  bind_spec :: string
  group :: string
  info :: FileInfo

definition bind_string :: "AgentMount \<Rightarrow> string" where
  "bind_string m = Source m @ '':'' @ Target m @ (if ReadOnly m then '':ro'' else '''')"

definition prepareAgentMount :: "mount_host \<Rightarrow> AgentMount \<Rightarrow> mount_error + preparedAgentMount" where
  "prepareAgentMount h m =
     (case Stat h (Source m) of
        None \<Rightarrow> Inl (Unavailable (Source m))
      | Some st \<Rightarrow>
          if \<not> IsDir st then Inl (NotADirectory (Source m))
          else
            result_bind
              (if RequireMountpoint m then
                 result_bind (isMountpoint h (Source m))
                   (\<lambda>mounted. if mounted then Inr () else Inl (NotMounted (Source m)))
               else Inr ())
              (\<lambda>_. case supplementalGroup st (ReadOnly m) of
                 Inl _ \<Rightarrow> Inl (NoAccess (Source m))
               | Inr g \<Rightarrow> Inr \<lparr>bind_spec = bind_string m, group = g, info = st\<rparr>))"

fun prepare_loop :: "mount_host \<Rightarrow> AgentMount list \<Rightarrow> mount_error + preparedAgentMount list" where
  "prepare_loop h [] = Inr []"
| "prepare_loop h (m # ms) =
     result_bind (prepareAgentMount h m) (\<lambda>p.
     result_bind (prepare_loop h ms) (\<lambda>ps. Inr (p # ps)))"

definition group_set :: "preparedAgentMount list \<Rightarrow> string list" where
  "group_set ps = remdups (filter (\<lambda>g. g \<noteq> '''') (map group ps))"

fun recheck_loop ::
  "string list \<Rightarrow> (preparedAgentMount \<times> AgentMount) list \<Rightarrow> mount_error + unit" where
  "recheck_loop groups [] = Inr ()"
| "recheck_loop groups ((p, m) # rest) =
     (case supplementalGroupWithMembership (info p) (ReadOnly m) groups of
        Inl _ \<Rightarrow> Inl (NoCombinedAccess (Source m))
      | Inr _ \<Rightarrow> recheck_loop groups rest)"

definition prepareAgentMounts ::
  "mount_host \<Rightarrow> AgentMount list \<Rightarrow> mount_error + (string list \<times> string list)" where
  "prepareAgentMounts h ms =
     result_bind (validateAgentMountSet ms) (\<lambda>_.
     result_bind (prepare_loop h ms) (\<lambda>ps.
     result_bind (recheck_loop (group_set ps) (zip ps ms)) (\<lambda>_.
     Inr (map bind_spec ps, sort (group_set ps)))))"

definition PreflightAgentMounts :: "mount_host \<Rightarrow> AgentMount list \<Rightarrow> mount_error + unit" where
  "PreflightAgentMounts h ms = result_bind (prepareAgentMounts h ms) (\<lambda>_. Inr ())"

definition NewAgentMount ::
  "mount_host \<Rightarrow> string \<Rightarrow> string \<Rightarrow> bool \<Rightarrow> bool \<Rightarrow> mount_error + AgentMount" where
  "NewAgentMount h source target readOnly requireMountpoint =
     (case AbsPath h source of
        None \<Rightarrow> Inl (NoAbs source)
      | Some abs0 \<Rightarrow>
          (let abs1 = (case EvalSymlinks h abs0 of Some resolved \<Rightarrow> resolved | None \<Rightarrow> abs0);
               m = \<lparr>Source = Clean abs1, Target = Clean target, ReadOnly = readOnly,
                    RequireMountpoint = requireMountpoint\<rparr>
           in result_bind (validateAgentMount m) (\<lambda>_.
              result_bind (prepareAgentMount h m) (\<lambda>_. Inr m))))"

section \<open>The persisted set\<close>

text \<open>
  \<open>LoadAgentMounts\<close> and \<open>SaveAgentMounts\<close> around the reading and writing of the file;
  \<open>unmarshal\<close> and \<open>marshal\<close> are the two directions of \<open>encoding/json\<close> on mount lists.
\<close>

definition mounts_of_env ::
  "(string \<Rightarrow> AgentMount list option) \<Rightarrow> env \<Rightarrow> mount_error + AgentMount list" where
  "mounts_of_env unmarshal env =
     (case map_of env AgentMountsEnv of
        None \<Rightarrow> Inr []
      | Some raw \<Rightarrow>
          if raw = '''' then Inr []
          else case unmarshal raw of
            None \<Rightarrow> Inl BadMountsJSON
          | Some ms \<Rightarrow> result_bind (validateAgentMountSet ms) (\<lambda>_. Inr ms))"

definition put_mounts ::
  "(AgentMount list \<Rightarrow> string) \<Rightarrow> AgentMount list \<Rightarrow> env \<Rightarrow> env" where
  "put_mounts marshal ms env = setOrDelete env AgentMountsEnv (if ms \<noteq> [] then marshal ms else '''')"

section \<open>What validation guarantees\<close>

text \<open>A host directory that only the group 50 may read, and a mount of it.\<close>

definition shared_host :: mount_host where
  "shared_host = \<lparr>Stat = \<lambda>p. Some \<lparr>IsDir = True, Perm = 504, Sys = Some (0, 50)\<rparr>,
     mountinfo = None, AbsPath = Some, EvalSymlinks = Some\<rparr>"

definition shared_mount :: AgentMount where
  "shared_mount = \<lparr>Source = ''/srv'', Target = ''/mnt/srv'', ReadOnly = False,
     RequireMountpoint = False\<rparr>"

lemma shared_mount_prepared:
  "prepareAgentMounts shared_host [shared_mount] = Inr ([''/srv:/mnt/srv''], [''50''])"
  by code_simp

definition mount_ok :: "AgentMount \<Rightarrow> bool" where
  "mount_ok m \<longleftrightarrow>
     IsAbs (Source m) \<and> Clean (Source m) = Source m \<and> set (Source m) \<inter> set bind_breakers = {} \<and>
     IsAbs (Target m) \<and> Clean (Target m) = Target m \<and> set (Target m) \<inter> set bind_breakers = {} \<and>
     has_prefix (Target m) ''/mnt/''"

lemma Clean_Nil [simp]: "Clean '''' = ''.''"
  by (simp add: Clean_def)

lemma validateAgentMount_iff: "validateAgentMount m = Inr () \<longleftrightarrow> mount_ok m"
  by (auto simp: validateAgentMount_def mount_ok_def contains_any_def list_ex_iff has_prefix_def
      IsAbs_def)

lemma validate_set_loop_iff:
  "validate_set_loop ts ms = Inr () \<longleftrightarrow>
     list_all mount_ok ms \<and> distinct (map Target ms) \<and> set ts \<inter> Target ` set ms = {}"
  by (induction ms arbitrary: ts) (auto simp: result_bind_Inr_iff validateAgentMount_iff)

lemma validateAgentMountSet_iff:
  "validateAgentMountSet ms = Inr () \<longleftrightarrow> list_all mount_ok ms \<and> distinct (map Target ms)"
  by (simp add: validateAgentMountSet_def validate_set_loop_iff)

text \<open>A valid target is \<open>/mnt\<close> followed by at least one proper component: it cannot climb out.\<close>

lemma target_below_mnt:
  assumes "mount_ok m"
  shows "\<exists>c cs. Target m = ''/'' @ join_with CHR ''/'' (''mnt'' # c # cs) \<and>
    list_all proper_comp (c # cs)"
proof -
  have clean: "Clean (Target m) = Target m" and abs: "IsAbs (Target m)"
    and pre: "has_prefix (Target m) ''/mnt/''"
    using assms by (auto simp: mount_ok_def)
  obtain ds where ds: "Target m = ''/'' @ join_with CHR ''/'' ds" "list_all proper_comp ds"
    using Clean_abs [OF abs] clean by metis
  obtain t where t: "Target m = ''/mnt/'' @ t" using pre by (auto simp: has_prefix_iff)
  then have j: "join_with CHR ''/'' ds = ''mnt'' @ ''/'' @ t" using ds(1) by simp
  then have ne: "ds \<noteq> []" by (cases ds) auto
  have "ds = split_on CHR ''/'' (join_with CHR ''/'' ds)"
    using ds(2) ne by (intro split_join [symmetric]) (auto simp: list_all_iff proper_comp_def)
  also have "\<dots> = ''mnt'' # split_on CHR ''/'' t"
    unfolding j by (simp add: split_on_append split_on_no_sep)
  finally have "ds = ''mnt'' # split_on CHR ''/'' t" .
  moreover obtain c cs where "split_on CHR ''/'' t = c # cs"
    by (cases "split_on CHR ''/'' t") auto
  ultimately show ?thesis using ds by auto
qed

text \<open>Docker reads a bind as \<open>source:target[:mode]\<close>; a valid mount is read back as it was meant.\<close>

lemma bind_string_splits:
  assumes "mount_ok m"
  shows "split_on CHR '':'' (bind_string m) =
     [Source m, Target m] @ (if ReadOnly m then [''ro''] else [])"
proof -
  have "CHR '':'' \<notin> set (Source m)" "CHR '':'' \<notin> set (Target m)"
    using assms by (auto simp: mount_ok_def bind_breakers_def)
  then show ?thesis
    by (simp add: bind_string_def split_on_append split_on_no_sep)
qed

section \<open>Access under the kernel's rule\<close>

text \<open>
  The kernel picks exactly one class of permission bits: the owner's for the owner, else
  the group's for a member of the directory's group, else the others'.
\<close>

definition kernel_allows ::
  "32 word \<Rightarrow> 32 word set \<Rightarrow> 32 word \<times> 32 word \<Rightarrow> 32 word \<Rightarrow> 32 word \<Rightarrow> bool" where
  "kernel_allows uid gids owner perm needed \<longleftrightarrow>
     (let cls = (if fst owner = uid then drop_bit 6 perm
                 else if snd owner \<in> gids then drop_bit 3 perm else perm)
      in cls AND needed = needed)"

definition agent_gids :: "string list \<Rightarrow> 32 word set" where
  "agent_gids groups = {g. g = agentGID \<or> group_name g \<in> set groups}"

lemma group_name_inj: "group_name a = group_name b \<Longrightarrow> a = b"
  unfolding group_name_def by (metis read_show_nat unsigned_word_eqI)

lemma group_name_neq_Nil [simp]: "group_name g \<noteq> ''''"
  by (simp add: group_name_def)

lemma Nil_neq_group_name [simp]: "[] \<noteq> group_name g"
  using group_name_neq_Nil [of g] by metis

lemma membership_decides:
  assumes "Sys st = Some owner" and "supplementalGroupWithMembership st ro groups = Inr g"
  shows "g = '''' \<and> kernel_allows agentUID (agent_gids groups) owner (Perm st) (needed_bits ro) \<or>
    g = group_name (snd owner) \<and> snd owner \<noteq> 0 \<and> snd owner \<notin> agent_gids groups"
  using assms
  by (cases owner)
    (auto simp: supplementalGroupWithMembership_def kernel_allows_def agent_gids_def Let_def
      split: if_splits)

lemma prepare_loop_Inr:
  "prepare_loop h ms = Inr ps \<Longrightarrow>
     length ps = length ms \<and> (\<forall>i < length ms. prepareAgentMount h (ms ! i) = Inr (ps ! i))"
  by (induction ms arbitrary: ps) (auto simp: result_bind_Inr_iff less_Suc_eq_0_disj)

lemma recheck_loop_Inr:
  assumes "recheck_loop groups (zip ps ms) = Inr ()" and "i < length ms" and "length ps = length ms"
  shows "\<exists>g. supplementalGroupWithMembership (info (ps ! i)) (ReadOnly (ms ! i)) groups = Inr g"
  using assms(3,1,2)
  by (induction ps ms arbitrary: i rule: list_induct2)
    (auto simp: nth_Cons' split: sum.splits)

lemma prepareAgentMount_Inr:
  assumes "prepareAgentMount h m = Inr p"
  shows "Stat h (Source m) = Some (info p) \<and> IsDir (info p) \<and> bind_spec p = bind_string m \<and>
    supplementalGroup (info p) (ReadOnly m) = Inr (group p) \<and>
    (RequireMountpoint m \<longrightarrow> isMountpoint h (Source m) = Inr True)"
  using assms
  by (auto simp: prepareAgentMount_def result_bind_Inr_iff split: option.splits if_splits sum.splits)

text \<open>
  After \<open>prepareAgentMounts\<close> every mount source is a directory that the agent may use as
  asked, when it runs with the returned groups; none of them is the root group.
\<close>

lemma prepared_mounts_accessible:
  assumes "prepareAgentMounts h ms = Inr (binds, groups)" and "m \<in> set ms"
  shows "\<exists>st. Stat h (Source m) = Some st \<and> IsDir st \<and>
    (\<forall>owner. Sys st = Some owner \<longrightarrow>
       kernel_allows agentUID (agent_gids groups) owner (Perm st) (needed_bits (ReadOnly m)))"
proof -
  obtain ps where ps: "prepare_loop h ms = Inr ps"
    and re: "recheck_loop (group_set ps) (zip ps ms) = Inr ()"
    and groups: "groups = sort (group_set ps)"
    using assms(1) by (auto simp: prepareAgentMounts_def result_bind_Inr_iff)
  obtain i where i: "i < length ms" "ms ! i = m" using assms(2) by (auto simp: in_set_conv_nth)
  have len: "length ps = length ms" and p: "prepareAgentMount h m = Inr (ps ! i)"
    using prepare_loop_Inr [OF ps] i by auto
  have gids: "agent_gids groups = agent_gids (group_set ps)"
    by (simp add: agent_gids_def groups)
  have "kernel_allows agentUID (agent_gids groups) owner (Perm (info (ps ! i)))
      (needed_bits (ReadOnly m))" if owner: "Sys (info (ps ! i)) = Some owner" for owner
  proof -
    obtain g where g: "supplementalGroupWithMembership (info (ps ! i)) (ReadOnly m) (group_set ps) = Inr g"
      using recheck_loop_Inr [OF re i(1) len] i(2) by auto
    show ?thesis
    proof (rule ccontr)
      assume no: "\<not> ?thesis"
      then have out: "snd owner \<notin> agent_gids (group_set ps)"
        using membership_decides [OF owner g] by (auto simp: gids)
      moreover have "group (ps ! i) \<in> {''''} \<union> set (group_set ps)"
        using i(1) len by (auto simp: group_set_def)
      ultimately have "group (ps ! i) \<noteq> group_name (snd owner)"
        by (auto simp: agent_gids_def)
      then have "kernel_allows agentUID (agent_gids []) owner (Perm (info (ps ! i)))
          (needed_bits (ReadOnly m))"
        using membership_decides [OF owner, of "ReadOnly m" "[]" "group (ps ! i)"]
          prepareAgentMount_Inr [OF p] by (auto simp: supplementalGroup_def)
      then show False using no out by (auto simp: groups kernel_allows_def agent_gids_def Let_def
            split: if_splits)
    qed
  qed
  then show ?thesis using prepareAgentMount_Inr [OF p] by blast
qed

lemma prepared_mounts_groups:
  assumes "prepareAgentMounts h ms = Inr (binds, groups)" and "g \<in> set groups"
  shows "\<exists>m st uid gid. m \<in> set ms \<and> Stat h (Source m) = Some st \<and> Sys st = Some (uid, gid) \<and>
    g = group_name gid \<and> gid \<noteq> 0"
proof -
  obtain ps where ps: "prepare_loop h ms = Inr ps" and groups: "groups = sort (group_set ps)"
    using assms(1) by (auto simp: prepareAgentMounts_def result_bind_Inr_iff)
  obtain i where i: "i < length ps" "group (ps ! i) = g" "g \<noteq> ''''"
    using assms(2) by (auto simp: groups group_set_def in_set_conv_nth)
  have p: "prepareAgentMount h (ms ! i) = Inr (ps ! i)" and m: "ms ! i \<in> set ms"
    using prepare_loop_Inr [OF ps] i(1) by auto
  note info = prepareAgentMount_Inr [OF p]
  then obtain owner where owner: "Sys (info (ps ! i)) = Some owner"
    using i by (cases "Sys (info (ps ! i))")
      (auto simp: supplementalGroup_def supplementalGroupWithMembership_def)
  have "g = group_name (snd owner)" "snd owner \<noteq> 0"
    using membership_decides [OF owner, of "ReadOnly (ms ! i)" "[]" g] info i
    by (auto simp: supplementalGroup_def)
  then show ?thesis using info owner m by (metis prod.collapse)
qed

lemma prepared_mounts_binds:
  assumes "prepareAgentMounts h ms = Inr (binds, groups)"
  shows "binds = map bind_string ms"
proof -
  obtain ps where ps: "prepare_loop h ms = Inr ps" and binds: "binds = map bind_spec ps"
    using assms by (auto simp: prepareAgentMounts_def result_bind_Inr_iff)
  show ?thesis unfolding binds
    using prepare_loop_Inr [OF ps] prepareAgentMount_Inr
    by (intro nth_equalityI) auto
qed

lemma prepared_mounts_valid:
  "prepareAgentMounts h ms = Inr r \<Longrightarrow> list_all mount_ok ms \<and> distinct (map Target ms)"
  by (auto simp: prepareAgentMounts_def result_bind_Inr_iff validateAgentMountSet_iff)

text \<open>What the checks of the set of mounts mean for the string the daemon is given.\<close>

text \<open>Every mount of a set that passes the checks has a clean target strictly below \<open>/mnt\<close>, and the
  bind string built from it splits at colons into source, target and mode and nothing else.\<close>

theorem accepted_mount:
  assumes "validateAgentMountSet ms = Inr ()" and "m \<in> set ms"
  shows "(\<exists>c cs. Target m = ''/'' @ join_with CHR ''/'' (''mnt'' # c # cs) \<and> list_all proper_comp (c # cs)) \<and>
    split_on CHR '':'' (bind_string m) = [Source m, Target m] @ (if ReadOnly m then [''ro''] else [])"
proof -
  have "mount_ok m" using assms by (auto simp: validateAgentMountSet_iff list_all_iff)
  then show ?thesis using target_below_mnt bind_string_splits by blast
qed

theorem accepted_mount_witness:
  "split_on CHR '':'' (bind_string shared_mount) = [''/srv'', ''/mnt/srv'']"
proof -
  have "validateAgentMountSet [shared_mount] = Inr ()" by code_simp
  then show ?thesis using accepted_mount [of "[shared_mount]" shared_mount]
    by (simp add: shared_mount_def)
qed

text \<open>What preparing the mounts promises about the agent's access to every source.\<close>

text \<open>C31: when the mounts of a box are prepared, every source is an existing directory to which the
  permission rule of the kernel gives the agent, with the supplementary groups computed for it, the
  access the mount needs; targets are distinct and the bind strings are those of the mounts in order.\<close>

theorem prepared_mounts:
  assumes "prepareAgentMounts h ms = Inr (binds, groups)"
  shows "binds = map bind_string ms \<and> distinct (map Target ms) \<and>
    (\<forall>m \<in> set ms. \<exists>st. Stat h (Source m) = Some st \<and> IsDir st \<and>
       (\<forall>owner. Sys st = Some owner \<longrightarrow>
          kernel_allows agentUID (agent_gids groups) owner (Perm st) (needed_bits (ReadOnly m))))"
  using prepared_mounts_binds [OF assms] prepared_mounts_valid [OF assms]
    prepared_mounts_accessible [OF assms] by blast

theorem prepared_mounts_witness:
  "\<exists>st. Stat shared_host (Source shared_mount) = Some st \<and>
     kernel_allows agentUID (agent_gids [''50'']) (0, 50) (Perm st) (needed_bits False)"
  using prepared_mounts [OF shared_mount_prepared] by (simp add: shared_host_def shared_mount_def)

end
