(* ===== verification/ExecutorConfig.thy ===== *)
theory ExecutorConfig
  imports Settings Mounts
begin

text \<open>
  \<open>internal/box/executor_config.go\<close> and \<open>internal/cli/executor_config.go\<close>: the
  host-facing configuration of the executor container.  IPv4 addresses are four bytes,
  read and printed as \<open>net.ParseIP\<close> and \<open>IP.String\<close> do; the IPv6 branch of
  \<open>net.ParseIP\<close> (which matters only for IPv4-mapped addresses) and \<open>net/url\<close> are
  parameters.
\<close>

definition ExecutorWebBaseURLEnv :: string where
  "ExecutorWebBaseURLEnv = ''TX9_EXECUTOR_WEB_BASE_URL''"
definition ExecutorPublishEnv :: string where "ExecutorPublishEnv = ''TX9_EXECUTOR_PUBLISH''"
definition ExecutorDNSEnv :: string where "ExecutorDNSEnv = ''TX9_EXECUTOR_DNS''"
definition TokenEnv :: string where "TokenEnv = ''EXECUTOR_MCP_TOKEN''"

lemmas executor_key_defs = ExecutorWebBaseURLEnv_def ExecutorPublishEnv_def ExecutorDNSEnv_def
  TokenEnv_def

record ExecutorConfig =
  WebBaseURL :: string
  PublishIP :: string
  PublishPort :: string
  DNS :: "string list"

record ExecutorConfigOverrides =
  o_WebBaseURL :: string
  o_Publish :: string
  o_DNS :: string
  o_Clear :: bool
  o_IgnoreStored :: bool

datatype config_error =
    NotAnOrigin string
  | OriginWithExtras string
  | OriginPort string
  | OriginColon string
  | PublishSyntax string
  | PublishNotIPv4 string
  | PublishPortRange string
  | DNSNotIPv4 string
  | ClearWithValues

section \<open>Addresses\<close>

type_synonym ipv4 = "8 word \<times> 8 word \<times> 8 word \<times> 8 word"

text \<open>One decimal field: no sign, no leading zero, at most 255.\<close>

definition parse_octet :: "string \<Rightarrow> 8 word option" where
  "parse_octet s =
     (case parse_digits s of
        None \<Rightarrow> None
      | Some n \<Rightarrow>
          if length s > 1 \<and> hd s = CHR ''0'' \<or> n > 255 then None else Some (of_nat n))"

definition parse_dotted :: "string \<Rightarrow> ipv4 option" where
  "parse_dotted s =
     (case map parse_octet (split_on CHR ''.'' s) of
        [Some a, Some b, Some c, Some d] \<Rightarrow> Some (a, b, c, d)
      | _ \<Rightarrow> None)"

text \<open>\<open>net.ParseIP\<close> followed by \<open>To4\<close>; \<open>parse_v6\<close> stands for the branch after a colon.\<close>

definition ParseIP4 :: "(string \<Rightarrow> ipv4 option) \<Rightarrow> string \<Rightarrow> ipv4 option" where
  "ParseIP4 parse_v6 s =
     (case find (\<lambda>c. c = CHR ''.'' \<or> c = CHR '':'' \<or> c = CHR ''%'') s of
        None \<Rightarrow> None
      | Some c \<Rightarrow>
          if c = CHR ''.'' then parse_dotted s
          else if c = CHR '':'' then parse_v6 s else None)"

definition show_octet :: "8 word \<Rightarrow> string" where
  "show_octet a = show_nat (unat a)"

definition show_ip :: "ipv4 \<Rightarrow> string" where
  "show_ip ip = (case ip of (a, b, c, d) \<Rightarrow>
     join_with CHR ''.'' [show_octet a, show_octet b, show_octet c, show_octet d])"

text \<open>\<open>net.SplitHostPort\<close> and \<open>net.JoinHostPort\<close>.\<close>

fun last_index :: "char \<Rightarrow> string \<Rightarrow> nat option" where
  "last_index c [] = None"
| "last_index c (x # xs) =
     (case last_index c xs of
        Some i \<Rightarrow> Some (Suc i)
      | None \<Rightarrow> if x = c then Some 0 else None)"

fun first_index :: "char \<Rightarrow> string \<Rightarrow> nat option" where
  "first_index c [] = None"
| "first_index c (x # xs) = (if x = c then Some 0 else map_option Suc (first_index c xs))"

definition SplitHostPort :: "string \<Rightarrow> (string \<times> string) option" where
  "SplitHostPort hp =
     (case last_index CHR '':'' hp of
        None \<Rightarrow> None
      | Some i \<Rightarrow>
          (let parts =
             (if hp ! 0 = CHR ''['' then
                (case first_index CHR '']'' hp of
                   None \<Rightarrow> None
                 | Some e \<Rightarrow>
                     if Suc e = i then Some (take (e - 1) (drop 1 hp), 1, Suc e) else None)
              else (let host = take i hp in
                    if CHR '':'' \<in> set host then None else Some (host, 0, 0)))
           in case parts of
                None \<Rightarrow> None
              | Some (host, j, k) \<Rightarrow>
                  if CHR ''['' \<in> set (drop j hp) \<or> CHR '']'' \<in> set (drop k hp) then None
                  else Some (host, drop (Suc i) hp)))"

definition JoinHostPort :: "string \<Rightarrow> string \<Rightarrow> string" where
  "JoinHostPort host port =
     (if CHR '':'' \<in> set host then ''['' @ host @ '']:'' @ port else host @ '':'' @ port)"

section \<open>Parsing the three settings\<close>

record url =
  Hostname :: string
  Scheme :: string
  HasUser :: bool
  RawQuery :: string
  ForceQuery :: bool
  Fragment :: string
  Path :: string
  Port :: string
  Host :: string

record net_lib =
  parse_url :: "string \<Rightarrow> url option"
  url_string :: "url \<Rightarrow> string"
  parse_v6 :: "string \<Rightarrow> ipv4 option"

definition port_ok :: "string \<Rightarrow> int option" where
  "port_ok port =
     (case parse_int port of
        None \<Rightarrow> None
      | Some n \<Rightarrow> if n < 1 \<or> n > 65535 then None else Some n)"

definition normalizeWebBaseURL :: "net_lib \<Rightarrow> string \<Rightarrow> config_error + string" where
  "normalizeWebBaseURL N raw0 =
     (let raw = trim_space raw0 in
      if raw = '''' then Inr ''''
      else case parse_url N raw of
        None \<Rightarrow> Inl (NotAnOrigin raw)
      | Some u \<Rightarrow>
          if Hostname u = '''' \<or> Scheme u \<noteq> ''http'' \<and> Scheme u \<noteq> ''https''
            then Inl (NotAnOrigin raw)
          else if HasUser u \<or> RawQuery u \<noteq> '''' \<or> Fragment u \<noteq> '''' \<or> Path u \<noteq> '''' \<and> Path u \<noteq> ''/''
            then Inl (OriginWithExtras raw)
          else if Port u \<noteq> '''' \<and> port_ok (Port u) = None then Inl (OriginPort (Port u))
          else if Port u = '''' \<and> has_suffix (Host u) '':'' then Inl (OriginColon raw)
          else Inr (trim_suffix (url_string N (u\<lparr>Path := ''''\<rparr>)) ''/''))"

definition parsePublishAddress :: "net_lib \<Rightarrow> string \<Rightarrow> config_error + (string \<times> string)" where
  "parsePublishAddress N raw0 =
     (let raw = trim_space raw0 in
      if raw = '''' then Inr (''0.0.0.0'', '''')
      else case SplitHostPort raw of
        None \<Rightarrow> Inl (PublishSyntax raw)
      | Some (host0, port) \<Rightarrow>
          (let host = (if host0 = '''' then ''0.0.0.0'' else host0) in
           case ParseIP4 (parse_v6 N) host of
             None \<Rightarrow> Inl (PublishNotIPv4 raw)
           | Some ip \<Rightarrow>
               (case port_ok port of
                  None \<Rightarrow> Inl (PublishPortRange port)
                | Some n \<Rightarrow> Inr (show_ip ip, format_int n))))"

fun dns_loop :: "net_lib \<Rightarrow> string list \<Rightarrow> string list \<Rightarrow> config_error + string list" where
  "dns_loop N resolvers [] = Inr resolvers"
| "dns_loop N resolvers (v # vs) =
     (let value = trim_space v in
      case ParseIP4 (parse_v6 N) value of
        None \<Rightarrow> Inl (DNSNotIPv4 value)
      | Some ip \<Rightarrow>
          (let normalized = show_ip ip in
           dns_loop N (if normalized \<in> set resolvers then resolvers else resolvers @ [normalized]) vs))"

definition parseDNS :: "net_lib \<Rightarrow> string \<Rightarrow> config_error + string list" where
  "parseDNS N raw0 =
     (let raw = trim_space raw0 in
      if raw = '''' then Inr [] else dns_loop N [] (split_on CHR '','' raw))"

definition parseExecutorConfig ::
  "net_lib \<Rightarrow> string \<Rightarrow> string \<Rightarrow> string \<Rightarrow> config_error + ExecutorConfig" where
  "parseExecutorConfig N webBaseURL publish dns =
     result_bind (normalizeWebBaseURL N webBaseURL) (\<lambda>baseURL.
     result_bind (parsePublishAddress N publish) (\<lambda>(ip, port).
     result_bind (parseDNS N dns) (\<lambda>resolvers.
     Inr \<lparr>WebBaseURL = baseURL, PublishIP = ip, PublishPort = port, DNS = resolvers\<rparr>)))"

fun firstConfigured :: "string list \<Rightarrow> string" where
  "firstConfigured [] = ''''"
| "firstConfigured (v # vs) = (if trim_space v \<noteq> '''' then v else firstConfigured vs)"

definition PublishAddress :: "ExecutorConfig \<Rightarrow> string" where
  "PublishAddress c = (if PublishPort c = '''' then '''' else JoinHostPort (PublishIP c) (PublishPort c))"

section \<open>Loading and saving\<close>

text \<open>A missing key of a Go map reads as the empty string.\<close>

definition lookup_string :: "env \<Rightarrow> string \<Rightarrow> string" where
  "lookup_string env k = (case map_of env k of None \<Rightarrow> '''' | Some v \<Rightarrow> v)"

text \<open>
  \<open>LoadExecutorConfig\<close> around the reading of the stored file, which is not read when the
  overrides say clear or ignore; \<open>getenv\<close> is the process environment.
\<close>

definition reads_stored :: "ExecutorConfigOverrides \<Rightarrow> bool" where
  "reads_stored o' \<longleftrightarrow> \<not> o_Clear o' \<and> \<not> o_IgnoreStored o'"

definition executor_config_of_env ::
  "net_lib \<Rightarrow> (string \<Rightarrow> string) \<Rightarrow> ExecutorConfigOverrides \<Rightarrow> env
     \<Rightarrow> config_error + ExecutorConfig" where
  "executor_config_of_env N getenv o' stored0 =
     (if o_Clear o' then parseExecutorConfig N '''' '''' ''''
      else let stored = (if o_IgnoreStored o' then [] else stored0) in
        parseExecutorConfig N
          (firstConfigured [o_WebBaseURL o', getenv ExecutorWebBaseURLEnv,
             lookup_string stored ExecutorWebBaseURLEnv])
          (firstConfigured [o_Publish o', getenv ExecutorPublishEnv,
             lookup_string stored ExecutorPublishEnv])
          (firstConfigured [o_DNS o', getenv ExecutorDNSEnv,
             lookup_string stored ExecutorDNSEnv]))"

definition put_executor :: "string \<Rightarrow> ExecutorConfig \<Rightarrow> env \<Rightarrow> env" where
  "put_executor token cfg env =
     (let env = AList.update TokenEnv token env;
          env = setOrDelete env ExecutorWebBaseURLEnv (WebBaseURL cfg);
          env = setOrDelete env ExecutorPublishEnv (PublishAddress cfg)
      in setOrDelete env ExecutorDNSEnv (join_with CHR '','' (DNS cfg)))"

text \<open>The command-line flags.\<close>

record executorConfigFlags =
  f_webBaseURL :: string
  f_publish :: string
  f_dns :: string
  f_clear :: bool

definition resolve_flags ::
  "executorConfigFlags \<Rightarrow> bool \<Rightarrow> config_error + ExecutorConfigOverrides" where
  "resolve_flags f ignoreStored =
     (if f_clear f \<and> (f_webBaseURL f \<noteq> '''' \<or> f_publish f \<noteq> '''' \<or> f_dns f \<noteq> '''')
        then Inl ClearWithValues
      else Inr \<lparr>o_WebBaseURL = f_webBaseURL f, o_Publish = f_publish f, o_DNS = f_dns f,
                o_Clear = f_clear f, o_IgnoreStored = ignoreStored\<rparr>)"

definition executor_hasOverrides :: "executorConfigFlags \<Rightarrow> bool" where
  "executor_hasOverrides f \<longleftrightarrow>
     f_webBaseURL f \<noteq> '''' \<or> f_publish f \<noteq> '''' \<or> f_dns f \<noteq> '''' \<or> f_clear f"

section \<open>Round trips\<close>

lemma show_nat_plain:
  "c \<in> set (show_nat n) \<Longrightarrow> plain_byte c \<and>
     c \<notin> {CHR ''.'', CHR '':'', CHR ''%'', CHR '','', CHR ''['', CHR '']'', CHR 0x0A, CHR 0x0D}"
  using show_nat_digits [of c n] plain_byte_digit [of c] by (auto simp: is_digit_def)

lemma parse_show_octet [simp]: "parse_octet (show_octet a) = Some a"
proof -
  have "unat a \<le> 255" using unsigned_less [of a, where 'a = nat] by simp
  moreover have "\<not> (length (show_nat (unat a)) > 1 \<and> hd (show_nat (unat a)) = CHR ''0'')"
    using hd_show_nat [of "unat a"] by (auto simp: show_nat.simps [of 0])
  ultimately show ?thesis by (auto simp: parse_octet_def show_octet_def)
qed

definition ip_char :: "char \<Rightarrow> bool" where
  "ip_char c \<longleftrightarrow> plain_byte c \<and> c \<notin> {CHR '':'', CHR ''%'', CHR '','', CHR ''['', CHR '']'', CHR 0x0A, CHR 0x0D}"

lemma ip_char_dot [simp]: "ip_char CHR ''.''"
  by (simp add: ip_char_def plain_byte_def space_bytes_def space_encodings_def)

lemma show_octet_chars: "c \<in> set (show_octet a) \<Longrightarrow> ip_char c \<and> c \<noteq> CHR ''.''"
  unfolding show_octet_def by (drule show_nat_plain) (simp add: ip_char_def)

lemma show_ip_chars: "c \<in> set (show_ip ip) \<Longrightarrow> ip_char c"
  using show_octet_chars by (cases ip) (auto simp: show_ip_def)

lemma show_ip_neq_Nil [simp]: "show_ip ip \<noteq> []"
  by (cases ip) (simp add: show_ip_def)

lemma parse_show_dotted: "parse_dotted (show_ip ip) = Some ip"
proof -
  obtain a b c d where ip: "ip = (a, b, c, d)" by (cases ip)
  have "split_on CHR ''.'' (show_ip ip) = [show_octet a, show_octet b, show_octet c, show_octet d]"
    unfolding ip show_ip_def prod.case by (rule split_join) (use show_octet_chars in auto)
  then show ?thesis by (simp add: parse_dotted_def ip)
qed

lemma find_skip: "(\<And>x. x \<in> set a \<Longrightarrow> \<not> P x) \<Longrightarrow> find P (a @ b) = find P b"
  by (induction a) auto

lemma ParseIP4_show [simp]: "ParseIP4 v6 (show_ip ip) = Some ip"
proof -
  obtain a b c d where ip: "ip = (a, b, c, d)" by (cases ip)
  have "show_ip ip = show_octet a @ ''.'' @ join_with CHR ''.'' [show_octet b, show_octet c, show_octet d]"
    by (simp add: ip show_ip_def)
  moreover have find: "find (\<lambda>c. c = CHR ''.'' \<or> c = CHR '':'' \<or> c = CHR ''%'') (show_octet a @ ''.'' @ r) =
      Some CHR ''.''" for r
    by (subst find_skip) (use show_octet_chars in \<open>auto simp: ip_char_def\<close>)
  ultimately have "find (\<lambda>c. c = CHR ''.'' \<or> c = CHR '':'' \<or> c = CHR ''%'') (show_ip ip) = Some CHR ''.''"
    by metis
  then show ?thesis by (simp add: ParseIP4_def parse_show_dotted)
qed

lemma trim_space_show_ip: "trim_space (show_ip ip) = show_ip ip"
  using show_ip_chars [of _ ip] by (intro trim_space_plain) (auto simp: ip_char_def)

lemma last_index_append: "c \<notin> set b \<Longrightarrow> last_index c (a @ c # b) = Some (length a)"
proof -
  assume "c \<notin> set b"
  then have "last_index c b = None" by (induction b) auto
  then show ?thesis by (induction a) auto
qed

lemma SplitHostPort_plain:
  assumes "set host \<inter> {CHR '':'', CHR ''['', CHR '']''} = {}"
    and "set port \<inter> {CHR '':'', CHR ''['', CHR '']''} = {}"
  shows "SplitHostPort (host @ CHR '':'' # port) = Some (host, port)"
proof -
  have "last_index CHR '':'' (host @ CHR '':'' # port) = Some (length host)"
    by (rule last_index_append) (use assms in auto)
  moreover have "(host @ CHR '':'' # port) ! 0 \<noteq> CHR ''[''"
    using assms(1) by (cases host) auto
  ultimately show ?thesis using assms by (auto simp: SplitHostPort_def)
qed

lemma format_int_port: "0 \<le> n \<Longrightarrow> format_int n = show_nat (nat n)"
  by (simp add: format_int_def)

lemma port_ok_range: "port_ok q = Some n \<Longrightarrow> 1 \<le> n \<and> n \<le> 65535"
  by (simp add: port_ok_def split: option.splits if_splits)

lemma parsePublishAddress_Inr:
  assumes "parsePublishAddress N raw = Inr (ip, port)"
  shows "ip = ''0.0.0.0'' \<and> port = '''' \<or>
    (\<exists>a n. ip = show_ip a \<and> 1 \<le> n \<and> n \<le> 65535 \<and> port = format_int n)"
proof (cases "trim_space raw = ''''")
  case True
  then show ?thesis using assms by (simp add: parsePublishAddress_def)
next
  case False
  let ?host = "\<lambda>h. if h = '''' then ''0.0.0.0'' else h"
  obtain h q where hq: "SplitHostPort (trim_space raw) = Some (h, q)"
    using assms False by (simp add: parsePublishAddress_def Let_def split: option.splits prod.splits)
  obtain a where a: "ParseIP4 (parse_v6 N) (?host h) = Some a"
    using assms False hq by (simp only: parsePublishAddress_def Let_def) (simp split: option.splits)
  obtain n where n: "port_ok q = Some n"
    using assms False hq a by (simp only: parsePublishAddress_def Let_def) (simp split: option.splits)
  have "ip = show_ip a \<and> port = format_int n"
    using assms False hq a n by (simp only: parsePublishAddress_def Let_def) simp
  then show ?thesis using port_ok_range [OF n] by blast
qed

lemma trim_space_Nil [simp]: "trim_space '''' = ''''"
  by (rule trim_space_plain) simp

text \<open>The normalised address is read back unchanged.\<close>

lemma publish_round_trip:
  assumes "1 \<le> n" and "n \<le> 65535"
  shows "parsePublishAddress N (JoinHostPort (show_ip a) (format_int n)) = Inr (show_ip a, format_int n)"
proof -
  let ?h = "show_ip a" and ?p = "format_int n"
  have p: "?p = show_nat (nat n)" using assms by (simp add: format_int_port)
  have h: "set ?h \<inter> {CHR '':'', CHR ''['', CHR '']''} = {}"
    using show_ip_chars [of _ a] by (auto simp: ip_char_def)
  have q: "set ?p \<inter> {CHR '':'', CHR ''['', CHR '']''} = {}"
    unfolding p using show_nat_plain [of _ "nat n"] by auto
  have "trim_space (?h @ CHR '':'' # ?p) = ?h @ CHR '':'' # ?p"
  proof (rule trim_space_plain, rule disjI2, rule conjI)
    show "plain_byte (hd (?h @ CHR '':'' # ?p))"
      using show_ip_chars [of "hd ?h" a] by (simp add: ip_char_def)
    show "plain_byte (last (?h @ CHR '':'' # ?p))"
      using show_nat_plain [of "last ?p" "nat n"] by (simp add: p)
  qed
  moreover have "port_ok ?p = Some n"
    using assms by (simp add: port_ok_def parse_format_int in_int64_def max_int64_def min_int64_def)
  ultimately show ?thesis
    using h by (simp add: parsePublishAddress_def JoinHostPort_def SplitHostPort_plain [OF h q])
qed

lemma parse_PublishAddress:
  assumes "parsePublishAddress N raw = Inr (PublishIP c, PublishPort c)"
  shows "parsePublishAddress N (PublishAddress c) = Inr (PublishIP c, PublishPort c)"
  using parsePublishAddress_Inr [OF assms]
proof (elim disjE conjE exE)
  assume "PublishIP c = ''0.0.0.0''" and "PublishPort c = ''''"
  then show ?thesis by (simp add: PublishAddress_def parsePublishAddress_def)
next
  fix a n
  assume "PublishIP c = show_ip a" and "1 \<le> n" and "n \<le> 65535" and "PublishPort c = format_int n"
  then show ?thesis using publish_round_trip [of n N a] by (simp add: PublishAddress_def)
qed

text \<open>The resolver list: distinct addresses, read back unchanged.\<close>

lemma dns_loop_Inr:
  assumes "dns_loop N rs vs = Inr rs'" and "distinct rs" and "\<forall>r \<in> set rs. \<exists>a. r = show_ip a"
  shows "distinct rs' \<and> (\<forall>r \<in> set rs'. \<exists>a. r = show_ip a)"
  using assms
proof (induction vs arbitrary: rs)
  case (Cons v vs)
  from Cons.prems(1) obtain ip where ip: "ParseIP4 (parse_v6 N) (trim_space v) = Some ip"
    by (cases "ParseIP4 (parse_v6 N) (trim_space v)") (simp_all add: Let_def)
  let ?rs = "if show_ip ip \<in> set rs then rs else rs @ [show_ip ip]"
  have "dns_loop N ?rs vs = Inr rs'" using Cons.prems(1) ip by (simp add: Let_def)
  moreover have "distinct ?rs" using Cons.prems(2) by simp
  moreover have "\<forall>r \<in> set ?rs. \<exists>a. r = show_ip a" using Cons.prems(3)
    by (auto simp del: split_paired_Ex)
  ultimately show ?case by (rule Cons.IH)
qed simp

lemma dns_loop_show:
  assumes "distinct (rs @ vs)" and "\<forall>r \<in> set vs. \<exists>a. r = show_ip a"
  shows "dns_loop N rs vs = Inr (rs @ vs)"
  using assms
proof (induction vs arbitrary: rs)
  case (Cons v vs)
  then obtain a where a: "v = show_ip a" by auto
  have "dns_loop N (rs @ [v]) vs = Inr ((rs @ [v]) @ vs)"
    using Cons.prems by (intro Cons.IH) auto
  moreover have "v \<notin> set rs" using Cons.prems(1) by auto
  ultimately show ?case by (simp add: Let_def trim_space_show_ip a)
qed simp

lemma parseDNS_Inr:
  assumes "parseDNS N raw = Inr rs"
  shows "distinct rs \<and> (\<forall>r \<in> set rs. \<exists>a. r = show_ip a)"
proof (cases "trim_space raw = []")
  case False
  then have "dns_loop N [] (split_on CHR '','' (trim_space raw)) = Inr rs"
    using assms by (simp add: parseDNS_def Let_def)
  then show ?thesis by (rule dns_loop_Inr) simp_all
qed (use assms in \<open>simp add: parseDNS_def\<close>)

lemma show_ip_ends: "plain_byte (hd (show_ip a))" "plain_byte (last (show_ip a))"
  using show_ip_chars [of "hd (show_ip a)" a] show_ip_chars [of "last (show_ip a)" a]
  by (simp_all add: ip_char_def)

lemma join_ips_ends:
  assumes "rs \<noteq> []" and "\<forall>r \<in> set rs. \<exists>a. r = show_ip a"
  shows "join_with CHR '','' rs \<noteq> [] \<and> plain_byte (hd (join_with CHR '','' rs)) \<and>
    plain_byte (last (join_with CHR '','' rs))"
  using assms
proof (induction rs rule: induct_list012)
  case (2 r)
  then show ?case using show_ip_ends by auto
next
  case (3 r q rs)
  then obtain a where "r = show_ip a" by auto
  then show ?case using 3 show_ip_ends [of a] by simp
qed simp

lemma parse_join_DNS:
  assumes "distinct rs" and "\<forall>r \<in> set rs. \<exists>a. r = show_ip a"
  shows "parseDNS N (join_with CHR '','' rs) = Inr rs"
proof (cases "rs = []")
  case False
  have "trim_space (join_with CHR '','' rs) = join_with CHR '','' rs"
    using join_ips_ends [OF False assms(2)] by (intro trim_space_plain) simp
  moreover have "split_on CHR '','' (join_with CHR '','' rs) = rs"
    using False assms(2) show_ip_chars by (intro split_join) (fastforce simp: ip_char_def)+
  ultimately show ?thesis
    using join_ips_ends [OF False assms(2)] dns_loop_show [of "[]" rs N] assms
    by (simp add: parseDNS_def)
qed (simp add: parseDNS_def)

section \<open>The saved configuration is the loaded one\<close>

definition executor_edits :: "string \<Rightarrow> ExecutorConfig \<Rightarrow> edit list" where
  "executor_edits token cfg =
     [Put TokenEnv token, set_or_delete_edit ExecutorWebBaseURLEnv (WebBaseURL cfg),
      set_or_delete_edit ExecutorPublishEnv (PublishAddress cfg),
      set_or_delete_edit ExecutorDNSEnv (join_with CHR '','' (DNS cfg))]"

definition executorEnvKeys :: "string list" where
  "executorEnvKeys = [TokenEnv, ExecutorWebBaseURLEnv, ExecutorPublishEnv, ExecutorDNSEnv]"

lemma put_executor_edits: "put_executor token cfg env = fold apply_edit (executor_edits token cfg) env"
  by (simp add: put_executor_def executor_edits_def Let_def setOrDelete_edit)

lemma edit_key_set_or_delete [simp]: "edit_key (set_or_delete_edit k v) = k"
  by (simp add: set_or_delete_edit_def)

lemma executor_edit_keys: "edit_key ` set (executor_edits token cfg) = set executorEnvKeys"
  by (auto simp: executor_edits_def executorEnvKeys_def)

lemma executor_key_ok: "k \<in> set executorEnvKeys \<Longrightarrow> key_ok k"
  by (auto simp: executorEnvKeys_def executor_key_defs ident_byte_def intro!: key_ok_ident)

lemma edit_ok_set_or_delete: "key_ok k \<Longrightarrow> value_ok v \<Longrightarrow> edit_ok (set_or_delete_edit k v)"
  by (simp add: set_or_delete_edit_def)

text \<open>A value that is one line and ends in no carriage return is read back as it is.\<close>

definition kept_value :: "string \<Rightarrow> bool" where
  "kept_value v \<longleftrightarrow> value_ok v \<and> read_value v = v"

lemma kept_value_chars: "(\<And>c. c \<in> set v \<Longrightarrow> c \<noteq> CHR 0x0A \<and> c \<noteq> CHR 0x0D) \<Longrightarrow> kept_value v"
  unfolding kept_value_def value_ok_def
  by (cases "v = []") (auto intro!: read_value_id dest: last_in_set)

lemma kept_join_ips:
  assumes "\<forall>r \<in> set rs. \<exists>a. r = show_ip a"
  shows "kept_value (join_with CHR '','' rs)"
proof (rule kept_value_chars)
  fix c
  have *: "c = CHR '','' \<or> ip_char c" if "c \<in> set (join_with CHR '','' rs)"
    using assms that
  proof (induction rs rule: induct_list012)
    case (2 r)
    then show ?case using show_ip_chars [of c] by (auto simp del: split_paired_Ex)
  next
    case (3 r q rs)
    then show ?case using show_ip_chars [of c] by (auto simp del: split_paired_Ex)
  qed simp
  assume "c \<in> set (join_with CHR '','' rs)"
  then show "c \<noteq> CHR 0x0A \<and> c \<noteq> CHR 0x0D" using * by (auto simp: ip_char_def)
qed

lemma kept_publish:
  assumes "parsePublishAddress N raw = Inr (PublishIP c, PublishPort c)"
  shows "kept_value (PublishAddress c)"
  using parsePublishAddress_Inr [OF assms]
proof (elim disjE conjE exE)
  assume "PublishPort c = ''''"
  then show ?thesis by (simp add: PublishAddress_def kept_value_def value_ok_def read_value_def)
next
  fix a n
  assume a: "PublishIP c = show_ip a" "1 \<le> n" "PublishPort c = format_int n"
  show ?thesis
  proof (rule kept_value_chars)
    fix x
    assume "x \<in> set (PublishAddress c)"
    then have "x \<in> {CHR '':'', CHR ''['', CHR '']''} \<or> x \<in> set (show_ip a) \<or> x \<in> set (show_nat (nat n))"
      using a by (auto simp: PublishAddress_def JoinHostPort_def format_int_port split: if_splits)
    then show "x \<noteq> CHR 0x0A \<and> x \<noteq> CHR 0x0D"
      using show_ip_chars [of x a] show_nat_plain [of x "nat n"] by (auto simp: ip_char_def)
  qed
qed

lemma parse_first_stored:
  "normalizeWebBaseURL N (firstConfigured ['''', '''', v]) = normalizeWebBaseURL N v"
  "parsePublishAddress N (firstConfigured ['''', '''', v]) = parsePublishAddress N v"
  "parseDNS N (firstConfigured ['''', '''', v]) = parseDNS N v"
  by (simp_all add: normalizeWebBaseURL_def parsePublishAddress_def parseDNS_def)

definition no_overrides :: ExecutorConfigOverrides where
  "no_overrides = \<lparr>o_WebBaseURL = '''', o_Publish = '''', o_DNS = '''', o_Clear = False,
     o_IgnoreStored = False\<rparr>"

lemma executor_saved_lookup:
  fixes f :: string
  assumes "kept_value token" and "kept_value (WebBaseURL cfg)"
    and "kept_value (PublishAddress cfg)" and "kept_value (join_with CHR '','' (DNS cfg))"
  defines "env' \<equiv> parse_env (print_env (put_executor token cfg (parse_env f)))"
  shows "lookup_string env' TokenEnv = token"
    and "lookup_string env' ExecutorWebBaseURLEnv = WebBaseURL cfg"
    and "lookup_string env' ExecutorPublishEnv = PublishAddress cfg"
    and "lookup_string env' ExecutorDNSEnv = join_with CHR '','' (DNS cfg)"
proof -
  have ok: "list_all edit_ok (executor_edits token cfg)"
    using assms(1-4) executor_key_ok
    by (auto simp: executor_edits_def executorEnvKeys_def kept_value_def
        intro!: edit_ok_set_or_delete)
  have read: "map_of env' k =
      map_option read_value (fold edit_map (executor_edits token cfg) (map_of (parse_env f)) k)" for k
    unfolding env'_def put_executor_edits env_file.edited_def [symmetric]
    by (rule env_file.read_edited [OF ok])
  show "lookup_string env' TokenEnv = token"
    and "lookup_string env' ExecutorWebBaseURLEnv = WebBaseURL cfg"
    and "lookup_string env' ExecutorPublishEnv = PublishAddress cfg"
    and "lookup_string env' ExecutorDNSEnv = join_with CHR '','' (DNS cfg)"
    using assms(1-4)
    by (simp_all add: lookup_string_def read executor_edits_def set_or_delete_edit_def
        kept_value_def executor_key_defs)
qed

lemma parseExecutorConfig_Inr:
  "parseExecutorConfig N w p d = Inr cfg \<longleftrightarrow>
     normalizeWebBaseURL N w = Inr (WebBaseURL cfg) \<and>
     parsePublishAddress N p = Inr (PublishIP cfg, PublishPort cfg) \<and> parseDNS N d = Inr (DNS cfg)"
  by (cases cfg) (auto simp: parseExecutorConfig_def result_bind_Inr_iff)

text \<open>What the configuration relies on of \<open>net/url\<close>.  An origin prints as scheme, host and, when it was
  written with an empty query, a question mark, the host escaped to printable characters none of which
  starts another part of a URL; and parsing this text gives the origin back.\<close>

definition origin_url :: "url \<Rightarrow> bool" where
  "origin_url u \<longleftrightarrow>
     Hostname u \<noteq> '''' \<and> (Scheme u = ''http'' \<or> Scheme u = ''https'') \<and> \<not> HasUser u \<and>
     RawQuery u = '''' \<and> Fragment u = '''' \<and> (Path u = '''' \<or> Path u = ''/'')"

definition host_char :: "char \<Rightarrow> bool" where
  "host_char c \<longleftrightarrow> of_char c > (32::nat) \<and> of_char c < (127::nat) \<and> c \<notin> {CHR ''/'', CHR ''?'', CHR ''#''}"

definition origin_text :: "url \<Rightarrow> string \<Rightarrow> string" where
  "origin_text u h = Scheme u @ ''://'' @ h @ (if ForceQuery u then ''?'' else '''')"

definition url_laws :: "net_lib \<Rightarrow> bool" where
  "url_laws N \<longleftrightarrow>
     (\<forall>raw u. parse_url N raw = Some u \<longrightarrow> origin_url u \<longrightarrow>
        (\<exists>h. h \<noteq> '''' \<and> list_all host_char h \<and>
           url_string N (u\<lparr>Path := ''''\<rparr>) = origin_text u h \<and>
           parse_url N (origin_text u h) = Some (u\<lparr>Path := ''''\<rparr>)))"

lemma host_char_plain:
  assumes "host_char c"
  shows "plain_byte c \<and> c \<noteq> CHR 0x0A \<and> c \<noteq> CHR 0x0D \<and> c \<noteq> CHR ''/''"
proof -
  have "list_all (\<lambda>c. of_char c \<le> (32::nat) \<or> (127::nat) \<le> of_char c) space_bytes" by code_simp
  then show ?thesis using assms by (auto simp: host_char_def plain_byte_def list_all_iff)
qed

lemma origin_text_chars:
  assumes "list_all host_char h" and "h \<noteq> ''''" and "Scheme u = ''http'' \<or> Scheme u = ''https''"
  defines "s \<equiv> origin_text u h"
  shows "s \<noteq> ''''" and "trim_space s = s" and "kept_value s" and "trim_suffix s ''/'' = s"
proof -
  have plain: "plain_byte CHR ''h''" "plain_byte CHR ''?''" by code_simp+
  have host: "host_char (last h)" using assms(1,2) by (auto simp: list_all_iff)
  have ends: "s \<noteq> []" "hd s = CHR ''h''" "last s = last h \<or> last s = CHR ''?''"
    using assms(2,3) by (auto simp: s_def origin_text_def)
  have last: "plain_byte (last s)" "last s \<noteq> CHR ''/''"
    using ends(3) host_char_plain [OF host] plain(2) by auto
  show "s \<noteq> ''''" by (rule ends(1))
  show "trim_space s = s" using ends(2) last(1) plain(1) by (intro trim_space_plain) simp
  show "trim_suffix s ''/'' = s" using last(2) by (rule trim_suffix_snoc_neq)
  show "kept_value s"
  proof (rule kept_value_chars)
    fix c
    assume "c \<in> set s"
    then have "c \<in> set ''https://?'' \<or> c \<in> set h"
      using assms(3) by (auto simp: s_def origin_text_def split: if_splits)
    then show "c \<noteq> CHR 0x0A \<and> c \<noteq> CHR 0x0D"
      using assms(1) host_char_plain by (auto simp: list_all_iff)
  qed
qed

text \<open>Normalizing a base URL gives a text of one line that normalizes to itself.\<close>

lemma normalized_again:
  assumes "url_laws N" and "normalizeWebBaseURL N w = Inr s"
  shows "normalizeWebBaseURL N s = Inr s" and "kept_value s"
proof -
  have both: "normalizeWebBaseURL N s = Inr s \<and> kept_value s"
  proof (cases "trim_space w = ''''")
    case True
    then show ?thesis using assms(2)
      by (auto simp: normalizeWebBaseURL_def kept_value_def value_ok_def read_value_def)
  next
    case False
    then obtain u where u: "parse_url N (trim_space w) = Some u" "origin_url u"
      "Port u \<noteq> '''' \<longrightarrow> port_ok (Port u) \<noteq> None" "Port u = '''' \<longrightarrow> \<not> has_suffix (Host u) '':''"
      "s = trim_suffix (url_string N (u\<lparr>Path := ''''\<rparr>)) ''/''"
      using assms(2) by (auto simp: normalizeWebBaseURL_def Let_def origin_url_def split: option.splits if_splits)
    then obtain h where h: "h \<noteq> ''''" "list_all host_char h"
      "url_string N (u\<lparr>Path := ''''\<rparr>) = origin_text u h"
      "parse_url N (origin_text u h) = Some (u\<lparr>Path := ''''\<rparr>)"
      using assms(1) unfolding url_laws_def by blast
    have scheme: "Scheme u = ''http'' \<or> Scheme u = ''https''" using u(2) by (simp add: origin_url_def)
    note printed = origin_text_chars [OF h(2,1) scheme]
    have s: "s = origin_text u h" using u(5) h(3) printed(4) by simp
    have "normalizeWebBaseURL N s = Inr (trim_suffix (url_string N (u\<lparr>Path := ''''\<rparr>)) ''/'')"
      using u(2-4) h(4) printed(1,2) unfolding s by (auto simp: normalizeWebBaseURL_def origin_url_def)
    then show ?thesis using printed(3) s u(5) by simp
  qed
  show "normalizeWebBaseURL N s = Inr s" and "kept_value s" using both by simp_all
qed

text \<open>C34: an executor configuration that was parsed and saved into the settings of a box is loaded
  again unchanged, its base URL, host binding and resolvers alike.  Of the URL library this uses that an
  origin is printed as scheme and escaped host, and that parsing what was printed gives it back.\<close>

theorem executor_saved:
  assumes "parseExecutorConfig N w p d = Inr cfg" and "kept_value token" and "url_laws N"
  shows "executor_config_of_env N (\<lambda>_. '''') no_overrides
     (parse_env (print_env (put_executor token cfg (parse_env f)))) = Inr cfg"
proof -
  have u: "normalizeWebBaseURL N w = Inr (WebBaseURL cfg)"
    and p: "parsePublishAddress N p = Inr (PublishIP cfg, PublishPort cfg)"
    and d: "parseDNS N d = Inr (DNS cfg)"
    using assms(1) by (auto simp: parseExecutorConfig_Inr)
  note dns = parseDNS_Inr [OF d] and again = normalized_again [OF assms(3) u]
  have kd: "kept_value (join_with CHR '','' (DNS cfg))"
    using dns by (intro kept_join_ips) blast
  note lookups = executor_saved_lookup [OF assms(2) again(2) kept_publish [OF p] kd, of f]
  have "parseDNS N (join_with CHR '','' (DNS cfg)) = Inr (DNS cfg)"
    using dns by (intro parse_join_DNS) blast+
  then show ?thesis
    by (simp add: executor_config_of_env_def no_overrides_def Let_def lookups
        parseExecutorConfig_Inr parse_first_stored again(1) parse_PublishAddress [OF p]
        del: firstConfigured.simps)
qed

text \<open>A URL library for origins of the scheme http without a port.\<close>

definition http_origin :: "string \<Rightarrow> string \<Rightarrow> url" where
  "http_origin h path =
     \<lparr>Hostname = h, Scheme = ''http'', HasUser = False, RawQuery = '''', ForceQuery = False, Fragment = '''',
      Path = path, Port = '''', Host = h\<rparr>"

definition demo_url_lib :: net_lib where
  "demo_url_lib =
     \<lparr>parse_url = \<lambda>s.
        (let rest = drop 7 s; h = takeWhile (\<lambda>c. c \<noteq> CHR ''/'') rest; path = drop (length h) rest in
         if take 7 s = ''http://'' \<and> h \<noteq> '''' \<and> list_all host_char h \<and> (path = '''' \<or> path = ''/'')
           then Some (http_origin h path) else None),
      url_string = \<lambda>u. Scheme u @ ''://'' @ Host u @ Path u, parse_v6 = \<lambda>s. None\<rparr>"

lemma demo_url_laws: "url_laws demo_url_lib"
proof -
  have "takeWhile (\<lambda>c. c \<noteq> CHR ''/'') h = h" if "list_all host_char h" for h
    using that by (auto simp: takeWhile_eq_all_conv list_all_iff host_char_def)
  then show ?thesis
    by (auto simp: url_laws_def demo_url_lib_def Let_def http_origin_def origin_text_def split: if_splits)
qed

theorem executor_saved_witness:
  "\<exists>w p d cfg. parseExecutorConfig demo_url_lib w p d = Inr cfg \<and> WebBaseURL cfg = ''http://box.example'' \<and>
     PublishPort cfg = format_int 4788 \<and> executor_config_of_env demo_url_lib (\<lambda>_. '''') no_overrides
       (parse_env (print_env (put_executor ''t'' cfg (parse_env ''A=b'')))) = Inr cfg"
proof -
  let ?ip = "show_ip (127, 0, 0, 1)" and ?dns = "[show_ip (1, 1, 1, 1)]"
  let ?cfg = "\<lparr>WebBaseURL = ''http://box.example'', PublishIP = ?ip, PublishPort = format_int 4788, DNS = ?dns\<rparr>"
  have url: "normalizeWebBaseURL demo_url_lib ''http://box.example/'' = Inr ''http://box.example''" by code_simp
  have port: "parsePublishAddress demo_url_lib (JoinHostPort ?ip (format_int 4788)) = Inr (?ip, format_int 4788)"
    by (rule publish_round_trip) simp_all
  have dns: "parseDNS demo_url_lib (join_with CHR '','' ?dns) = Inr ?dns" by (rule parse_join_DNS) auto
  have parsed: "parseExecutorConfig demo_url_lib ''http://box.example/'' (JoinHostPort ?ip (format_int 4788))
      (join_with CHR '','' ?dns) = Inr ?cfg"
    unfolding parseExecutorConfig_Inr url port dns by simp
  have "kept_value ''t''" by code_simp
  from executor_saved [OF parsed this demo_url_laws] parsed show ?thesis
    by (intro exI [of _ ?cfg] exI conjI) simp_all
qed

lemma executor_saved_other:
  assumes "k \<notin> set executorEnvKeys" and "kept_value token" and "kept_value (WebBaseURL cfg)"
    and "kept_value (PublishAddress cfg)" and "kept_value (join_with CHR '','' (DNS cfg))"
  shows "map_of (parse_env (print_env (put_executor token cfg (parse_env f)))) k =
    map_option read_value (map_of (parse_env f) k)"
proof -
  have ok: "list_all edit_ok (executor_edits token cfg)"
    using assms(2-5) executor_key_ok
    by (auto simp: executor_edits_def executorEnvKeys_def kept_value_def
        intro!: edit_ok_set_or_delete)
  show ?thesis
    unfolding put_executor_edits env_file.edited_def [symmetric]
    by (rule env_file.read_edited_other [OF ok]) (use assms(1) executor_edit_keys in auto)
qed

end
