(* ===== verification/Token.thy ===== *)
theory Token
  imports GoStrings
begin

text \<open>
  \<open>internal/token/token.go\<close>: the executor bearer token, 32 random bytes in hexadecimal.
  The random bytes, or the failure to read them, are the argument.
\<close>

definition hex_digit :: "nat \<Rightarrow> char" where
  "hex_digit n = (if n < 10 then char_of (48 + n) else char_of (87 + n))"

definition hex_value :: "char \<Rightarrow> nat" where
  "hex_value c = (let n = of_char c in if n < 58 then n - 48 else n - 87)"

text \<open>\<open>hex.EncodeToString\<close>\<close>

fun EncodeToString :: "nat list \<Rightarrow> string" where
  "EncodeToString [] = []"
| "EncodeToString (b # bs) = hex_digit (b div 16) # hex_digit (b mod 16) # EncodeToString bs"

fun decode_hex :: "string \<Rightarrow> nat list" where
  "decode_hex (a # b # s) = (16 * hex_value a + hex_value b) # decode_hex s"
| "decode_hex _ = []"

datatype token_error = RandomFailed

definition Mint :: "nat list option \<Rightarrow> token_error + string" where
  "Mint buf = (case buf of None \<Rightarrow> Inl RandomFailed | Some bytes \<Rightarrow> Inr (EncodeToString bytes))"

definition lower_hex :: "char \<Rightarrow> bool" where
  "lower_hex c \<longleftrightarrow> is_digit c \<or> 97 \<le> (of_char c :: nat) \<and> (of_char c :: nat) \<le> 102"

lemma hex_digit_ok: "n < 16 \<Longrightarrow> lower_hex (hex_digit n) \<and> hex_value (hex_digit n) = n"
  by (auto simp: hex_digit_def lower_hex_def hex_value_def is_digit_def Let_def)

lemma decode_encode:
  "list_all (\<lambda>b. b < 256) bs \<Longrightarrow> decode_hex (EncodeToString bs) = bs"
  by (induction bs) (auto simp: hex_digit_ok)

lemma length_EncodeToString [simp]: "length (EncodeToString bs) = 2 * length bs"
  by (induction bs) auto

lemma EncodeToString_lower_hex:
  "list_all (\<lambda>b. b < 256) bs \<Longrightarrow> list_all lower_hex (EncodeToString bs)"
  by (induction bs) (auto simp: hex_digit_ok)

text \<open>
  \<open>Mint\<close> gives 64 lower-case hexadecimal digits that determine the 256 random bits.
\<close>

text \<open>A minted token has 64 characters, all lower-case hexadecimal digits, and decodes to exactly the
  32 random bytes, so distinct random bytes give distinct tokens.\<close>

theorem Mint_spec:
  assumes "length bytes = 32" and "list_all (\<lambda>b. b < 256) bytes"
  shows "\<exists>tok. Mint (Some bytes) = Inr tok \<and> length tok = 64 \<and> list_all lower_hex tok \<and>
           decode_hex tok = bytes"
  using assms by (simp add: Mint_def decode_encode EncodeToString_lower_hex)

theorem Mint_spec_witness:
  "\<exists>tok. Mint (Some (replicate 32 255)) = Inr tok \<and> length tok = 64 \<and> decode_hex tok = replicate 32 255"
  using Mint_spec [of "replicate 32 255"] by (auto simp: list_all_iff)

end
