(* ===== verification/BuildContext.thy ===== *)
theory BuildContext
  imports GoPath
begin

text \<open>
  \<open>internal/assets/assets.go\<close>: the walk over the embedded files that makes the tar stream of the image
  build.  A file system is a tree whose directories and files may fail to be read; the tar writer says
  for each name whether its header can be written.
\<close>

section \<open>Files and entries\<close>

datatype node = RegularFile "string option" | Directory "(string \<times> node) list option"

record tar_entry =
  te_Name :: string
  te_Typeflag :: char
  te_Mode :: nat
  te_Data :: string

datatype context_error = ReadFailed string | HeaderFailed string


definition contains_text :: "string \<Rightarrow> string \<Rightarrow> bool" where
  "contains_text s t \<longleftrightarrow> list_ex (\<lambda>i. take (length t) (drop i s) = t) [0..<Suc (length s)]"

text \<open>\<open>path.Ext\<close>: from the last dot of the last element on.\<close>

definition Ext :: "string \<Rightarrow> string" where
  "Ext p =
     (let base = rev (takeWhile (\<lambda>c. c \<noteq> CHR ''/'') (rev p))
      in if CHR ''.'' \<in> set base then CHR ''.'' # rev (takeWhile (\<lambda>c. c \<noteq> CHR ''.'') (rev base)) else '''')"

definition skip_path :: "string \<Rightarrow> bool" where
  "skip_path p \<longleftrightarrow> contains_text p ''__pycache__'' \<or> Ext p = ''.pyc''"

text \<open>Octal 755 and 644.\<close>

definition fileMode :: "string \<Rightarrow> nat" where
  "fileMode p =
     (if has_suffix p ''.sh'' then 493
      else if p = ''guest/hb'' \<or> has_prefix p ''guest/hb-'' \<or> p = ''guest/tx9-services'' then 493
      else if p = ''guest/hermes-state'' \<or> p = ''guest/tx9-browser'' then 493
      else 420)"

section \<open>The walk\<close>

text \<open>\<open>path.Join\<close> of the path of a directory and the name of an entry.\<close>

definition child :: "string \<Rightarrow> string \<Rightarrow> string" where
  "child p name = (if p = ''.'' then name else p @ ''/'' @ name)"

definition dir_entry :: "string \<Rightarrow> tar_entry" where
  "dir_entry p = \<lparr>te_Name = p @ ''/'', te_Typeflag = CHR ''5'', te_Mode = 493, te_Data = ''''\<rparr>"

definition file_entry :: "string \<Rightarrow> string \<Rightarrow> tar_entry" where
  "file_entry p contents = \<lparr>te_Name = p, te_Typeflag = CHR ''0'', te_Mode = fileMode p, te_Data = contents\<rparr>"

definition write_entry :: "(string \<Rightarrow> bool) \<Rightarrow> tar_entry \<Rightarrow> context_error + tar_entry list" where
  "write_entry header_fails e = (if header_fails (te_Name e) then Inl (HeaderFailed (te_Name e)) else Inr [e])"

text \<open>The function that the walk calls on a path that is not the root.\<close>

fun visit :: "(string \<Rightarrow> bool) \<Rightarrow> string \<Rightarrow> node \<Rightarrow> context_error + tar_entry list" where
  "visit header_fails p (Directory _) = write_entry header_fails (dir_entry p)"
| "visit header_fails p (RegularFile None) = Inl (ReadFailed p)"
| "visit header_fails p (RegularFile (Some contents)) = write_entry header_fails (file_entry p contents)"

fun walk :: "(string \<Rightarrow> bool) \<Rightarrow> string \<Rightarrow> node \<Rightarrow> context_error + tar_entry list"
  and walk_all :: "(string \<Rightarrow> bool) \<Rightarrow> string \<Rightarrow> (string \<times> node) list \<Rightarrow> context_error + tar_entry list" where
  "walk header_fails p (RegularFile contents) =
     (if p = ''.'' \<or> skip_path p then Inr [] else visit header_fails p (RegularFile contents))"
| "walk header_fails p (Directory entries) =
     (if p \<noteq> ''.'' \<and> skip_path p then Inr []
      else result_bind (if p = ''.'' then Inr [] else visit header_fails p (Directory entries)) (\<lambda>es.
        case entries of
          None \<Rightarrow> Inl (ReadFailed p)
        | Some cs \<Rightarrow> result_bind (walk_all header_fails p cs) (\<lambda>fs. Inr (es @ fs))))"
| "walk_all header_fails p [] = Inr []"
| "walk_all header_fails p ((name, t) # cs) =
     result_bind (walk header_fails (child p name) t) (\<lambda>es.
     result_bind (walk_all header_fails p cs) (\<lambda>fs. Inr (es @ fs)))"

definition BuildContextTar :: "(string \<Rightarrow> bool) \<Rightarrow> node \<Rightarrow> context_error + tar_entry list" where
  "BuildContextTar header_fails root = walk header_fails ''.'' root"

section \<open>The reference\<close>

text \<open>Every path of a tree with the paths above it, and the entry it is to have.\<close>

fun listing :: "string list \<Rightarrow> string \<Rightarrow> node \<Rightarrow> (string list \<times> tar_entry) list"
  and listing_all :: "string list \<Rightarrow> string \<Rightarrow> (string \<times> node) list \<Rightarrow> (string list \<times> tar_entry) list" where
  "listing anc p (RegularFile contents) =
     [(anc @ [p], file_entry p (case contents of None \<Rightarrow> '''' | Some c \<Rightarrow> c))]"
| "listing anc p (Directory entries) =
     (anc @ [p], dir_entry p) #
     (case entries of None \<Rightarrow> [] | Some cs \<Rightarrow> listing_all (anc @ [p]) p cs)"
| "listing_all anc p [] = []"
| "listing_all anc p ((name, t) # cs) = listing anc (child p name) t @ listing_all anc p cs"

definition shipped :: "string list \<times> tar_entry \<Rightarrow> bool" where
  "shipped x \<longleftrightarrow> list_all (\<lambda>p. \<not> skip_path p) (fst x)"

lemma listing_chain:
  "list_all (\<lambda>x. \<exists>ys. fst x = anc @ p # ys) (listing anc p t)"
  "list_all (\<lambda>x. \<exists>ys. fst x = anc @ ys) (listing_all anc p cs)"
proof (induction anc p t and anc p cs rule: listing_listing_all.induct)
  case (2 anc p entries)
  then show ?case by (cases entries) (auto simp: list_all_iff)
next
  case (4 anc p name t cs)
  then show ?case unfolding listing_all.simps list_all_append by (auto simp: list_all_iff)
qed simp_all

lemma skipped_ships_nothing:
  assumes "skip_path p"
  shows "filter shipped (listing anc p t) = []"
proof -
  have "\<not> shipped x" if "x \<in> set (listing anc p t)" for x
    using listing_chain(1) [of anc p t] that assms by (force simp: list_all_iff shipped_def)
  then show ?thesis by (simp add: filter_empty_conv)
qed

lemma child_not_root: "p \<noteq> ''.'' \<or> name \<noteq> ''.'' \<Longrightarrow> child p name \<noteq> ''.''"
  by (auto simp: child_def append_eq_Cons_conv)

lemma shipped_self: "list_all (\<lambda>q. \<not> skip_path q) anc \<Longrightarrow> shipped (anc @ [p], e) \<longleftrightarrow> \<not> skip_path p"
  by (simp add: shipped_def)

lemma walk_ships:
  "walk hf p t = Inr es \<Longrightarrow> p \<noteq> ''.'' \<Longrightarrow> list_all (\<lambda>q. \<not> skip_path q) anc \<Longrightarrow>
     es = map snd (filter shipped (listing anc p t))"
  "walk_all hf p cs = Inr es \<Longrightarrow> p \<noteq> ''.'' \<or> list_all (\<lambda>c. fst c \<noteq> ''.'') cs \<Longrightarrow>
     list_all (\<lambda>q. \<not> skip_path q) anc \<Longrightarrow> es = map snd (filter shipped (listing_all anc p cs))"
proof (induction hf p t and hf p cs arbitrary: es anc and es anc rule: walk_walk_all.induct)
  case (1 hf p contents)
  then show ?case
    by (cases contents) (auto simp: shipped_self skipped_ships_nothing write_entry_def split: if_splits)
next
  case (2 hf p entries)
  show ?case
  proof (cases "skip_path p")
    case True
    then show ?thesis using 2(2,3) skipped_ships_nothing [OF True, of anc "Directory entries"] by simp
  next
    case False
    then obtain ds cs fs where w: "write_entry hf (dir_entry p) = Inr ds" "entries = Some cs"
        "walk_all hf p cs = Inr fs" "es = ds @ fs"
      using 2(2,3) by (auto simp: result_bind_Inr_iff split: option.splits)
    have "fs = map snd (filter shipped (listing_all (anc @ [p]) p cs))"
      using 2 w False by (intro 2(1)) (auto simp: write_entry_def split: if_splits)
    then show ?thesis using w False 2(4) by (auto simp: shipped_self write_entry_def split: if_splits)
  qed
next
  case (4 hf p name t cs)
  then obtain as bs where w: "walk hf (child p name) t = Inr as" "walk_all hf p cs = Inr bs" "es = as @ bs"
    by (auto simp: result_bind_Inr_iff)
  have "as = map snd (filter shipped (listing anc (child p name) t))"
    using 4(4,5) w child_not_root [of p name] by (intro 4(1)) auto
  moreover have "bs = map snd (filter shipped (listing_all anc p cs))"
    using 4 w by (intro 4(2)) auto
  ultimately show ?case using w(3) by simp
qed simp_all

text \<open>The build context is the listing of the tree without what lies below or is a bytecode cache.\<close>

lemma context_ships:
  assumes "BuildContextTar header_fails (Directory (Some cs)) = Inr es" and "list_all (\<lambda>c. fst c \<noteq> ''.'') cs"
  shows "es = map snd (filter shipped (listing_all [] ''.'' cs))"
  using assms walk_ships(2) [of header_fails "''.''" cs es "[]"]
  by (auto simp: BuildContextTar_def result_bind_Inr_iff)

definition demo_tree :: "(string \<times> node) list" where
  "demo_tree = [(''box.env'', RegularFile (Some ''x'')),
     (''guest'', Directory (Some [(''__pycache__'', Directory (Some [(''a'', RegularFile None)])),
        (''hb'', RegularFile (Some ''y'')), (''m.pyc'', RegularFile None)]))]"

lemma context_ships_witness:
  "BuildContextTar (\<lambda>n. False) (Directory (Some demo_tree)) =
     Inr [file_entry ''box.env'' ''x'', dir_entry ''guest'', file_entry ''guest/hb'' ''y''] \<and>
   [file_entry ''box.env'' ''x'', dir_entry ''guest'', file_entry ''guest/hb'' ''y''] =
     map snd (filter shipped (listing_all [] ''.'' demo_tree))"
proof
  show run: "BuildContextTar (\<lambda>n. False) (Directory (Some demo_tree)) =
     Inr [file_entry ''box.env'' ''x'', dir_entry ''guest'', file_entry ''guest/hb'' ''y'']"
    by code_simp
  show "[file_entry ''box.env'' ''x'', dir_entry ''guest'', file_entry ''guest/hb'' ''y''] =
     map snd (filter shipped (listing_all [] ''.'' demo_tree))"
    by (rule context_ships [OF run]) code_simp
qed

end
