(* ===== verification/World.thy ===== *)
theory World
  imports LocalFiles Lock Resources Mounts ExecutorConfig Token BuildContext
begin

text \<open>
  What a tx9 process acts on: the Docker daemon, the files under \<open>~/.tx9\<close> and the lock
  table.  The daemon is a parameter: a record of functions that answer a call from the
  history of all calls so far, so a theorem that holds for every such record holds for
  every daemon, whatever it does between two calls.  Each call and whether it succeeded
  is appended to the history, which is what the ordering and safety properties speak of.
  The wrappers of \<open>internal/docker/client.go\<close> and the I/O ends of the settings
  components are computations over this world.
\<close>

section \<open>The daemon\<close>

type_synonym labels = "string \<rightharpoonup> string"

text \<open>Reading a Go map: a missing key is the empty string.\<close>

definition label_at :: "labels \<Rightarrow> string \<Rightarrow> string" where
  "label_at m k = (case m k of None \<Rightarrow> '''' | Some v \<Rightarrow> v)"

record ContainerSpec =
  spec_Name :: string
  spec_Image :: string
  spec_Entrypoint :: "string list"
  spec_Env :: "string list"
  spec_Labels :: labels
  spec_Hostname :: string
  spec_NetworkID :: string
  spec_NetworkAliases :: "string list"
  spec_Binds :: "string list"
  spec_GroupAdd :: "string list"
  spec_ExposedPorts :: "string list"
  spec_PortBindings :: "(string \<times> (string \<times> string) list) list"
  spec_DNS :: "string list"
  spec_Sysctls :: "(string \<times> string) list"
  spec_NanoCPUs :: int
  spec_MemoryBytes :: int

datatype api_error = NotFound | Refused string

text \<open>
  An inspect response has pointers that may be nil: \<open>ContainerJSONBase\<close> and in it
  \<open>State\<close> and \<open>HostConfig\<close>, then \<open>Config\<close> and \<open>NetworkSettings\<close>.
\<close>

record container_base =
  cb_ID :: string
  cb_Image :: string
  cb_Running :: "bool option"
  cb_Host :: "ContainerResources option"

record container_json =
  cj_Base :: "container_base option"
  cj_Labels :: "labels option"
  cj_Ports :: "(string \<rightharpoonup> (string \<times> string) list) option"
  cj_ConfigImage :: string

record container_summary =
  cs_ID :: string
  cs_Image :: string
  cs_ImageID :: string
  cs_Labels :: labels
  cs_State :: string

record network_json =
  nj_ID :: string
  nj_Labels :: labels

record volume_usage =
  vu_Name :: string
  vu_Driver :: string
  vu_Size :: "int option"

record ExecResult =
  Stdout :: string
  Stderr :: string
  ExitCode :: int

datatype call =
    Connect
  | InspectContainer string
  | ListContainers
  | StartContainer string
  | StopContainer string
  | RemoveContainer string
  | CreateContainer ContainerSpec int
  | UpdateContainer string int int int
  | InspectNetwork string
  | CreateNetwork string labels
  | RemoveNetwork string
  | InspectVolume string
  | CreateVolume string labels
  | RemoveVolume string
  | InspectImage string
  | BuildImage string "tar_entry list"
  | ListImages string
  | RemoveImage string
  | RunExec string "string list" string
  | RunEphemeral string "string list" "string list" "string list" "string list" "string option"
  | DiskUsage
  | Sleep
  | ReadDir
  | ReadEnv string
  | WriteEnv string
  | RemoveEnv string
  | HttpGet string

type_synonym history = "(call \<times> bool) list"

text \<open>An image of a listing: its ID and its tags.\<close>

record image_summary =
  im_ID :: string
  im_Tags :: "string list"

record engine =
  eng_connect :: "history \<Rightarrow> api_error + unit"
  eng_inspect :: "history \<Rightarrow> string \<Rightarrow> api_error + container_json"
  eng_list :: "history \<Rightarrow> api_error + container_summary list"
  eng_start :: "history \<Rightarrow> string \<Rightarrow> api_error + unit"
  eng_stop :: "history \<Rightarrow> string \<Rightarrow> api_error + unit"
  eng_remove :: "history \<Rightarrow> string \<Rightarrow> api_error + unit"
  eng_create :: "history \<Rightarrow> ContainerSpec \<Rightarrow> int \<Rightarrow> api_error + string"
  eng_update :: "history \<Rightarrow> string \<Rightarrow> int \<Rightarrow> int \<Rightarrow> int \<Rightarrow> api_error + string list"
  eng_inspect_network :: "history \<Rightarrow> string \<Rightarrow> api_error + network_json"
  eng_create_network :: "history \<Rightarrow> string \<Rightarrow> labels \<Rightarrow> api_error + string"
  eng_remove_network :: "history \<Rightarrow> string \<Rightarrow> api_error + unit"
  eng_inspect_volume :: "history \<Rightarrow> string \<Rightarrow> api_error + labels"
  eng_create_volume :: "history \<Rightarrow> string \<Rightarrow> labels \<Rightarrow> api_error + string"
  eng_remove_volume :: "history \<Rightarrow> string \<Rightarrow> api_error + unit"
  eng_inspect_image :: "history \<Rightarrow> string \<Rightarrow> api_error + unit"
  eng_build_image :: "history \<Rightarrow> string \<Rightarrow> tar_entry list \<Rightarrow> api_error + unit"
  eng_list_images :: "history \<Rightarrow> string \<Rightarrow> api_error + image_summary list"
  eng_remove_image :: "history \<Rightarrow> string \<Rightarrow> api_error + unit"
  eng_exec :: "history \<Rightarrow> string \<Rightarrow> string list \<Rightarrow> string \<Rightarrow> api_error + ExecResult"
  eng_ephemeral ::
    "history \<Rightarrow> string \<Rightarrow> string list \<Rightarrow> string list \<Rightarrow> string list \<Rightarrow> string list \<Rightarrow> string option
       \<Rightarrow> api_error + (int \<times> string)"
  eng_disk_usage :: "history \<Rightarrow> api_error + volume_usage option list"

text \<open>
  The host around it: the home directory, which file operations fail, the names
  \<open>CreateTemp\<close> draws, the mount table, and the version the binary was built with.
\<close>

record system =
  daemon :: engine
  host :: host
  unreadable :: "history \<Rightarrow> string \<Rightarrow> bool"
  write_fails :: "history \<Rightarrow> write_call \<Rightarrow> bool"
  write_partial :: "history \<Rightarrow> string"
  write_rnd :: "history \<Rightarrow> nat"
  remove_fails :: "history \<Rightarrow> bool"
  read_dir :: "history \<Rightarrow> (string \<times> bool) list option"
  lock_opens :: "history \<Rightarrow> bool"
  lock_works :: "history \<Rightarrow> bool"
  random_draws :: "history \<Rightarrow> nat \<Rightarrow> nat"
  random_bytes :: "history \<Rightarrow> nat list option"
  mounts_at :: "history \<Rightarrow> mount_host"
  cancelled :: "history \<Rightarrow> bool"
  marshal :: "AgentMount list \<Rightarrow> string"
  unmarshal :: "string \<Rightarrow> AgentMount list option"
  netlib :: net_lib
  getenv :: "string \<Rightarrow> string"
  Version :: string
  build_files :: node
  bad_header :: "string \<Rightarrow> bool"

record world =
  events :: history
  disk :: files
  locks :: lock_world

datatype tx9_error =
    NameErr name_error
  | EnvErr env_error
  | LockErr lock_error
  | ResErr resource_error
  | MountErr mount_error
  | ConfErr config_error
  | TokenErr token_error
  | GenerateErr generate_error
  | Docker api_error
  | SwapErr int
  | Transition role resource_kind
  | NotOwned string
  | ObjectsExist string string
  | NoObjectID string
  | BoxNotFound string
  | BoxExists string
  | NoToken string
  | MissingContainer string
  | NoHostConfig string
  | NoState string
  | NoImageID string
  | NoNetworkSettings string
  | NotPublished string
  | OldImageStopped string
  | BadProbeExit int
  | HBExit int
  | BadQuiesceOutput string
  | Cancelled
  | NotRunning string
  | Usage string
  | NotConfirmed
  | NoFreshName
  | ReadDirErr
  | Incomplete string
  | TargetTaken string
  | Joined "tx9_error list"
  | NilDereference
  | LocalErr local_error
  | TarExited int
  | RestoreExited int
  | HelperExited int
  | NoBoxImage "tx9_error list"
  | BadURL string
  | ProbeFailed string
  | ProbeAnswer string int
  | Unreachable string tx9_error
  | DoctorFailed "tx9_error list"
  | ContextErr context_error

type_synonym 'a tx9 = "(world, tx9_error, 'a) comp"

section \<open>Calls\<close>

definition logged :: "call \<Rightarrow> bool \<Rightarrow> world \<Rightarrow> world" where
  "logged c ok w = w\<lparr>events := events w @ [(c, ok)]\<rparr>"

definition api :: "call \<Rightarrow> (history \<Rightarrow> api_error + 'a) \<Rightarrow> 'a tx9" where
  "api c f w = (let r = f (events w) in (map_error Docker r, logged c (\<not> isl r) w))"

definition NewClient :: "system \<Rightarrow> unit tx9" where
  "NewClient E = api Connect (eng_connect (daemon E))"

text \<open>\<open>ImageExists\<close>: not found is the answer no.\<close>

definition ImageExists :: "system \<Rightarrow> string \<Rightarrow> bool tx9" where
  "ImageExists E tag =
     bind_comp (attempt (api (InspectImage tag) (\<lambda>h. eng_inspect_image (daemon E) h tag)))
       (\<lambda>r. case r of
          Inr _ \<Rightarrow> ret True
        | Inl e \<Rightarrow> if e = Docker NotFound then ret False else fail e)"

definition ImageBuild :: "system \<Rightarrow> tar_entry list \<Rightarrow> string \<Rightarrow> unit tx9" where
  "ImageBuild E buildContext tag =
     api (BuildImage tag buildContext) (\<lambda>h. eng_build_image (daemon E) h tag buildContext)"

definition ListBoxContainers :: "system \<Rightarrow> container_summary list tx9" where
  "ListBoxContainers E = api ListContainers (eng_list (daemon E))"

definition NetworkInspect :: "system \<Rightarrow> string \<Rightarrow> network_json tx9" where
  "NetworkInspect E name = api (InspectNetwork name) (\<lambda>h. eng_inspect_network (daemon E) h name)"

definition NetworkCreate :: "system \<Rightarrow> string \<Rightarrow> labels \<Rightarrow> string tx9" where
  "NetworkCreate E name ls =
     api (CreateNetwork name ls) (\<lambda>h. eng_create_network (daemon E) h name ls)"

definition NetworkRemove :: "system \<Rightarrow> string \<Rightarrow> unit tx9" where
  "NetworkRemove E i = api (RemoveNetwork i) (\<lambda>h. eng_remove_network (daemon E) h i)"

definition VolumeInspect :: "system \<Rightarrow> string \<Rightarrow> labels tx9" where
  "VolumeInspect E name = api (InspectVolume name) (\<lambda>h. eng_inspect_volume (daemon E) h name)"

definition VolumeCreate :: "system \<Rightarrow> string \<Rightarrow> labels \<Rightarrow> string tx9" where
  "VolumeCreate E name ls = api (CreateVolume name ls) (\<lambda>h. eng_create_volume (daemon E) h name ls)"

definition VolumeRemove :: "system \<Rightarrow> string \<Rightarrow> unit tx9" where
  "VolumeRemove E name = api (RemoveVolume name) (\<lambda>h. eng_remove_volume (daemon E) h name)"

definition ContainerStart :: "system \<Rightarrow> string \<Rightarrow> unit tx9" where
  "ContainerStart E i = api (StartContainer i) (\<lambda>h. eng_start (daemon E) h i)"

definition ContainerStop :: "system \<Rightarrow> string \<Rightarrow> unit tx9" where
  "ContainerStop E i = api (StopContainer i) (\<lambda>h. eng_stop (daemon E) h i)"

definition ContainerRemove :: "system \<Rightarrow> string \<Rightarrow> unit tx9" where
  "ContainerRemove E i = api (RemoveContainer i) (\<lambda>h. eng_remove (daemon E) h i)"

definition ContainerInspect :: "system \<Rightarrow> string \<Rightarrow> container_json tx9" where
  "ContainerInspect E i = api (InspectContainer i) (\<lambda>h. eng_inspect (daemon E) h i)"

text \<open>The swap limit is checked before the daemon is called.\<close>

definition ContainerCreate :: "system \<Rightarrow> ContainerSpec \<Rightarrow> string tx9" where
  "ContainerCreate E spec =
     (case defaultMemorySwapLimit (spec_MemoryBytes spec) of
        Inl m \<Rightarrow> fail (SwapErr m)
      | Inr swap \<Rightarrow> api (CreateContainer spec swap) (\<lambda>h. eng_create (daemon E) h spec swap))"

definition ContainerUpdateResources :: "system \<Rightarrow> string \<Rightarrow> int \<Rightarrow> int \<Rightarrow> string list tx9" where
  "ContainerUpdateResources E i nanoCPUs memoryBytes =
     (case defaultMemorySwapLimit memoryBytes of
        Inl m \<Rightarrow> fail (SwapErr m)
      | Inr swap \<Rightarrow>
          api (UpdateContainer i nanoCPUs memoryBytes swap)
            (\<lambda>h. eng_update (daemon E) h i nanoCPUs memoryBytes swap))"

definition ImageList :: "system \<Rightarrow> string \<Rightarrow> image_summary list tx9" where
  "ImageList E ref = api (ListImages ref) (\<lambda>h. eng_list_images (daemon E) h ref)"

definition ImageRemove :: "system \<Rightarrow> string \<Rightarrow> unit tx9" where
  "ImageRemove E ref = api (RemoveImage ref) (\<lambda>h. eng_remove_image (daemon E) h ref)"

text \<open>\<open>Exec\<close> waits for the command to finish; its output and exit code are the daemon's.\<close>

definition Exec :: "system \<Rightarrow> string \<Rightarrow> string list \<Rightarrow> string \<Rightarrow> ExecResult tx9" where
  "Exec E i cmd user = api (RunExec i cmd user) (\<lambda>h. eng_exec (daemon E) h i cmd user)"

definition Ephemeral ::
  "system \<Rightarrow> string \<Rightarrow> string list \<Rightarrow> string list \<Rightarrow> string list \<Rightarrow> string list \<Rightarrow> string option
     \<Rightarrow> (int \<times> string) tx9" where
  "Ephemeral E img entry cmd env binds stdin =
     api (RunEphemeral img entry cmd env binds stdin)
       (\<lambda>h. eng_ephemeral (daemon E) h img entry cmd env binds stdin)"

section \<open>Volume usage\<close>

text \<open>
  \<open>VolumeUsage\<close>: one usage report for the wanted names, -1 where there is none; a warning
  is the volume it is about.  With no names every volume is reported.
\<close>

definition wanted_names :: "string list \<Rightarrow> string list" where
  "wanted_names ns = rev (remdups (rev (filter (\<lambda>n. n \<noteq> '''') ns)))"

fun usage_loop ::
  "bool \<Rightarrow> string list \<Rightarrow> volume_usage option list \<Rightarrow> (string \<times> int) list \<Rightarrow> string list
     \<Rightarrow> (string \<times> int) list \<times> string list \<times> string list" where
  "usage_loop filtered wanted [] res warn = (res, warn, wanted)"
| "usage_loop filtered wanted (None # vs) res warn = usage_loop filtered wanted vs res warn"
| "usage_loop filtered wanted (Some v # vs) res warn =
     (if vu_Name v = '''' \<or> filtered \<and> vu_Name v \<notin> set wanted
        then usage_loop filtered wanted vs res warn
      else let rest = removeAll (vu_Name v) wanted in
        case vu_Size v of
          None \<Rightarrow>
            usage_loop filtered rest vs (AList.update (vu_Name v) (-1) res) (warn @ [vu_Name v])
        | Some s \<Rightarrow>
            usage_loop filtered rest vs (AList.update (vu_Name v) s res)
              (if s < 0 then warn @ [vu_Name v] else warn))"

definition volume_usage_of ::
  "string list \<Rightarrow> volume_usage option list \<Rightarrow> (string \<times> int) list \<times> string list" where
  "volume_usage_of names vs =
     (let wanted = wanted_names names in
      case usage_loop (wanted \<noteq> []) wanted vs [] [] of
        (res, warn, missing) \<Rightarrow>
          (fold (\<lambda>n. AList.update n (-1)) missing res, warn @ missing))"

definition VolumeUsage :: "system \<Rightarrow> string list \<Rightarrow> ((string \<times> int) list \<times> string list) tx9" where
  "VolumeUsage E names =
     bind_comp (api DiskUsage (eng_disk_usage (daemon E))) (\<lambda>vs. ret (volume_usage_of names vs))"

section \<open>The env file\<close>

definition ReadEnvFile :: "system \<Rightarrow> string \<Rightarrow> env tx9" where
  "ReadEnvFile E name w =
     (let r = ReadBoxEnv (host E) (unreadable E (events w)) (disk w) name
      in (map_error EnvErr r, logged (ReadEnv name) (\<not> isl r) w))"

definition WriteEnvFile :: "system \<Rightarrow> string \<Rightarrow> env \<Rightarrow> unit tx9" where
  "WriteEnvFile E name env w =
     (let h = events w;
          (r, states) = WriteBoxEnv (host E) (write_fails E h) (write_partial E h) (write_rnd E h)
                          (disk w) name env
      in (map_error EnvErr r, (logged (WriteEnv name) (\<not> isl r) w)\<lparr>disk := last states\<rparr>))"

definition RemoveEnvFile :: "system \<Rightarrow> string \<Rightarrow> unit tx9" where
  "RemoveEnvFile E name w =
     (let (r, fs) = RemoveBoxEnv (host E) (remove_fails E (events w)) (disk w) name
      in (map_error EnvErr r, (logged (RemoveEnv name) (\<not> isl r) w)\<lparr>disk := fs\<rparr>))"

definition update_env :: "system \<Rightarrow> string \<Rightarrow> (env \<Rightarrow> env) \<Rightarrow> unit tx9" where
  "update_env E name f = bind_comp (ReadEnvFile E name) (\<lambda>env. WriteEnvFile E name (f env))"

definition LoadResources :: "system \<Rightarrow> string \<Rightarrow> Resources tx9" where
  "LoadResources E name =
     bind_comp (ReadEnvFile E name) (\<lambda>env. lift_result (map_error ResErr (resources_of_env env)))"

definition SaveResources :: "system \<Rightarrow> string \<Rightarrow> Resources \<Rightarrow> unit tx9" where
  "SaveResources E name r =
     bind_comp (lift_result (map_error ResErr (ValidateResources r))) (\<lambda>_.
       update_env E name (put_resources r))"

definition ResetResources :: "system \<Rightarrow> string \<Rightarrow> unit tx9" where
  "ResetResources E name = update_env E name delete_resources"

definition LoadAgentMounts :: "system \<Rightarrow> string \<Rightarrow> AgentMount list tx9" where
  "LoadAgentMounts E name =
     bind_comp (ReadEnvFile E name) (\<lambda>env.
       lift_result (map_error MountErr (mounts_of_env (unmarshal E) env)))"

definition SaveAgentMounts :: "system \<Rightarrow> string \<Rightarrow> AgentMount list \<Rightarrow> unit tx9" where
  "SaveAgentMounts E name ms =
     bind_comp (lift_result (map_error MountErr (validateAgentMountSet ms))) (\<lambda>_.
       update_env E name (put_mounts (marshal E) ms))"

definition LoadExecutorConfig :: "system \<Rightarrow> string \<Rightarrow> ExecutorConfigOverrides \<Rightarrow> ExecutorConfig tx9" where
  "LoadExecutorConfig E name ov =
     (if reads_stored ov then
        bind_comp (ReadEnvFile E name) (\<lambda>env.
          lift_result (map_error ConfErr (executor_config_of_env (netlib E) (getenv E) ov env)))
      else lift_result (map_error ConfErr (executor_config_of_env (netlib E) (getenv E) ov [])))"

definition SaveExecutorConfig :: "system \<Rightarrow> string \<Rightarrow> string \<Rightarrow> ExecutorConfig \<Rightarrow> unit tx9" where
  "SaveExecutorConfig E name token cfg = update_env E name (put_executor token cfg)"

text \<open>\<open>box.Token\<close>.\<close>

definition BoxToken :: "system \<Rightarrow> string \<Rightarrow> string tx9" where
  "BoxToken E name =
     bind_comp (ReadEnvFile E name) (\<lambda>env.
       let tok = lookup_string env TokenEnv
       in if tok = '''' then fail (NoToken name) else ret tok)"

text \<open>\<open>prepareAgentMounts\<close> looks at the host as it is when it runs.\<close>

definition PrepareMounts :: "system \<Rightarrow> AgentMount list \<Rightarrow> (string list \<times> string list) tx9" where
  "PrepareMounts E ms w = (map_error MountErr (prepareAgentMounts (mounts_at E (events w)) ms), w)"

text \<open>\<open>errors.Join\<close>: nil when every error is.\<close>

definition join_errors :: "tx9_error list \<Rightarrow> tx9_error + unit" where
  "join_errors es = (if es = [] then Inr () else Inl (Joined es))"

end
