(* ===== verification/Box.thy ===== *)
theory Box
  imports World
begin

text \<open>
  \<open>internal/box/box.go\<close>, \<open>internal/box/objects.go\<close>, \<open>internal/box/create.go\<close>, the
  daemon-facing part of \<open>internal/box/resources.go\<close> and \<open>internal/docker/labels.go\<close>: the
  life cycle of a box over the world of \<open>World\<close>.  Definitions only; their properties are
  in \<open>BoxSafety\<close>.
\<close>

section \<open>Names and labels\<close>

definition LabelManaged :: string where "LabelManaged = ''tx9''"
definition LabelBox :: string where "LabelBox = ''tx9.box''"
definition LabelVersion :: string where "LabelVersion = ''tx9.version''"
definition LabelRole :: string where "LabelRole = ''tx9.role''"
definition LabelExecutorWebBaseURL :: string where
  "LabelExecutorWebBaseURL = ''tx9.executor-web-base-url''"

lemmas label_defs = LabelManaged_def LabelBox_def LabelVersion_def LabelRole_def
  LabelExecutorWebBaseURL_def

definition agent_role :: string where "agent_role = ''agent''"
definition executor_role :: string where "executor_role = ''executor''"

definition BoxLabels :: "string \<Rightarrow> string \<Rightarrow> string \<Rightarrow> labels" where
  "BoxLabels name version who =
     (let ls = [LabelManaged \<mapsto> ''1'', LabelBox \<mapsto> name, LabelVersion \<mapsto> version]
      in if who \<noteq> '''' then ls(LabelRole \<mapsto> who) else ls)"

definition agent_container :: "string \<Rightarrow> string" where
  "agent_container name = ''tx9-'' @ name @ ''-agent''"
definition executor_container :: "string \<Rightarrow> string" where
  "executor_container name = ''tx9-'' @ name @ ''-executor''"
definition ContainerNames :: "string \<Rightarrow> string \<times> string" where
  "ContainerNames name = (agent_container name, executor_container name)"

definition NetworkName :: "string \<Rightarrow> string" where
  "NetworkName name = ''tx9-'' @ name"

definition agent_volume :: "string \<Rightarrow> string" where
  "agent_volume name = ''tx9-'' @ name @ ''-agent-data''"
definition executor_volume :: "string \<Rightarrow> string" where
  "executor_volume name = ''tx9-'' @ name @ ''-exec-data''"
definition VolumeNames :: "string \<Rightarrow> string \<times> string" where
  "VolumeNames name = (agent_volume name, executor_volume name)"

definition ownedByBox :: "labels \<Rightarrow> string \<Rightarrow> bool" where
  "ownedByBox ls name \<longleftrightarrow> label_at ls LabelManaged = ''1'' \<and> label_at ls LabelBox = name"

definition executorPort :: string where "executorPort = ''4788/tcp''"

section \<open>Boxes of the daemon\<close>

record Box =
  b_Name :: string
  AgentID :: string
  ExecutorID :: string
  AgentState :: string
  ExecutorState :: string
  ExecutorWebBaseURL :: string
  b_Version :: string

definition empty_box :: "string \<Rightarrow> Box" where
  "empty_box name = \<lparr>b_Name = name, AgentID = '''', ExecutorID = '''', AgentState = '''',
     ExecutorState = '''', ExecutorWebBaseURL = '''', b_Version = ''''\<rparr>"

definition DerivedState :: "Box \<Rightarrow> string" where
  "DerivedState b =
     (if AgentID b = '''' \<or> ExecutorID b = '''' then ''crashed''
      else let agentUp = AgentState b = ''running''; execUp = ExecutorState b = ''running'' in
        if agentUp \<and> execUp then ''running''
        else if \<not> agentUp \<and> \<not> execUp then ''stopped''
        else ''mixed'')"

text \<open>One round of the loop of \<open>List\<close>; the map from names to boxes is an association list.\<close>

definition add_container :: "container_summary \<Rightarrow> Box \<Rightarrow> Box" where
  "add_container c b =
     (let v = label_at (cs_Labels c) LabelVersion;
          b = (if v \<noteq> '''' then b\<lparr>b_Version := v\<rparr> else b);
          who = label_at (cs_Labels c) LabelRole
      in if who = agent_role then b\<lparr>AgentID := cs_ID c, AgentState := cs_State c\<rparr>
         else if who = executor_role then
           b\<lparr>ExecutorID := cs_ID c, ExecutorState := cs_State c,
             ExecutorWebBaseURL := label_at (cs_Labels c) LabelExecutorWebBaseURL\<rparr>
         else b)"

definition list_step ::
  "(string \<times> Box) list \<Rightarrow> container_summary \<Rightarrow> (string \<times> Box) list" where
  "list_step byName c =
     (let name = label_at (cs_Labels c) LabelBox in
      if name = '''' then byName
      else let b = (case map_of byName name of None \<Rightarrow> empty_box name | Some b \<Rightarrow> b)
           in AList.update name (add_container c b) byName)"

definition boxes_of :: "container_summary list \<Rightarrow> Box list" where
  "boxes_of cs =
     (let byName = foldl list_step [] cs
      in map (\<lambda>n. the (map_of byName n)) (sort (map fst byName)))"

definition List :: "system \<Rightarrow> Box list tx9" where
  "List E = bind_comp (ListBoxContainers E) (\<lambda>cs. ret (boxes_of cs))"

definition Get :: "system \<Rightarrow> string \<Rightarrow> Box tx9" where
  "Get E name =
     bind_comp (List E) (\<lambda>bs.
       case find (\<lambda>b. b_Name b = name) bs of
         None \<Rightarrow> fail (BoxNotFound name)
       | Some b \<Rightarrow> ret b)"

definition Exists :: "system \<Rightarrow> string \<Rightarrow> bool tx9" where
  "Exists E name =
     bind_comp (attempt (Get E name)) (\<lambda>r.
       case r of
         Inr _ \<Rightarrow> ret True
       | Inl (BoxNotFound n) \<Rightarrow> ret False
       | Inl e \<Rightarrow> fail e)"

definition Start :: "system \<Rightarrow> Box \<Rightarrow> unit tx9" where
  "Start E b =
     (if AgentID b = '''' \<or> ExecutorID b = '''' then fail (MissingContainer (b_Name b))
      else bind_comp (ContainerStart E (ExecutorID b)) (\<lambda>_. ContainerStart E (AgentID b)))"

text \<open>A step whose error is collected and does not stop the function.\<close>

definition collect :: "unit tx9 \<Rightarrow> (tx9_error list) tx9" where
  "collect m = bind_comp (attempt m) (\<lambda>r. ret (case r of Inl e \<Rightarrow> [e] | Inr _ \<Rightarrow> []))"

definition Stop :: "system \<Rightarrow> Box \<Rightarrow> unit tx9" where
  "Stop E b =
     bind_comp (if AgentID b \<noteq> '''' then collect (ContainerStop E (AgentID b)) else ret []) (\<lambda>e1.
     bind_comp (if ExecutorID b \<noteq> '''' then collect (ContainerStop E (ExecutorID b)) else ret []) (\<lambda>e2.
     lift_result (join_errors (e1 @ e2))))"

definition HostBinding :: "system \<Rightarrow> Box \<Rightarrow> (string \<times> string) tx9" where
  "HostBinding E b =
     (if ExecutorID b = '''' then fail (MissingContainer (b_Name b))
      else bind_comp (ContainerInspect E (ExecutorID b)) (\<lambda>j.
        case cj_Ports j of
          None \<Rightarrow> fail (NoNetworkSettings (b_Name b))
        | Some ports \<Rightarrow>
            (case ports executorPort of
               Some (x # _) \<Rightarrow> ret x
             | _ \<Rightarrow> fail (NotPublished (b_Name b)))))"

definition HostPort :: "system \<Rightarrow> Box \<Rightarrow> string tx9" where
  "HostPort E b = bind_comp (HostBinding E b) (\<lambda>(_, port). ret port)"

text \<open>
  \<open>URLHost\<close>: the override, then the first Tailscale address among the interface addresses,
  then the outbound address, then the host name.
\<close>

definition tailscale_contains :: "ipv4 \<Rightarrow> bool" where
  "tailscale_contains ip = (case ip of (a, b, _, _) \<Rightarrow> a = 100 \<and> and b 192 = 64)"

definition tailscaleIP :: "ipv4 option list \<Rightarrow> string" where
  "tailscaleIP addrs =
     (case find (\<lambda>a. case a of None \<Rightarrow> False | Some ip \<Rightarrow> tailscale_contains ip) addrs of
        Some (Some ip) \<Rightarrow> show_ip ip
      | _ \<Rightarrow> '''')"

definition URLHost :: "string \<Rightarrow> ipv4 option list \<Rightarrow> string \<Rightarrow> string \<Rightarrow> string" where
  "URLHost override addrs outbound hostname =
     (if override \<noteq> '''' then override
      else if tailscaleIP addrs \<noteq> '''' then tailscaleIP addrs
      else if outbound \<noteq> '''' then outbound
      else if hostname \<noteq> '''' then hostname
      else ''localhost'')"

definition DashboardURL :: "string \<Rightarrow> string \<Rightarrow> string \<Rightarrow> string" where
  "DashboardURL urlHost port webBaseURL =
     (if webBaseURL \<noteq> '''' then trim_right_slashes webBaseURL @ ''/''
      else ''http://'' @ urlHost @ '':'' @ port @ ''/'')"

section \<open>Networks and volumes\<close>

definition ensureNetwork :: "system \<Rightarrow> string \<Rightarrow> string \<Rightarrow> string \<Rightarrow> string tx9" where
  "ensureNetwork E netName boxName ver =
     bind_comp (attempt (NetworkInspect E netName)) (\<lambda>r.
       case r of
         Inr n \<Rightarrow> if ownedByBox (nj_Labels n) boxName then ret (nj_ID n) else fail (NotOwned netName)
       | Inl e \<Rightarrow>
           if e = Docker NotFound then NetworkCreate E netName (BoxLabels boxName ver '''')
           else fail e)"

definition ensureVolume :: "system \<Rightarrow> string \<Rightarrow> string \<Rightarrow> string \<Rightarrow> string tx9" where
  "ensureVolume E volName boxName ver =
     bind_comp (attempt (VolumeInspect E volName)) (\<lambda>r.
       case r of
         Inr ls \<Rightarrow> if ownedByBox ls boxName then ret volName else fail (NotOwned volName)
       | Inl e \<Rightarrow>
           if e = Docker NotFound then VolumeCreate E volName (BoxLabels boxName ver '''')
           else fail e)"

section \<open>Preflights\<close>

text \<open>An inspection that must find nothing.\<close>

definition must_be_absent :: "string \<Rightarrow> string \<Rightarrow> 'a tx9 \<Rightarrow> unit tx9" where
  "must_be_absent kind name m =
     bind_comp (attempt m) (\<lambda>r.
       case r of
         Inr _ \<Rightarrow> fail (ObjectsExist kind name)
       | Inl e \<Rightarrow> if e = Docker NotFound then ret () else fail e)"

definition PreflightFreshObjects :: "system \<Rightarrow> string \<Rightarrow> unit tx9" where
  "PreflightFreshObjects E name =
     bind_comp (lift_result (map_error NameErr (Validate name))) (\<lambda>_.
     bind_comp (must_be_absent ''container'' (agent_container name)
       (ContainerInspect E (agent_container name))) (\<lambda>_.
     bind_comp (must_be_absent ''container'' (executor_container name)
       (ContainerInspect E (executor_container name))) (\<lambda>_.
     bind_comp (must_be_absent ''network'' (NetworkName name)
       (NetworkInspect E (NetworkName name))) (\<lambda>_.
     bind_comp (must_be_absent ''volume'' (agent_volume name)
       (VolumeInspect E (agent_volume name))) (\<lambda>_.
     must_be_absent ''volume'' (executor_volume name)
       (VolumeInspect E (executor_volume name)))))))"

definition inspectOwnedContainer :: "system \<Rightarrow> string \<Rightarrow> string \<Rightarrow> string tx9" where
  "inspectOwnedContainer E ref name =
     bind_comp (attempt (ContainerInspect E ref)) (\<lambda>r.
       case r of
         Inl e \<Rightarrow> if e = Docker NotFound then ret '''' else fail e
       | Inr j \<Rightarrow>
           (case cj_Labels j of
              None \<Rightarrow> fail (NotOwned ref)
            | Some ls \<Rightarrow>
                if \<not> ownedByBox ls name then fail (NotOwned ref)
                else (case cj_Base j of
                        None \<Rightarrow> fail (NoObjectID ref)
                      | Some base \<Rightarrow>
                          if cb_ID base = '''' then fail (NoObjectID ref) else ret (cb_ID base))))"

definition inspectOwnedNetwork :: "system \<Rightarrow> string \<Rightarrow> string \<Rightarrow> string tx9" where
  "inspectOwnedNetwork E network name =
     bind_comp (attempt (NetworkInspect E network)) (\<lambda>r.
       case r of
         Inl e \<Rightarrow> if e = Docker NotFound then ret '''' else fail e
       | Inr n \<Rightarrow>
           if \<not> ownedByBox (nj_Labels n) name then fail (NotOwned network)
           else if nj_ID n = '''' then fail (NoObjectID network)
           else ret (nj_ID n))"

definition inspectOwnedVolume :: "system \<Rightarrow> string \<Rightarrow> string \<Rightarrow> string tx9" where
  "inspectOwnedVolume E volume name =
     bind_comp (attempt (VolumeInspect E volume)) (\<lambda>r.
       case r of
         Inl e \<Rightarrow> if e = Docker NotFound then ret '''' else fail e
       | Inr ls \<Rightarrow> if \<not> ownedByBox ls name then fail (NotOwned volume) else ret volume)"

record destroyTargets =
  containerIDs :: "string list"
  networkID :: string
  volumes :: "string list"

text \<open>The loop over the container references; \<open>seen\<close> holds the IDs found so far.\<close>

fun target_loop :: "system \<Rightarrow> string \<Rightarrow> string list \<Rightarrow> string list \<Rightarrow> string list tx9" where
  "target_loop E name ids [] = ret ids"
| "target_loop E name ids (ref # refs) =
     (if ref = '''' \<or> ref \<in> set ids then target_loop E name ids refs
      else bind_comp (inspectOwnedContainer E ref name) (\<lambda>i.
        target_loop E name (if i \<noteq> '''' \<and> i \<notin> set ids then ids @ [i] else ids) refs))"

fun volume_loop :: "system \<Rightarrow> string \<Rightarrow> string list \<Rightarrow> string list \<Rightarrow> string list tx9" where
  "volume_loop E name vs [] = ret vs"
| "volume_loop E name vs (ref # refs) =
     bind_comp (inspectOwnedVolume E ref name) (\<lambda>v.
       volume_loop E name (if v \<noteq> '''' then vs @ [v] else vs) refs)"

definition inspectDestroyTargets :: "system \<Rightarrow> string \<Rightarrow> destroyTargets tx9" where
  "inspectDestroyTargets E name =
     bind_comp (lift_result (map_error NameErr (Validate name))) (\<lambda>_.
     bind_comp (ListBoxContainers E) (\<lambda>cs.
     bind_comp (target_loop E name []
       ([agent_container name, executor_container name] @
        map cs_ID (filter (\<lambda>c. ownedByBox (cs_Labels c) name) cs))) (\<lambda>ids.
     bind_comp (inspectOwnedNetwork E (NetworkName name) name) (\<lambda>net.
     bind_comp (volume_loop E name [] [agent_volume name, executor_volume name]) (\<lambda>vs.
     ret \<lparr>containerIDs = ids, networkID = net, volumes = vs\<rparr>)))))"

definition PreflightExistingObjects :: "system \<Rightarrow> string \<Rightarrow> string list tx9" where
  "PreflightExistingObjects E name =
     bind_comp (inspectDestroyTargets E name) (\<lambda>t. ret (containerIDs t))"

section \<open>Destroy\<close>

text \<open>A removal whose not-found error is no error.\<close>

definition collect_removal :: "unit tx9 \<Rightarrow> (tx9_error list) tx9" where
  "collect_removal m =
     bind_comp (attempt m) (\<lambda>r.
       ret (case r of Inl e \<Rightarrow> if e = Docker NotFound then [] else [e] | Inr _ \<Rightarrow> []))"

fun remove_containers :: "system \<Rightarrow> string list \<Rightarrow> (tx9_error list) tx9" where
  "remove_containers E [] = ret []"
| "remove_containers E (i # ids) =
     bind_comp (collect_removal (ContainerRemove E i)) (\<lambda>e1.
     bind_comp (remove_containers E ids) (\<lambda>e2. ret (e1 @ e2)))"

definition remove_volume :: "system \<Rightarrow> string \<Rightarrow> string \<Rightarrow> (tx9_error list) tx9" where
  "remove_volume E name v =
     bind_comp (attempt (inspectOwnedVolume E v name)) (\<lambda>r.
       case r of
         Inl e \<Rightarrow> ret [e]
       | Inr owned \<Rightarrow> if owned = '''' then ret [] else collect_removal (VolumeRemove E v))"

fun remove_volumes :: "system \<Rightarrow> string \<Rightarrow> string list \<Rightarrow> (tx9_error list) tx9" where
  "remove_volumes E name [] = ret []"
| "remove_volumes E name (v # vs) =
     bind_comp (remove_volume E name v) (\<lambda>e1.
     bind_comp (remove_volumes E name vs) (\<lambda>e2. ret (e1 @ e2)))"

definition remove_network :: "system \<Rightarrow> string \<Rightarrow> (tx9_error list) tx9" where
  "remove_network E i = (if i \<noteq> '''' then collect_removal (NetworkRemove E i) else ret [])"

definition Destroy :: "system \<Rightarrow> string \<Rightarrow> unit tx9" where
  "Destroy E name =
     bind_comp (inspectDestroyTargets E name) (\<lambda>t.
     bind_comp (remove_containers E (containerIDs t)) (\<lambda>e1.
     bind_comp (remove_network E (networkID t)) (\<lambda>e2.
     bind_comp (remove_volumes E name (volumes t)) (\<lambda>e3.
     if e1 @ e2 @ e3 \<noteq> [] then fail (Joined (e1 @ e2 @ e3))
     else RemoveEnvFile E name))))"

section \<open>Create\<close>

record CreateOpts =
  opt_Name :: string
  opt_Image :: string
  opt_Token :: string
  opt_Executor :: ExecutorConfig
  opt_Resources :: Resources
  opt_AgentMounts :: "AgentMount list"
  opt_NoStart :: bool

definition ipv6DisableSysctl :: "(string \<times> string) list" where
  "ipv6DisableSysctl = [(''net.ipv6.conf.all.disable_ipv6'', ''1'')]"

definition newAgentContainerSpecWithResources ::
  "string \<Rightarrow> string \<Rightarrow> string \<Rightarrow> string \<Rightarrow> string \<Rightarrow> string \<Rightarrow> string list \<Rightarrow> string list
     \<Rightarrow> ContainerResources \<Rightarrow> ContainerSpec" where
  "newAgentContainerSpecWithResources name img token ver netID agentVol externalBinds
     supplementalGroups resources =
     \<lparr>spec_Name = agent_container name,
      spec_Image = img,
      spec_Entrypoint = [''/opt/hermes-box/bin/entrypoint''],
      spec_Env =
        [''EXECUTOR_HOST=executor'', ''BOXD_EXECUTOR_TOKEN='' @ token,
         ''BOX_EXECUTOR_BRIDGE_PORT=4788'', ''BOX_HERMES_BRIDGE_PORT=0'',
         ''TX9_BOX_NAME='' @ name] @
        (if supplementalGroups \<noteq> [] then
           [''TX9_AGENT_MOUNT_GIDS='' @ join_with CHR '','' supplementalGroups] else []),
      spec_Labels = BoxLabels name ver agent_role,
      spec_Hostname = '''',
      spec_NetworkID = netID,
      spec_NetworkAliases = [''agent''],
      spec_Binds = [agentVol @ '':/data''] @ externalBinds,
      spec_GroupAdd = supplementalGroups,
      spec_ExposedPorts = [],
      spec_PortBindings = [],
      spec_DNS = [],
      spec_Sysctls = ipv6DisableSysctl,
      spec_NanoCPUs = NanoCPUs resources,
      spec_MemoryBytes = MemoryBytes resources\<rparr>"

text \<open>The executor's spec, as \<open>Create\<close> builds it.\<close>

definition executor_spec :: "CreateOpts \<Rightarrow> string \<Rightarrow> string \<Rightarrow> ContainerSpec" where
  "executor_spec opts ver netID =
     (let name = opt_Name opts; cfg = opt_Executor opts;
          ls = BoxLabels name ver executor_role
      in \<lparr>spec_Name = executor_container name,
          spec_Image = opt_Image opts,
          spec_Entrypoint = [''/opt/hermes-box/bin/executor-entrypoint''],
          spec_Env =
            [''EXECUTOR_MCP_TOKEN='' @ opt_Token opts, ''TX9_BOX_NAME='' @ name] @
            (if WebBaseURL cfg \<noteq> '''' then [''EXECUTOR_WEB_BASE_URL='' @ WebBaseURL cfg] else []),
          spec_Labels =
            (if WebBaseURL cfg \<noteq> '''' then ls(LabelExecutorWebBaseURL \<mapsto> WebBaseURL cfg) else ls),
          spec_Hostname = '''',
          spec_NetworkID = netID,
          spec_NetworkAliases = [''executor''],
          spec_Binds = [executor_volume name @ '':/data''],
          spec_GroupAdd = [],
          spec_ExposedPorts = [executorPort],
          spec_PortBindings =
            [(executorPort,
              [(if PublishIP cfg = '''' then ''0.0.0.0'' else PublishIP cfg, PublishPort cfg)])],
          spec_DNS = DNS cfg,
          spec_Sysctls = ipv6DisableSysctl,
          spec_NanoCPUs = NanoCPUs (Executor (opt_Resources opts)),
          spec_MemoryBytes = MemoryBytes (Executor (opt_Resources opts))\<rparr>)"

text \<open>The executor's container could not be created: the agent's is taken away again.\<close>

definition drop_leaked_agent :: "system \<Rightarrow> string \<Rightarrow> tx9_error \<Rightarrow> 'a tx9" where
  "drop_leaked_agent E agentID err =
     bind_comp (attempt (ContainerRemove E agentID)) (\<lambda>r.
       case r of
         Inl rmErr \<Rightarrow> if rmErr \<noteq> Docker NotFound then fail (Joined [err, rmErr]) else fail err
       | Inr _ \<Rightarrow> fail err)"

definition Create :: "system \<Rightarrow> CreateOpts \<Rightarrow> Box tx9" where
  "Create E opts =
     (let name = opt_Name opts; ver = Version E in
      bind_comp (lift_result (map_error ResErr (ValidateResources (opt_Resources opts)))) (\<lambda>_.
      bind_comp (PrepareMounts E (opt_AgentMounts opts)) (\<lambda>(externalBinds, supplementalGroups).
      bind_comp (ensureNetwork E (NetworkName name) name ver) (\<lambda>netID.
      bind_comp (ensureVolume E (agent_volume name) name ver) (\<lambda>_.
      bind_comp (ensureVolume E (executor_volume name) name ver) (\<lambda>_.
      bind_comp (ContainerCreate E
        (newAgentContainerSpecWithResources name (opt_Image opts) (opt_Token opts) ver netID
           (agent_volume name) externalBinds supplementalGroups (Agent (opt_Resources opts)))) (\<lambda>agentID.
      bind_comp (attempt (ContainerCreate E (executor_spec opts ver netID))) (\<lambda>r.
      case r of
        Inl err \<Rightarrow> drop_leaked_agent E agentID err
      | Inr executorID \<Rightarrow>
          (let b = \<lparr>b_Name = name, AgentID = agentID, ExecutorID = executorID,
                    AgentState = ''created'', ExecutorState = ''created'',
                    ExecutorWebBaseURL = WebBaseURL (opt_Executor opts), b_Version = ver\<rparr>
           in if \<not> opt_NoStart opts then
                bind_comp (Start E b) (\<lambda>_.
                  ret (b\<lparr>AgentState := ''running'', ExecutorState := ''running''\<rparr>))
              else ret b)))))))))"

section \<open>Recreating the agent\<close>

text \<open>\<open>imageConfiguresMountGroups\<close>: the exit code of \<open>grep\<close> in a throwaway container.\<close>

definition imageConfiguresMountGroups :: "system \<Rightarrow> string \<Rightarrow> bool tx9" where
  "imageConfiguresMountGroups E img =
     bind_comp (Ephemeral E img [''grep'']
       [''-q'', ''TX9_AGENT_MOUNT_GIDS'', ''/opt/hermes-box/bin/entrypoint''] [] [] None) (\<lambda>(exitCode, _).
       if exitCode = 0 then ret True
       else if exitCode = 1 then ret False
       else fail (BadProbeExit exitCode))"

definition NL :: string where "NL = [CHR 0x0A]"

definition configureAgentMountGroupScript :: string where
  \<open>configureAgentMountGroupScript =
     ''set -euo pipefail'' @ NL @
     ''gid="$1"'' @ NL @
     ''group="$(getent group "$gid" | cut -d: -f1 || true)"'' @ NL @
     ''if [ -z "$group" ]; then'' @ NL @
     ''  group="tx9-mount-$gid"'' @ NL @
     ''  groupadd --gid "$gid" "$group"'' @ NL @
     ''fi'' @ NL @
     ''usermod --append --groups "$group" agent'' @ NL\<close>

fun configureAgentMountGroups :: "system \<Rightarrow> string \<Rightarrow> string list \<Rightarrow> unit tx9" where
  "configureAgentMountGroups E cid [] = ret ()"
| "configureAgentMountGroups E cid (g # gs) =
     bind_comp (Exec E cid
       [''bash'', ''-c'', configureAgentMountGroupScript, ''tx9-mount-group'', g] ''root'') (\<lambda>res.
       if ExitCode res \<noteq> 0 then fail (HBExit (ExitCode res))
       else configureAgentMountGroups E cid gs)"

text \<open>What \<open>RecreateAgent\<close> needs of the old container, with its checks in order.\<close>

definition recreate_source :: "Box \<Rightarrow> container_json \<Rightarrow> tx9_error + (string \<times> bool \<times> ContainerResources)" where
  "recreate_source b j =
     (case cj_Labels j of
        None \<Rightarrow> Inl (NotOwned (AgentID b))
      | Some ls \<Rightarrow>
          if \<not> ownedByBox ls (b_Name b) then Inl (NotOwned (AgentID b))
          else case cj_Base j of
            None \<Rightarrow> Inl (NoImageID (b_Name b))
          | Some base \<Rightarrow>
              if cb_Image base = '''' then Inl (NoImageID (b_Name b))
              else case cb_Running base of
                None \<Rightarrow> Inl (NoState (b_Name b))
              | Some running \<Rightarrow>
                  (case cb_Host base of
                     None \<Rightarrow> Inl (NoHostConfig (b_Name b))
                   | Some res \<Rightarrow> Inr (cb_Image base, running, res)))"

text \<open>
  The probe, made before anything is torn down: an image without in-boot group setup
  cannot be handled on a stopped box.
\<close>

definition probe_groups :: "system \<Rightarrow> string \<Rightarrow> string \<Rightarrow> bool \<Rightarrow> string list \<Rightarrow> bool tx9" where
  "probe_groups E name img wasRunning groups =
     (if groups = [] then ret True
      else bind_comp (imageConfiguresMountGroups E img) (\<lambda>boots.
        if \<not> boots \<and> \<not> wasRunning then fail (OldImageStopped name) else ret boots))"

definition restart_for_groups :: "system \<Rightarrow> string \<Rightarrow> string list \<Rightarrow> unit tx9" where
  "restart_for_groups E agentID groups =
     bind_comp (configureAgentMountGroups E agentID groups) (\<lambda>_.
     bind_comp (ContainerStop E agentID) (\<lambda>_. ContainerStart E agentID))"

text \<open>
  The result is whether the box was running and the box as the Go function leaves it
  through its pointer.
\<close>

definition RecreateAgent ::
  "system \<Rightarrow> Box \<Rightarrow> string \<Rightarrow> AgentMount list \<Rightarrow> (bool \<times> Box) tx9" where
  "RecreateAgent E b token mounts =
     (if AgentID b = '''' then fail (MissingContainer (b_Name b))
      else
      bind_comp (PrepareMounts E mounts) (\<lambda>(externalBinds, groups).
      bind_comp (ContainerInspect E (AgentID b)) (\<lambda>j.
      bind_comp (lift_result (recreate_source b j)) (\<lambda>(img, wasRunning, resources).
      bind_comp (probe_groups E (b_Name b) img wasRunning groups) (\<lambda>entrypointConfiguresGroups.
      bind_comp (ensureNetwork E (NetworkName (b_Name b)) (b_Name b) (b_Version b)) (\<lambda>netID.
      bind_comp (ensureVolume E (agent_volume (b_Name b)) (b_Name b) (b_Version b)) (\<lambda>_.
      bind_comp (if wasRunning then ContainerStop E (AgentID b) else ret ()) (\<lambda>_.
      bind_comp (ContainerRemove E (AgentID b)) (\<lambda>_.
      bind_comp (ContainerCreate E
        (newAgentContainerSpecWithResources (b_Name b) img token (b_Version b) netID
           (agent_volume (b_Name b)) externalBinds groups resources)) (\<lambda>agentID.
      bind_comp (if wasRunning then ContainerStart E agentID else ret ()) (\<lambda>_.
      bind_comp (if groups \<noteq> [] \<and> \<not> entrypointConfiguresGroups
                 then restart_for_groups E agentID groups else ret ()) (\<lambda>_.
      ret (wasRunning,
           b\<lparr>AgentID := agentID,
             AgentState := if wasRunning \<or> groups \<noteq> [] \<and> \<not> entrypointConfiguresGroups
                           then ''running'' else ''created''\<rparr>)))))))))))))"

section \<open>Commands inside the agent\<close>

definition hb_prefix :: "string \<Rightarrow> string list" where
  "hb_prefix token =
     [''runuser'', ''-u'', ''agent'', ''--'', ''env'', ''HOME=/data/home/agent'',
      ''EXECUTOR_HOST=executor'', ''BOXD_EXECUTOR_TOKEN='' @ token,
      ''bash'', ''--noprofile'', ''--norc'', ''-c'']"

definition quiesce_script :: string where
  \<open>quiesce_script = ''. /etc/profile.d/hermes-box.sh; if hb is-paused; then echo paused; else rc=$?; [ "$rc" -eq 1 ] && echo active || exit "$rc"; fi''\<close>

definition hb_script :: string where
  \<open>hb_script = ''. /etc/profile.d/hermes-box.sh; exec hb "$@"''\<close>

definition AgentQuiesced :: "system \<Rightarrow> Box \<Rightarrow> string \<Rightarrow> bool tx9" where
  "AgentQuiesced E b token =
     (if AgentID b = '''' then fail (MissingContainer (b_Name b))
      else bind_comp (Exec E (AgentID b) (hb_prefix token @ [quiesce_script]) ''root'') (\<lambda>res.
        if ExitCode res \<noteq> 0 then fail (HBExit (ExitCode res))
        else if trim_space (Stdout res) = ''paused'' then ret True
        else if trim_space (Stdout res) = ''active'' then ret False
        else fail (BadQuiesceOutput (trim_space (Stdout res)))))"

definition HB :: "system \<Rightarrow> Box \<Rightarrow> string \<Rightarrow> string list \<Rightarrow> unit tx9" where
  "HB E b token args =
     (if AgentID b = '''' then fail (MissingContainer (b_Name b))
      else bind_comp (Exec E (AgentID b) (hb_prefix token @ [hb_script, ''hb''] @ args) '''') (\<lambda>res.
        if ExitCode res \<noteq> 0 then fail (HBExit (ExitCode res)) else ret ()))"

definition prepare_attempts :: nat where "prepare_attempts = 6"

text \<open>The wait between two attempts, which a cancelled context cuts short.\<close>

definition retry_wait :: "system \<Rightarrow> unit tx9" where
  "retry_wait E w = (if cancelled E (events w) then (Inl Cancelled, w) else (Inr (), logged Sleep True w))"

text \<open>\<open>left\<close> attempts are left; the last one is not followed by a wait.\<close>

fun hb_up_loop :: "system \<Rightarrow> Box \<Rightarrow> string \<Rightarrow> nat \<Rightarrow> unit tx9" where
  "hb_up_loop E b token 0 = ret ()"
| "hb_up_loop E b token (Suc left) =
     bind_comp (attempt (HB E b token [''up''])) (\<lambda>r.
       case r of
         Inr _ \<Rightarrow> ret ()
       | Inl e \<Rightarrow>
           if left = 0 then fail e
           else bind_comp (retry_wait E) (\<lambda>_. hb_up_loop E b token left))"

definition PrepareRuntime :: "system \<Rightarrow> Box \<Rightarrow> string \<Rightarrow> unit tx9" where
  "PrepareRuntime E b token =
     bind_comp (hb_up_loop E b token prepare_attempts) (\<lambda>_.
     bind_comp (HB E b token [''wire-once'']) (\<lambda>_. HB E b token [''doctor'']))"

section \<open>Live resources\<close>

text \<open>
  \<open>InspectResources\<close>: the limits of each existing container, the stored ones for a missing
  container.  A response without \<open>ContainerJSONBase\<close> makes the field access panic.
\<close>

definition inspect_role ::
  "system \<Rightarrow> string \<Rightarrow> (ContainerResources \<Rightarrow> Resources \<Rightarrow> Resources) \<Rightarrow> Resources
     \<Rightarrow> (Resources \<times> tx9_error list) tx9" where
  "inspect_role E i dest r =
     (if i = '''' then ret (r, [])
      else bind_comp (attempt (ContainerInspect E i)) (\<lambda>x.
        case x of
          Inl e \<Rightarrow> ret (r, [e])
        | Inr j \<Rightarrow>
            (case cj_Base j of
               None \<Rightarrow> fail NilDereference
             | Some base \<Rightarrow>
                 (case cb_Host base of
                    None \<Rightarrow> ret (r, [NoHostConfig i])
                  | Some res \<Rightarrow> ret (dest res r, [])))))"

definition InspectResources :: "system \<Rightarrow> Box \<Rightarrow> Resources tx9" where
  "InspectResources E b =
     bind_comp (LoadResources E (b_Name b)) (\<lambda>stored.
     bind_comp (inspect_role E (AgentID b) (\<lambda>v. Agent_update (\<lambda>_. v)) stored) (\<lambda>(r1, e1).
     bind_comp (inspect_role E (ExecutorID b) (\<lambda>v. Executor_update (\<lambda>_. v)) r1) (\<lambda>(r2, e2).
     if e1 @ e2 \<noteq> [] then fail (Joined (e1 @ e2)) else ret r2)))"

end
