(* ===== verification/Commands.thy ===== *)
theory Commands
  imports Box
begin

text \<open>
  \<open>internal/cli\<close>: what each command does once its flags are parsed.  The progress lines a
  command prints are not modelled; \<open>printDockerWarnings\<close> and the like have no effect here.
\<close>

section \<open>Locks and clients (\<open>box_common.go\<close>)\<close>

definition AcquireLock :: "system \<Rightarrow> string \<Rightarrow> nat tx9" where
  "AcquireLock E path w =
     (case Acquire (lock_opens E (events w)) (lock_works E (events w)) path (locks w) of
        (r, l) \<Rightarrow> (map_error LockErr r, w\<lparr>locks := l\<rparr>))"

definition ReleaseLock :: "nat \<Rightarrow> world \<Rightarrow> world" where
  "ReleaseLock h w = w\<lparr>locks := release h (locks w)\<rparr>"

text \<open>\<open>release, err := lock.Acquire(path); ...; defer release()\<close> around the body.\<close>

definition with_lock :: "system \<Rightarrow> string \<Rightarrow> 'a tx9 \<Rightarrow> 'a tx9" where
  "with_lock E path m = bind_comp (AcquireLock E path) (\<lambda>h. with_defer m (ReleaseLock h))"

definition withDocker :: "system \<Rightarrow> 'a tx9 \<Rightarrow> 'a tx9" where
  "withDocker E m = bind_comp (NewClient E) (\<lambda>_. m)"

definition withBoxLock :: "system \<Rightarrow> string \<Rightarrow> 'a tx9 \<Rightarrow> 'a tx9" where
  "withBoxLock E name m =
     bind_comp (lift_result (map_error EnvErr (LockPath (host E) name))) (\<lambda>path.
       with_lock E path (withDocker E m))"

definition image_tag :: "system \<Rightarrow> string" where
  "image_tag E = ''tx9-box:'' @ Version E"

definition ensureBoxImage :: "system \<Rightarrow> string \<Rightarrow> unit tx9" where
  "ensureBoxImage E tag =
     bind_comp (ImageExists E tag) (\<lambda>have_it.
       if have_it then ret () else
       bind_comp (lift_result (map_error ContextErr (BuildContextTar (bad_header E) (build_files E)))) (\<lambda>buildContext.
       ImageBuild E buildContext tag))"

section \<open>Start, stop, delete\<close>

definition cmdStart :: "system \<Rightarrow> string \<Rightarrow> unit tx9" where
  "cmdStart E name = withBoxLock E name (bind_comp (Get E name) (Start E))"

definition cmdStop :: "system \<Rightarrow> string \<Rightarrow> unit tx9" where
  "cmdStop E name = withBoxLock E name (bind_comp (Get E name) (Stop E))"

text \<open>\<open>typed\<close> is the line read from the terminal, if one could be read.\<close>

definition confirmName :: "string \<Rightarrow> string option \<Rightarrow> tx9_error + unit" where
  "confirmName name typed =
     (case typed of
        None \<Rightarrow> Inl NotConfirmed
      | Some line \<Rightarrow> if trim_space line \<noteq> name then Inl NotConfirmed else Inr ())"

definition cmdDelete :: "system \<Rightarrow> bool \<Rightarrow> string option \<Rightarrow> string \<Rightarrow> unit tx9" where
  "cmdDelete E force typed name =
     bind_comp (if force then ret () else lift_result (confirmName name typed)) (\<lambda>_.
     withBoxLock E name
       (bind_comp (Exists E name) (\<lambda>exists.
          if \<not> exists then fail (BoxNotFound name) else Destroy E name)))"

section \<open>Resources (\<open>cmd_resources.go\<close>)\<close>

definition requireCompleteResources :: "system \<Rightarrow> Box \<Rightarrow> Resources tx9" where
  "requireCompleteResources E b =
     (if AgentID b = '''' \<or> ExecutorID b = '''' then fail (Incomplete (b_Name b))
      else bind_comp (InspectResources E b) (\<lambda>r.
        bind_comp (lift_result (map_error ResErr (ValidateResources r))) (\<lambda>_. ret r)))"

definition update_limits :: "system \<Rightarrow> string \<Rightarrow> ContainerResources \<Rightarrow> unit tx9" where
  "update_limits E i a =
     bind_comp (ContainerUpdateResources E i (NanoCPUs a) (MemoryBytes a)) (\<lambda>_. ret ())"

text \<open>A rollback, made only for a role that was updated; its error is collected.\<close>

definition roll_back :: "system \<Rightarrow> bool \<Rightarrow> string \<Rightarrow> ContainerResources \<Rightarrow> (tx9_error list) tx9" where
  "roll_back E updated i a = (if updated then collect (update_limits E i a) else ret [])"

definition update_agent :: "system \<Rightarrow> Box \<Rightarrow> Resources \<Rightarrow> Resources \<Rightarrow> bool tx9" where
  "update_agent E b old new =
     (if Agent old \<noteq> Agent new
      then bind_comp (update_limits E (AgentID b) (Agent new)) (\<lambda>_. ret True)
      else ret False)"

definition update_executor :: "system \<Rightarrow> Box \<Rightarrow> Resources \<Rightarrow> Resources \<Rightarrow> bool \<Rightarrow> bool tx9" where
  "update_executor E b old new updatedAgent =
     (if Executor old \<noteq> Executor new
      then bind_comp (attempt (update_limits E (ExecutorID b) (Executor new))) (\<lambda>r.
        case r of
          Inr _ \<Rightarrow> ret True
        | Inl e \<Rightarrow>
            bind_comp (roll_back E updatedAgent (AgentID b) (Agent old)) (\<lambda>es. fail (Joined (e # es))))
      else ret False)"

text \<open>Persisting, with the roles that were updated rolled back when it fails.\<close>

definition persist_or_roll_back ::
  "system \<Rightarrow> Box \<Rightarrow> Resources \<Rightarrow> bool \<Rightarrow> bool \<Rightarrow> unit tx9 \<Rightarrow> unit tx9" where
  "persist_or_roll_back E b old updatedAgent updatedExecutor persist =
     bind_comp (attempt persist) (\<lambda>r.
       case r of
         Inr _ \<Rightarrow> ret ()
       | Inl e \<Rightarrow>
           bind_comp (roll_back E updatedExecutor (ExecutorID b) (Executor old)) (\<lambda>e1.
           bind_comp (roll_back E updatedAgent (AgentID b) (Agent old)) (\<lambda>e2.
           fail (Joined (e # e1 @ e2)))))"

definition applyResourcesTransaction ::
  "system \<Rightarrow> Box \<Rightarrow> Resources \<Rightarrow> Resources \<Rightarrow> unit tx9 \<Rightarrow> unit tx9" where
  "applyResourcesTransaction E b old new persist =
     bind_comp (lift_result (map_error (\<lambda>(who, kind). Transition who kind)
       (validateLiveResourceTransition old new))) (\<lambda>_.
     bind_comp (update_agent E b old new) (\<lambda>updatedAgent.
     bind_comp (update_executor E b old new updatedAgent) (\<lambda>updatedExecutor.
     persist_or_roll_back E b old updatedAgent updatedExecutor persist)))"

definition cmdResourcesSet ::
  "system \<Rightarrow> (Resources \<Rightarrow> resource_error + Resources) \<Rightarrow> bool \<Rightarrow> string \<Rightarrow> unit tx9" where
  "cmdResourcesSet E flags overrides name =
     (if \<not> overrides then fail (Usage ''resources set'')
      else withBoxLock E name
        (bind_comp (Get E name) (\<lambda>b.
         bind_comp (requireCompleteResources E b) (\<lambda>old.
         bind_comp (lift_result (map_error ResErr (flags old))) (\<lambda>new.
         applyResourcesTransaction E b old new (SaveResources E name new))))))"

definition cmdResourcesReset :: "system \<Rightarrow> string \<Rightarrow> unit tx9" where
  "cmdResourcesReset E name =
     withBoxLock E name
       (bind_comp (Get E name) (\<lambda>b.
        bind_comp (requireCompleteResources E b) (\<lambda>old.
        applyResourcesTransaction E b old DefaultResources (ResetResources E name))))"

section \<open>Create (\<open>cmd_create.go\<close>)\<close>

fun fresh_name_loop :: "system \<Rightarrow> string list \<Rightarrow> nat \<Rightarrow> string tx9" where
  "fresh_name_loop E taken 0 = fail NoFreshName"
| "fresh_name_loop E taken (Suc n) = (\<lambda>w.
     (case Generate (\<lambda>s. s \<in> set taken) (random_draws E (events w)) of
        Inl e \<Rightarrow> (Inl (GenerateErr e), w)
      | Inr name \<Rightarrow>
          bind_comp (attempt (PreflightFreshObjects E name)) (\<lambda>r.
            case r of
              Inr _ \<Rightarrow> ret name
            | Inl (ObjectsExist k o') \<Rightarrow> fresh_name_loop E (name # taken) n
            | Inl e \<Rightarrow> fail e) w))"

definition generateFreshBoxName :: "system \<Rightarrow> string list \<Rightarrow> string tx9" where
  "generateFreshBoxName E taken = fresh_name_loop E taken 100"

definition MintToken :: "system \<Rightarrow> string tx9" where
  "MintToken E w = (map_error TokenErr (Mint (random_bytes E (events w))), w)"

text \<open>\<open>errors.Join(err, box.Destroy(...))\<close>\<close>

definition fail_and_destroy :: "system \<Rightarrow> string \<Rightarrow> tx9_error \<Rightarrow> 'a tx9" where
  "fail_and_destroy E name err =
     bind_comp (collect (Destroy E name)) (\<lambda>es. fail (Joined (err # es)))"

text \<open>
  The part of \<open>cmdCreate\<close> under the lock: the checks, the image and the settings, ...
\<close>

definition create_setup :: "system \<Rightarrow> ExecutorConfig \<Rightarrow> Resources \<Rightarrow> string \<Rightarrow> string tx9" where
  "create_setup E cfg res name =
     bind_comp (Exists E name) (\<lambda>exists.
     if exists then fail (BoxExists name) else
     bind_comp (PreflightFreshObjects E name) (\<lambda>_.
     bind_comp (ensureBoxImage E (image_tag E)) (\<lambda>_.
     bind_comp (MintToken E) (\<lambda>tok.
     bind_comp (SaveExecutorConfig E name tok cfg) (\<lambda>_.
     bind_comp (SaveAgentMounts E name []) (\<lambda>_.
     bind_comp (SaveResources E name res) (\<lambda>_. ret tok)))))))"

text \<open>... and the box itself, destroyed again when it cannot be brought up.\<close>

definition create_box :: "system \<Rightarrow> ExecutorConfig \<Rightarrow> Resources \<Rightarrow> string \<Rightarrow> string \<Rightarrow> string tx9" where
  "create_box E cfg res name tok =
     bind_comp (attempt (Create E
       \<lparr>opt_Name = name, opt_Image = image_tag E, opt_Token = tok, opt_Executor = cfg,
        opt_Resources = res, opt_AgentMounts = [], opt_NoStart = False\<rparr>)) (\<lambda>r.
     case r of
       Inl err \<Rightarrow> fail_and_destroy E name err
     | Inr b \<Rightarrow>
         bind_comp (attempt (PrepareRuntime E b tok)) (\<lambda>r.
         case r of
           Inl err \<Rightarrow> fail_and_destroy E name err
         | Inr _ \<Rightarrow> HostPort E b))"

definition create_fresh :: "system \<Rightarrow> ExecutorConfig \<Rightarrow> Resources \<Rightarrow> string \<Rightarrow> string tx9" where
  "create_fresh E cfg res name = bind_comp (create_setup E cfg res name) (create_box E cfg res name)"

definition cmdCreate ::
  "system \<Rightarrow> executorConfigFlags \<Rightarrow> (Resources \<Rightarrow> resource_error + Resources) \<Rightarrow> string \<Rightarrow> string tx9" where
  "cmdCreate E exec_flags res_flags requested =
     bind_comp (lift_result (if requested \<noteq> '''' then map_error NameErr (Validate requested) else Inr ())) (\<lambda>_.
     bind_comp (lift_result (map_error ConfErr (resolve_flags exec_flags True))) (\<lambda>ov.
     bind_comp (LoadExecutorConfig E requested ov) (\<lambda>cfg.
     bind_comp (lift_result (map_error ResErr (res_flags DefaultResources))) (\<lambda>res.
     bind_comp (NewClient E) (\<lambda>_.
     bind_comp
       (if requested = '''' then
          bind_comp (List E) (\<lambda>existing. generateFreshBoxName E (map b_Name existing))
        else ret requested) (\<lambda>name.
     bind_comp (lift_result (map_error EnvErr (LockPath (host E) name))) (\<lambda>path.
     with_lock E path (create_fresh E cfg res name))))))))"

section \<open>Upgrade (\<open>cmd_upgrade.go\<close>)\<close>

text \<open>The stop is best effort; a removal's error is collected.\<close>

fun remove_each :: "system \<Rightarrow> string list \<Rightarrow> (tx9_error list) tx9" where
  "remove_each E [] = ret []"
| "remove_each E (i # ids) =
     bind_comp (attempt (ContainerStop E i)) (\<lambda>_ :: tx9_error + unit.
     bind_comp (collect (ContainerRemove E i)) (\<lambda>e1.
     bind_comp (remove_each E ids) (\<lambda>e2. ret (e1 @ e2))))"

definition removeBoxContainers :: "system \<Rightarrow> string list \<Rightarrow> unit tx9" where
  "removeBoxContainers E ids = bind_comp (remove_each E ids) (\<lambda>es. lift_result (join_errors es))"

definition PreflightMounts :: "system \<Rightarrow> AgentMount list \<Rightarrow> unit tx9" where
  "PreflightMounts E ms w =
     (map_error MountErr (PreflightAgentMounts (mounts_at E (events w)) ms), w)"

text \<open>Everything of the upgrade that comes before the containers are removed, ...\<close>

definition upgrade_checks ::
  "system \<Rightarrow> executorConfigFlags \<Rightarrow> (Resources \<Rightarrow> resource_error + Resources) \<Rightarrow> string
     \<Rightarrow> (ExecutorConfig \<times> Resources \<times> AgentMount list \<times> string list \<times> string) tx9" where
  "upgrade_checks E exec_flags res_flags name =
     bind_comp (Get E name) (\<lambda>b.
     bind_comp (lift_result (map_error ConfErr (resolve_flags exec_flags False))) (\<lambda>ov.
     bind_comp (LoadExecutorConfig E name ov) (\<lambda>cfg.
     bind_comp (InspectResources E b) (\<lambda>live.
     bind_comp (lift_result (map_error ResErr (res_flags live))) (\<lambda>res.
     bind_comp (LoadAgentMounts E name) (\<lambda>mounts.
     bind_comp (ensureBoxImage E (image_tag E)) (\<lambda>_.
     bind_comp (PreflightMounts E mounts) (\<lambda>_.
     bind_comp (PreflightExistingObjects E name) (\<lambda>ids.
     bind_comp (BoxToken E name) (\<lambda>tok.
     ret (cfg, res, mounts, ids, tok)))))))))))"

text \<open>... and the rest.\<close>

definition upgrade_rest ::
  "system \<Rightarrow> string \<Rightarrow> ExecutorConfig \<times> Resources \<times> AgentMount list \<times> string list \<times> string \<Rightarrow> unit tx9" where
  "upgrade_rest E name = (\<lambda>(cfg, res, mounts, ids, tok).
     bind_comp (SaveExecutorConfig E name tok cfg) (\<lambda>_.
     bind_comp (SaveResources E name res) (\<lambda>_.
     bind_comp (removeBoxContainers E ids) (\<lambda>_.
     bind_comp (Create E
       \<lparr>opt_Name = name, opt_Image = image_tag E, opt_Token = tok, opt_Executor = cfg,
        opt_Resources = res, opt_AgentMounts = mounts, opt_NoStart = False\<rparr>) (\<lambda>newB.
     PrepareRuntime E newB tok)))))"

definition cmdUpgrade ::
  "system \<Rightarrow> executorConfigFlags \<Rightarrow> (Resources \<Rightarrow> resource_error + Resources) \<Rightarrow> string \<Rightarrow> unit tx9" where
  "cmdUpgrade E exec_flags res_flags name =
     withBoxLock E name (bind_comp (upgrade_checks E exec_flags res_flags name) (upgrade_rest E name))"

section \<open>Mounts (\<open>cmd_mount.go\<close>)\<close>

text \<open>
  \<open>applyAgentMounts\<close>: recreate, then persist, then prepare the runtime unless the box was
  stopped or is quiesced.
\<close>

definition applyAgentMounts :: "system \<Rightarrow> Box \<Rightarrow> string \<Rightarrow> AgentMount list \<Rightarrow> unit tx9" where
  "applyAgentMounts E b name mounts =
     bind_comp (BoxToken E (b_Name b)) (\<lambda>token.
     bind_comp (RecreateAgent E b token mounts) (\<lambda>(wasRunning, b').
     bind_comp (SaveAgentMounts E name mounts) (\<lambda>_.
     if \<not> wasRunning then ret ()
     else bind_comp (AgentQuiesced E b' token) (\<lambda>quiesced.
       if quiesced then ret () else PrepareRuntime E b' token))))"

text \<open>The loop over the configured mounts: nothing to do, a conflict, or none of the two.\<close>

fun mount_add_decision :: "AgentMount \<Rightarrow> AgentMount list \<Rightarrow> tx9_error + bool" where
  "mount_add_decision m [] = Inr True"
| "mount_add_decision m (e # es) =
     (if Target e \<noteq> Target m then mount_add_decision m es
      else if e = m then Inr False
      else Inl (TargetTaken (Target m)))"

definition cmdMountAdd :: "system \<Rightarrow> string \<Rightarrow> string \<Rightarrow> string \<Rightarrow> bool \<Rightarrow> bool \<Rightarrow> unit tx9" where
  "cmdMountAdd E name source target readOnly requireMountpoint = (\<lambda>w0.
     bind_comp (lift_result (map_error MountErr
       (NewAgentMount (mounts_at E (events w0)) source target readOnly requireMountpoint))) (\<lambda>mount.
     withBoxLock E name
       (bind_comp (Get E name) (\<lambda>b.
        bind_comp (LoadAgentMounts E name) (\<lambda>mounts.
        bind_comp (lift_result (mount_add_decision mount mounts)) (\<lambda>go.
        if \<not> go then ret () else applyAgentMounts E b name (mounts @ [mount])))))) w0)"

definition cmdMountRemove :: "system \<Rightarrow> string \<Rightarrow> string \<Rightarrow> unit tx9" where
  "cmdMountRemove E name target0 =
     (let target = Clean target0 in
      withBoxLock E name
        (bind_comp (Get E name) (\<lambda>b.
         bind_comp (LoadAgentMounts E name) (\<lambda>mounts.
         let kept = filter (\<lambda>m. Target m \<noteq> target) mounts in
         if length kept = length mounts then ret () else applyAgentMounts E b name kept))))"

section \<open>Gateway (\<open>cmd_gateway.go\<close>)\<close>

definition singleWriterConfirmation :: string where
  "singleWriterConfirmation = ''I_CONFIRM_NO_OTHER_GATEWAY_USES_THIS_IDENTITY''"

definition gatewayHBCommands :: "string \<Rightarrow> bool \<Rightarrow> tx9_error + string list list" where
  "gatewayHBCommands action confirmed =
     (if action = ''status'' then Inr [[''status'']]
      else if action = ''disable'' then Inr [[''gateway-disable'']]
      else if action = ''enable'' then
        (if \<not> confirmed then Inl NotConfirmed
         else Inr [[''gateway-disable''],
                   [''gateway-enable'', ''--confirm-single-writer'', singleWriterConfirmation]])
      else Inl (Usage ''gateway''))"

fun hb_each :: "system \<Rightarrow> Box \<Rightarrow> string \<Rightarrow> string list list \<Rightarrow> unit tx9" where
  "hb_each E b token [] = ret ()"
| "hb_each E b token (c # cs) = bind_comp (HB E b token c) (\<lambda>_. hb_each E b token cs)"

definition cmdGateway :: "system \<Rightarrow> string \<Rightarrow> bool \<Rightarrow> string \<Rightarrow> unit tx9" where
  "cmdGateway E action confirmed name =
     bind_comp (lift_result (gatewayHBCommands action confirmed)) (\<lambda>cmds.
     withBoxLock E name
       (bind_comp (Get E name) (\<lambda>b.
        if AgentState b \<noteq> ''running'' then fail (NotRunning name)
        else bind_comp (attempt (BoxToken E name)) (\<lambda>r.
          case r of
            Inr token \<Rightarrow> hb_each E b token cmds
          | Inl e \<Rightarrow> if action = ''enable'' then fail e else hb_each E b '''' cmds))))"

section \<open>Prune (\<open>cmd_prune.go\<close>)\<close>

text \<open>The tags of one image that are to go: none if it is in use or current.\<close>

definition stale_tags :: "string \<Rightarrow> container_summary list \<Rightarrow> image_summary \<Rightarrow> string list" where
  "stale_tags currentTag cs im =
     (let inUse = map cs_Image cs @ map cs_ImageID cs in
      if im_ID im \<in> set inUse then []
      else if currentTag \<in> set (im_Tags im) \<or> list_ex (\<lambda>t. t \<in> set inUse) (im_Tags im) then []
      else filter (\<lambda>t. has_prefix t ''tx9-box:'') (im_Tags im))"

fun remove_tags :: "system \<Rightarrow> string list \<Rightarrow> unit tx9" where
  "remove_tags E [] = ret ()"
| "remove_tags E (t # ts) = bind_comp (ImageRemove E t) (\<lambda>_. remove_tags E ts)"

definition pruneImages :: "system \<Rightarrow> string list tx9" where
  "pruneImages E =
     bind_comp (ImageList E ''tx9-box:*'') (\<lambda>images.
     bind_comp (ListBoxContainers E) (\<lambda>cs.
     let tags = concat (map (stale_tags (image_tag E) cs) images) in
     bind_comp (remove_tags E tags) (\<lambda>_. ret tags)))"

text \<open>An inspection whose not-found answer is no.\<close>

definition present :: "'a tx9 \<Rightarrow> bool tx9" where
  "present m =
     bind_comp (attempt m) (\<lambda>r.
       case r of
         Inr _ \<Rightarrow> ret True
       | Inl e \<Rightarrow> if e = Docker NotFound then ret False else fail e)"

definition boxStateInUse :: "system \<Rightarrow> string \<Rightarrow> bool tx9" where
  "boxStateInUse E name =
     bind_comp (Exists E name) (\<lambda>exists. if exists then ret True else
     bind_comp (present (VolumeInspect E (agent_volume name))) (\<lambda>v1. if v1 then ret True else
     bind_comp (present (VolumeInspect E (executor_volume name))) (\<lambda>v2. if v2 then ret True else
     present (NetworkInspect E (NetworkName name)))))"

text \<open>\<open>os.Remove\<close> of the env file; not being there is reported as nothing removed.\<close>

definition remove_state :: "system \<Rightarrow> string \<Rightarrow> bool tx9" where
  "remove_state E name w =
     (case BoxEnvPath (host E) name of
        Inl e \<Rightarrow> (Inl (EnvErr e), w)
      | Inr path \<Rightarrow>
          if disk w path = None then (Inr False, logged (RemoveEnv name) False w)
          else if remove_fails E (events w) then
            (Inl (EnvErr (RemoveFailed path)), logged (RemoveEnv name) False w)
          else (Inr True, (logged (RemoveEnv name) True w)\<lparr>disk := (disk w)(path := None)\<rparr>))"

text \<open>A busy lock is a skip, every other lock error an error.  The removal at the end of the function
  is an argument, so that the world in which it runs can be spoken of.\<close>

definition prune_with :: "system \<Rightarrow> string \<Rightarrow> bool tx9 \<Rightarrow> bool tx9" where
  "prune_with E name removal =
     bind_comp (lift_result (map_error EnvErr (LockPath (host E) name))) (\<lambda>path w.
     case AcquireLock E path w of
       (Inl (LockErr (Busy n)), w') \<Rightarrow> (Inr False, w')
     | (Inl e, w') \<Rightarrow> (Inl e, w')
     | (Inr h, w') \<Rightarrow>
         with_defer
           (bind_comp (boxStateInUse E name) (\<lambda>live.
              if live then ret False else removal))
           (ReleaseLock h) w')"

definition pruneStateFile :: "system \<Rightarrow> string \<Rightarrow> bool tx9" where
  "pruneStateFile E name = prune_with E name (remove_state E name)"

text \<open>One directory entry: its name and whether it is a directory.\<close>

fun prune_entries :: "system \<Rightarrow> string list \<Rightarrow> (string \<times> bool) list \<Rightarrow> string list \<Rightarrow> string list tx9" where
  "prune_entries E known [] removed = ret removed"
| "prune_entries E known ((entry, isDir) # es) removed =
     (let name = trim_suffix entry ''.env'' in
      if isDir \<or> \<not> has_suffix entry ''.env'' \<or> Validate name \<noteq> Inr () \<or> name \<in> set known
        then prune_entries E known es removed
      else bind_comp (pruneStateFile E name) (\<lambda>deleted.
        prune_entries E known es (if deleted then removed @ [name] else removed)))"

definition pruneStateFiles :: "system \<Rightarrow> string list tx9" where
  "pruneStateFiles E =
     bind_comp (List E) (\<lambda>boxes.
     bind_comp (lift_result (map_error EnvErr (BoxesDir (host E)))) (\<lambda>dir w.
     case read_dir E (events w) of
       None \<Rightarrow> (Inl ReadDirErr, logged ReadDir False w)
     | Some entries \<Rightarrow> prune_entries E (map b_Name boxes) entries [] (logged ReadDir True w)))"

definition cmdPrune :: "system \<Rightarrow> (string list \<times> string list) tx9" where
  "cmdPrune E =
     withDocker E
       (bind_comp (pruneImages E) (\<lambda>images.
        bind_comp (pruneStateFiles E) (\<lambda>names. ret (images, names))))"

section \<open>Enter (\<open>cmd_enter.go\<close>)\<close>

definition enter_target :: "system \<Rightarrow> string \<Rightarrow> bool \<Rightarrow> (string \<times> string) tx9" where
  "enter_target E name intoExecutor =
     withBoxLock E name
       (bind_comp (Get E name) (\<lambda>b.
        bind_comp (if AgentState b \<noteq> ''running'' \<or> ExecutorState b \<noteq> ''running''
                   then Start E b else ret ()) (\<lambda>_.
        bind_comp (BoxToken E name) (\<lambda>tok.
        ret (if intoExecutor then ExecutorID b else AgentID b, tok)))))"

definition enterExecCommand ::
  "string \<Rightarrow> string \<Rightarrow> string \<Rightarrow> bool \<Rightarrow> string list \<Rightarrow> string list \<times> string list" where
  "enterExecCommand dockerBin containerID token intoExecutor inheritedEnv =
     (let env = filter (\<lambda>entry. let key = fst (cut_on CHR ''='' entry) in
                  key \<noteq> ''BOXD_EXECUTOR_TOKEN'' \<and> key \<noteq> ''EXECUTOR_MCP_TOKEN'') inheritedEnv;
          common = [dockerBin, ''exec'', ''-it'', ''-u'', ''agent'',
                    ''-e'', ''HOME=/data/home/agent'', ''-e'', ''USER=agent'',
                    ''-e'', ''LOGNAME=agent'', ''-e'', ''SHELL=/bin/bash'']
      in if intoExecutor then
           (common @ [''-e'', ''EXECUTOR_MCP_TOKEN'', ''-w'', ''/data/home/agent'', containerID,
              ''bash'', ''--norc'', ''-c'',
              ''. /etc/profile.d/hermes-box.sh; exec bash --norc -i''],
            env @ [''EXECUTOR_MCP_TOKEN='' @ token])
         else
           (common @ [''-e'', ''EXECUTOR_HOST=executor'', ''-e'', ''BOXD_EXECUTOR_TOKEN'',
              ''-w'', ''/data/home/agent'', containerID, ''bash'', ''-l''],
            env @ [''BOXD_EXECUTOR_TOKEN='' @ token]))"

end
