(* ===== verification/Trace.thy ===== *)
theory Trace
  imports World
begin

text \<open>
  Reasoning about the calls a computation makes.  \<open>makes_only P m\<close>: whatever the world
  and the daemon do, \<open>m\<close> only appends calls in \<open>P\<close> to the history.  \<open>keeps f m\<close>: it does
  not change the component \<open>f\<close> of the world (the files, the lock table).  The triples of \<open>Prelude\<close> get a rule for a single call.
\<close>

definition makes_only :: "(call \<Rightarrow> bool) \<Rightarrow> 'a tx9 \<Rightarrow> bool" where
  "makes_only P m \<longleftrightarrow>
     (\<forall>w. \<exists>es. events (snd (m w)) = events w @ es \<and> (\<forall>e \<in> set es. P (fst e)))"

definition keeps :: "(world \<Rightarrow> 'b) \<Rightarrow> 'a tx9 \<Rightarrow> bool" where
  "keeps f m \<longleftrightarrow> (\<forall>w. f (snd (m w)) = f w)"

abbreviation keeps_disk :: "'a tx9 \<Rightarrow> bool" where
  "keeps_disk \<equiv> keeps disk"

abbreviation keeps_locks :: "'a tx9 \<Rightarrow> bool" where
  "keeps_locks \<equiv> keeps locks"

named_theorems call_rules \<open>which calls a computation makes\<close>

lemma makes_onlyI:
  assumes "\<And>w. \<exists>es. events (snd (m w)) = events w @ es \<and> (\<forall>e \<in> set es. P (fst e))"
  shows "makes_only P m"
  using assms by (simp add: makes_only_def)

lemma makes_only_weaken: "makes_only P m \<Longrightarrow> (\<And>c. P c \<Longrightarrow> Q c) \<Longrightarrow> makes_only Q m"
  unfolding makes_only_def by meson

lemma makes_only_pure:
  "makes_only P (ret x)" "makes_only P (fail e)" "makes_only P (lift_result r)"
  by (simp_all add: makes_only_def ret_def fail_def lift_result_def)

lemma makes_only_bind:
  assumes "makes_only P m" and "\<And>x. makes_only P (f x)"
  shows "makes_only P (bind_comp m f)"
proof (rule makes_onlyI)
  fix w
  obtain es where es: "events (snd (m w)) = events w @ es" "\<forall>e \<in> set es. P (fst e)"
    using assms(1) by (auto simp: makes_only_def)
  show "\<exists>es. events (snd (bind_comp m f w)) = events w @ es \<and> (\<forall>e \<in> set es. P (fst e))"
  proof (cases "m w")
    case (Pair r w1)
    show ?thesis
    proof (cases r)
      case (Inl e)
      then show ?thesis using es Pair by (auto simp: bind_comp_def)
    next
      case (Inr x)
      obtain fs where "events (snd (f x w1)) = events w1 @ fs" "\<forall>e \<in> set fs. P (fst e)"
        using assms(2) [of x] by (auto simp: makes_only_def)
      then show ?thesis using es Pair Inr
        by (intro exI [of _ "es @ fs"]) (auto simp: bind_comp_def)
    qed
  qed
qed

lemma makes_only_attempt: "makes_only P m \<Longrightarrow> makes_only P (attempt m)"
  unfolding makes_only_def attempt_def by (auto split: prod.splits) (metis snd_conv)

lemma makes_only_api: "P c \<Longrightarrow> makes_only P (api c f)"
  by (auto simp: makes_only_def api_def logged_def Let_def)

lemma makes_only_split:
  "(b \<Longrightarrow> makes_only P m) \<Longrightarrow> (\<not> b \<Longrightarrow> makes_only P m') \<Longrightarrow> makes_only P (if b then m else m')"
  "(\<And>e. r = Inl e \<Longrightarrow> makes_only P (fl e)) \<Longrightarrow> (\<And>x. r = Inr x \<Longrightarrow> makes_only P (fr x)) \<Longrightarrow>
     makes_only P (case r of Inl e \<Rightarrow> fl e | Inr x \<Rightarrow> fr x)"
  "makes_only P n \<Longrightarrow> (\<And>x. v = Some x \<Longrightarrow> makes_only P (fs x)) \<Longrightarrow>
     makes_only P (case v of None \<Rightarrow> n | Some x \<Rightarrow> fs x)"
  "(\<And>x y. p = (x, y) \<Longrightarrow> makes_only P (fp x y)) \<Longrightarrow> makes_only P (case p of (x, y) \<Rightarrow> fp x y)"
  by (auto split: sum.splits option.splits prod.splits)

lemma makes_only_env:
  "P (ReadEnv name) \<Longrightarrow> makes_only P (ReadEnvFile E name)"
  "P (WriteEnv name) \<Longrightarrow> makes_only P (WriteEnvFile E name env)"
  "P (RemoveEnv name) \<Longrightarrow> makes_only P (RemoveEnvFile E name)"
  by (auto simp: makes_only_def ReadEnvFile_def WriteEnvFile_def RemoveEnvFile_def logged_def Let_def
      split: prod.splits)

lemma makes_only_PrepareMounts: "makes_only P (PrepareMounts E ms)"
  by (simp add: makes_only_def PrepareMounts_def)

lemmas makes_only_rules = makes_only_pure makes_only_bind makes_only_attempt makes_only_api
  makes_only_split makes_only_env makes_only_PrepareMounts
declare makes_only_rules [call_rules]

lemma makes_onlyD:
  assumes "makes_only P m" and "m w = (r, w')"
  obtains es where "events w' = events w @ es" and "\<And>e. e \<in> set es \<Longrightarrow> P (fst e)"
proof -
  obtain es where "events (snd (m w)) = events w @ es" "\<forall>e \<in> set es. P (fst e)"
    using assms(1) unfolding makes_only_def by blast
  then show thesis using assms(2) that [of es] by simp
qed

lemma keeps_pure [call_rules]: "keeps f (ret x)" "keeps f (fail e)" "keeps f (lift_result r)"
  by (simp_all add: keeps_def ret_def fail_def lift_result_def)

lemma keeps_disk_rules [call_rules]:
  "keeps_disk (api c f)" "keeps_disk (ReadEnvFile E name)" "keeps_disk (PrepareMounts E ms)"
  by (simp_all add: keeps_def api_def logged_def Let_def ReadEnvFile_def PrepareMounts_def)

lemma keeps_locks_rules [call_rules]:
  "keeps_locks (api c f)" "keeps_locks (ReadEnvFile E name)" "keeps_locks (PrepareMounts E ms)"
  "keeps_locks (WriteEnvFile E name env)" "keeps_locks (RemoveEnvFile E name)"
  by (simp_all add: keeps_def api_def logged_def Let_def ReadEnvFile_def PrepareMounts_def
      WriteEnvFile_def RemoveEnvFile_def split: prod.splits)

lemma keeps_bind [call_rules]:
  "keeps f m \<Longrightarrow> (\<And>x. keeps f (g x)) \<Longrightarrow> keeps f (bind_comp m g)"
  unfolding keeps_def bind_comp_def by (auto split: prod.splits sum.splits) (metis snd_conv)+

lemma keeps_attempt [call_rules]: "keeps f m \<Longrightarrow> keeps f (attempt m)"
  unfolding keeps_def attempt_def by (auto split: prod.splits) (metis snd_conv)

lemma keeps_split [call_rules]:
  "(b \<Longrightarrow> keeps f m) \<Longrightarrow> (\<not> b \<Longrightarrow> keeps f m') \<Longrightarrow> keeps f (if b then m else m')"
  "(\<And>e. r = Inl e \<Longrightarrow> keeps f (fl e)) \<Longrightarrow> (\<And>x. r = Inr x \<Longrightarrow> keeps f (fr x)) \<Longrightarrow>
     keeps f (case r of Inl e \<Rightarrow> fl e | Inr x \<Rightarrow> fr x)"
  "keeps f n \<Longrightarrow> (\<And>x. v = Some x \<Longrightarrow> keeps f (fs x)) \<Longrightarrow>
     keeps f (case v of None \<Rightarrow> n | Some x \<Rightarrow> fs x)"
  "(\<And>x y. p = (x, y) \<Longrightarrow> keeps f (fp x y)) \<Longrightarrow> keeps f (case p of (x, y) \<Rightarrow> fp x y)"
  by (auto split: sum.splits option.splits prod.splits)

lemma keepsD: "keeps f m \<Longrightarrow> m w = (r, w') \<Longrightarrow> f w' = f w"
  unfolding keeps_def by (metis snd_conv)

section \<open>Triples over the world\<close>

lemma triple_api [hoare_rules]:
  assumes "\<And>w x. P w \<Longrightarrow> f (events w) = Inr x \<Longrightarrow> Q x (logged c True w)"
    and "\<And>w e. P w \<Longrightarrow> f (events w) = Inl e \<Longrightarrow> R (Docker e) (logged c False w)"
  shows "triple P (api c f) Q R"
proof (rule tripleI)
  fix w x w'
  assume "P w" and "api c f w = (Inr x, w')"
  then show "Q x w'" using assms(1) by (cases "f (events w)") (auto simp: api_def Let_def)
next
  fix w e w'
  assume "P w" and "api c f w = (Inl e, w')"
  then show "R e w'" using assms(2) by (cases "f (events w)") (auto simp: api_def Let_def)
qed

text \<open>
  A property of the history that the calls in \<open>C\<close> cannot break holds after every
  computation that makes only such calls.
\<close>

lemma triple_makes_only:
  assumes "makes_only C m" and "\<And>h c ok. I h \<Longrightarrow> C c \<Longrightarrow> I (h @ [(c, ok)])"
  shows "triple (\<lambda>w. I (events w)) m (\<lambda>_ w. I (events w)) (\<lambda>_ w. I (events w))"
proof -
  have step: "I (h @ es)" if "I h" and "\<And>e. e \<in> set es \<Longrightarrow> C (fst e)" for h es
    using that
  proof (induction es arbitrary: h)
    case (Cons e es)
    have "I (h @ [e])" using Cons.prems assms(2) [of h "fst e" "snd e"] by simp
    then have "I ((h @ [e]) @ es)" using Cons.prems(2) by (intro Cons.IH) auto
    then show ?case by simp
  qed simp
  show ?thesis
    by (rule tripleI) (metis makes_onlyD [OF assms(1)] step)+
qed

end
