(* ===== verification/Demo.thy ===== *)
theory Demo
  imports Commands
begin

text \<open>
  A concrete host and two concrete daemons, on which the properties that have hypotheses
  are shown to apply: a daemon that has nothing, and one with a single running box \<open>a\<close>.
\<close>

definition empty_daemon :: engine where
  "empty_daemon =
     \<lparr>eng_connect = \<lambda>h. Inr (), eng_inspect = \<lambda>h i. Inl NotFound, eng_list = \<lambda>h. Inr [],
      eng_start = \<lambda>h i. Inl NotFound, eng_stop = \<lambda>h i. Inl NotFound,
      eng_remove = \<lambda>h i. Inl NotFound, eng_create = \<lambda>h spec swap. Inr (''id-'' @ spec_Name spec),
      eng_update = \<lambda>h i n m s. Inl NotFound, eng_inspect_network = \<lambda>h n. Inl NotFound,
      eng_create_network = \<lambda>h n ls. Inr ''net'', eng_remove_network = \<lambda>h n. Inl NotFound,
      eng_inspect_volume = \<lambda>h n. Inl NotFound, eng_create_volume = \<lambda>h n ls. Inr n,
      eng_remove_volume = \<lambda>h n. Inl NotFound, eng_inspect_image = \<lambda>h t. Inl NotFound,
      eng_build_image = \<lambda>h t c. Inr (), eng_list_images = \<lambda>h r. Inr [],
      eng_remove_image = \<lambda>h r. Inl NotFound, eng_exec = \<lambda>h i c u. Inl NotFound,
      eng_ephemeral = \<lambda>h img e c v b i. Inr (0, ''''), eng_disk_usage = \<lambda>h. Inr []\<rparr>"

definition demo_labels :: "string \<Rightarrow> labels" where
  "demo_labels who = BoxLabels ''a'' ''1'' who"

definition demo_summary :: "string \<Rightarrow> string \<Rightarrow> container_summary" where
  "demo_summary i who =
     \<lparr>cs_ID = i, cs_Image = ''tx9-box:1'', cs_ImageID = ''img'', cs_Labels = demo_labels who,
      cs_State = ''running''\<rparr>"

definition demo_container :: "string \<Rightarrow> string \<Rightarrow> container_json" where
  "demo_container i who =
     \<lparr>cj_Base = Some \<lparr>cb_ID = i, cb_Image = ''img'', cb_Running = Some True,
        cb_Host = Some \<lparr>NanoCPUs = 0, MemoryBytes = 0\<rparr>\<rparr>,
      cj_Labels = Some (demo_labels who),
      cj_Ports = Some [executorPort \<mapsto> [(''0.0.0.0'', ''4000'')]], cj_ConfigImage = ''tx9-box:1''\<rparr>"

text \<open>The daemon with the box \<open>a\<close>: agent \<open>A\<close>, executor \<open>X\<close>; every request succeeds.\<close>

definition box_daemon :: engine where
  "box_daemon = empty_daemon
     \<lparr>eng_inspect := \<lambda>h i.
        if i = ''A'' \<or> i = agent_container ''a'' then Inr (demo_container ''A'' agent_role)
        else if i = ''X'' \<or> i = executor_container ''a'' then Inr (demo_container ''X'' executor_role)
        else Inl NotFound,
      eng_list := \<lambda>h. Inr [demo_summary ''A'' agent_role, demo_summary ''X'' executor_role],
      eng_start := \<lambda>h i. Inr (), eng_stop := \<lambda>h i. Inr (), eng_remove := \<lambda>h i. Inr (),
      eng_update := \<lambda>h i n m s. Inr [],
      eng_exec := \<lambda>h i c u. Inr \<lparr>Stdout = ''active'', Stderr = '''', ExitCode = 0\<rparr>\<rparr>"

definition demo_host :: host where
  "demo_host = \<lparr>home_dir = Some ''/h'', mkdir_ok = \<lambda>d. True\<rparr>"

definition demo_mounts :: mount_host where
  "demo_mounts = \<lparr>Stat = \<lambda>p. None, mountinfo = None, AbsPath = Some, EvalSymlinks = Some\<rparr>"

definition demo_net :: net_lib where
  "demo_net = \<lparr>parse_url = \<lambda>s. None, url_string = \<lambda>u. '''', parse_v6 = \<lambda>s. None\<rparr>"

definition demo :: "engine \<Rightarrow> system" where
  "demo D =
     \<lparr>daemon = D, host = demo_host, unreadable = \<lambda>h p. False, write_fails = \<lambda>h c. False,
      write_partial = \<lambda>h. '''', write_rnd = \<lambda>h. 0, remove_fails = \<lambda>h. False,
      read_dir = \<lambda>h. Some [], lock_opens = \<lambda>h. True, lock_works = \<lambda>h. True,
      random_draws = \<lambda>h k. k, random_bytes = \<lambda>h. Some (replicate 32 7),
      mounts_at = \<lambda>h. demo_mounts, cancelled = \<lambda>h. False, marshal = \<lambda>ms. ''[]'',
      unmarshal = \<lambda>s. Some [], netlib = demo_net, getenv = \<lambda>k. '''', Version = ''1'',
      build_files = Directory (Some []), bad_header = \<lambda>n. False\<rparr>"

definition fresh_world :: world where
  "fresh_world = \<lparr>events = [], disk = Map.empty, locks = initial_locks\<rparr>"

definition demo_box :: Box where
  "demo_box = \<lparr>b_Name = ''a'', AgentID = ''A'', ExecutorID = ''X'', AgentState = ''running'',
     ExecutorState = ''running'', ExecutorWebBaseURL = '''', b_Version = ''1''\<rparr>"

text \<open>The same with the token of the box in its settings, and the flags that set nothing.\<close>

definition token_world :: world where
  "token_world = fresh_world\<lparr>disk := [''/h/.tx9/boxes/a.env'' \<mapsto> ''EXECUTOR_MCP_TOKEN=t'']\<rparr>"

definition clear_flags :: executorConfigFlags where
  "clear_flags = \<lparr>f_webBaseURL = '''', f_publish = '''', f_dns = '''', f_clear = True\<rparr>"

definition demo_config :: ExecutorConfig where
  "demo_config = \<lparr>WebBaseURL = '''', PublishIP = ''0.0.0.0'', PublishPort = '''', DNS = []\<rparr>"

definition unlimited :: Resources where
  "unlimited = \<lparr>Agent = \<lparr>NanoCPUs = 0, MemoryBytes = 0\<rparr>,
     Executor = \<lparr>NanoCPUs = 0, MemoryBytes = 0\<rparr>,
     AgentVolumeBudgetBytes = 0, ExecutorVolumeBudgetBytes = 0\<rparr>"

lemmas demo_simps [simp] = demo_def demo_host_def demo_net_def demo_mounts_def fresh_world_def
  empty_daemon_def box_daemon_def demo_summary_def demo_container_def demo_box_def

end
