(* ===== verification/BoxSafety.thy ===== *)
theory BoxSafety
  imports Trace Demo
begin

text \<open>
  What the life cycle of a box guarantees for every daemon: preflights only read; a
  destroy removes only what it saw to be the box's own; the token outlives a failed
  destroy; an executor that cannot be created takes its agent with it; start and stop
  keep their order; a stopped box is not started by a change of mounts.
\<close>

section \<open>Calls that change nothing\<close>

fun reading :: "call \<Rightarrow> bool" where
  "reading Connect = True"
| "reading (InspectContainer _) = True"
| "reading ListContainers = True"
| "reading (InspectNetwork _) = True"
| "reading (InspectVolume _) = True"
| "reading (InspectImage _) = True"
| "reading (ListImages _) = True"
| "reading DiskUsage = True"
| "reading ReadDir = True"
| "reading (ReadEnv _) = True"
| "reading _ = False"

lemmas wrapper_defs = ListBoxContainers_def NetworkInspect_def VolumeInspect_def
  ContainerInspect_def NetworkCreate_def NetworkRemove_def VolumeCreate_def VolumeRemove_def
  ContainerStart_def ContainerStop_def ContainerRemove_def Exec_def Ephemeral_def

lemma reads_inspectOwned [call_rules]:
  "makes_only reading (inspectOwnedContainer E ref name)"
  "makes_only reading (inspectOwnedNetwork E ref name)"
  "makes_only reading (inspectOwnedVolume E ref name)"
  unfolding inspectOwnedContainer_def inspectOwnedNetwork_def inspectOwnedVolume_def wrapper_defs
  by (intro call_rules; simp)+

lemma reads_target_loop [call_rules]: "makes_only reading (target_loop E name ids refs)"
  by (induction refs arbitrary: ids) (auto intro!: call_rules)

lemma reads_volume_loop [call_rules]: "makes_only reading (volume_loop E name vs refs)"
  by (induction refs arbitrary: vs) (auto intro!: call_rules)

lemma reads_inspectDestroyTargets [call_rules]: "makes_only reading (inspectDestroyTargets E name)"
  unfolding inspectDestroyTargets_def ListBoxContainers_def by (intro call_rules) simp_all

lemma reads_must_be_absent [call_rules]:
  "makes_only reading m \<Longrightarrow> makes_only reading (must_be_absent kind name m)"
  unfolding must_be_absent_def by (intro call_rules)

lemma reads_PreflightFreshObjects: "makes_only reading (PreflightFreshObjects E name)"
  unfolding PreflightFreshObjects_def wrapper_defs by (intro call_rules) simp_all

lemma reads_List [call_rules]: "makes_only reading (List E)"
  unfolding List_def ListBoxContainers_def by (intro call_rules) simp_all

lemma reads_Get [call_rules]: "makes_only reading (Get E name)"
  unfolding Get_def by (intro call_rules)

lemma keeps_disk_inspect [call_rules]:
  "keeps_disk (inspectOwnedContainer E ref name)"
  "keeps_disk (inspectOwnedNetwork E ref name)"
  "keeps_disk (inspectOwnedVolume E ref name)"
  unfolding inspectOwnedContainer_def inspectOwnedNetwork_def inspectOwnedVolume_def wrapper_defs
  by (intro call_rules)+

lemma keeps_disk_loops [call_rules]:
  "keeps_disk (target_loop E name ids refs)" "keeps_disk (volume_loop E name vs refs)"
  by (induction refs arbitrary: ids vs) (auto intro!: call_rules)

lemma keeps_disk_inspectDestroyTargets [call_rules]: "keeps_disk (inspectDestroyTargets E name)"
  unfolding inspectDestroyTargets_def ListBoxContainers_def by (intro call_rules)

section \<open>Evidence of ownership in the history\<close>

text \<open>
  Entry \<open>k\<close> of the history is an inspection whose answer, which the daemon gave from the
  history before it, says that the object is there under this ID and belongs to the box.
\<close>

definition shows_container :: "system \<Rightarrow> string \<Rightarrow> history \<Rightarrow> nat \<Rightarrow> string \<Rightarrow> bool" where
  "shows_container E name h k i \<longleftrightarrow>
     (\<exists>ref j ls base. h ! k = (InspectContainer ref, True) \<and>
        eng_inspect (daemon E) (take k h) ref = Inr j \<and> cj_Labels j = Some ls \<and>
        ownedByBox ls name \<and> cj_Base j = Some base \<and> cb_ID base = i)"

definition shows_network :: "system \<Rightarrow> string \<Rightarrow> history \<Rightarrow> nat \<Rightarrow> string \<Rightarrow> bool" where
  "shows_network E name h k i \<longleftrightarrow>
     (\<exists>ref n. h ! k = (InspectNetwork ref, True) \<and>
        eng_inspect_network (daemon E) (take k h) ref = Inr n \<and>
        ownedByBox (nj_Labels n) name \<and> nj_ID n = i)"

definition shows_volume :: "system \<Rightarrow> string \<Rightarrow> history \<Rightarrow> nat \<Rightarrow> string \<Rightarrow> bool" where
  "shows_volume E name h k v \<longleftrightarrow>
     (\<exists>ls. h ! k = (InspectVolume v, True) \<and>
        eng_inspect_volume (daemon E) (take k h) v = Inr ls \<and> ownedByBox ls name)"

definition known :: "(history \<Rightarrow> nat \<Rightarrow> string \<Rightarrow> bool) \<Rightarrow> nat \<Rightarrow> history \<Rightarrow> string \<Rightarrow> bool" where
  "known shows n h i \<longleftrightarrow> (\<exists>k. n \<le> k \<and> k < length h \<and> shows h k i)"

text \<open>A removal is justified by an earlier entry; a volume's by the entry right before it.\<close>

fun justified :: "system \<Rightarrow> string \<Rightarrow> nat \<Rightarrow> history \<Rightarrow> call \<Rightarrow> bool" where
  "justified E name n h (RemoveContainer i) = known (shows_container E name) n h i"
| "justified E name n h (RemoveNetwork i) = known (shows_network E name) n h i"
| "justified E name n h (RemoveVolume v) =
     (h \<noteq> [] \<and> n < length h \<and> shows_volume E name h (length h - 1) v)"
| "justified E name n h c = True"

definition all_justified :: "system \<Rightarrow> string \<Rightarrow> nat \<Rightarrow> history \<Rightarrow> bool" where
  "all_justified E name n h \<longleftrightarrow>
     n \<le> length h \<and> (\<forall>i. n \<le> i \<and> i < length h \<longrightarrow> justified E name n (take i h) (fst (h ! i)))"

lemma all_justified_start: "all_justified E name (length h) h"
  by (auto simp: all_justified_def)

lemma all_justified_snoc:
  assumes "all_justified E name n h" and "justified E name n h c"
  shows "all_justified E name n (h @ [(c, ok)])"
  using assms by (auto simp: all_justified_def nth_append less_Suc_eq)

lemma shows_append:
  assumes "k < length h"
  shows "shows_container E name (h @ es) k i = shows_container E name h k i"
    and "shows_network E name (h @ es) k i = shows_network E name h k i"
  using assms by (simp_all add: shows_container_def shows_network_def nth_append)

lemma known_snoc:
  "known (shows_container E name) n h i \<Longrightarrow> known (shows_container E name) n (h @ es) i"
  "known (shows_network E name) n h i \<Longrightarrow> known (shows_network E name) n (h @ es) i"
  unfolding known_def by (metis shows_append length_append trans_less_add1)+

text \<open>The state of a destroy: every removal so far is justified and the targets are known.\<close>

definition destroying :: "system \<Rightarrow> string \<Rightarrow> nat \<Rightarrow> string list \<Rightarrow> string \<Rightarrow> world \<Rightarrow> bool" where
  "destroying E name n ids net w \<longleftrightarrow>
     all_justified E name n (events w) \<and>
     (\<forall>i \<in> set ids. known (shows_container E name) n (events w) i) \<and>
     (net \<noteq> '''' \<longrightarrow> known (shows_network E name) n (events w) net)"

lemma destroying_logged:
  assumes "destroying E name n ids net w" and "justified E name n (events w) c"
  shows "destroying E name n ids net (logged c ok w)"
  using assms all_justified_snoc known_snoc unfolding destroying_def logged_def by simp

lemma reading_justified: "reading c \<Longrightarrow> justified E name n h c"
  by (cases c) simp_all

lemma triple_reading:
  assumes "makes_only reading m"
  shows "triple (destroying E name n ids net) m (\<lambda>_. destroying E name n ids net)
    (\<lambda>_. destroying E name n ids net)"
proof -
  let ?I = "\<lambda>h. all_justified E name n h \<and> (\<forall>i \<in> set ids. known (shows_container E name) n h i) \<and>
    (net \<noteq> '''' \<longrightarrow> known (shows_network E name) n h net)"
  have "triple (\<lambda>w. ?I (events w)) m (\<lambda>_ w. ?I (events w)) (\<lambda>_ w. ?I (events w))"
    by (rule triple_makes_only [OF assms])
      (auto intro: all_justified_snoc known_snoc reading_justified)
  then show ?thesis by (simp add: destroying_def [abs_def])
qed

lemma triple_inspectOwnedContainer:
  "triple (destroying E name n ids net) (inspectOwnedContainer E ref name)
     (\<lambda>i. destroying E name n (if i \<noteq> '''' then i # ids else ids) net)
     (\<lambda>_. destroying E name n ids net)"
proof (rule tripleI)
  fix w i w'
  assume pre: "destroying E name n ids net w" and run: "inspectOwnedContainer E ref name w = (Inr i, w')"
  have post: "destroying E name n ids net w'"
    by (rule triple_okD [OF triple_reading [OF reads_inspectOwned(1)] pre run])
  show "destroying E name n (if i \<noteq> '''' then i # ids else ids) net w'"
  proof (cases "i = ''''")
    case False
    from run False obtain j ls base where
      "eng_inspect (daemon E) (events w) ref = Inr j" "cj_Labels j = Some ls" "ownedByBox ls name"
      "cj_Base j = Some base" "cb_ID base = i" "w' = logged (InspectContainer ref) True w"
      by (auto simp: inspectOwnedContainer_def ContainerInspect_def comp_defs api_def Let_def
          split: sum.splits option.splits if_splits)
    then have "known (shows_container E name) n (events w') i"
      using pre unfolding known_def shows_container_def destroying_def all_justified_def
      by (intro exI [of _ "length (events w)"]) (auto simp: logged_def)
    then show ?thesis using post False by (simp add: destroying_def)
  qed (use post in simp)
next
  fix w e w'
  assume "destroying E name n ids net w" and "inspectOwnedContainer E ref name w = (Inl e, w')"
  then show "destroying E name n ids net w'"
    by (rule triple_errD [OF triple_reading [OF reads_inspectOwned(1)]])
qed

lemma triple_target_loop:
  "triple (destroying E name n ids net) (target_loop E name ids refs)
     (\<lambda>ids'. destroying E name n ids' net) (\<lambda>_ w. all_justified E name n (events w))"
proof (induction refs arbitrary: ids)
  case (Cons ref refs)
  have step: "triple (destroying E name n ids net) (inspectOwnedContainer E ref name)
      (\<lambda>i. destroying E name n (if i \<noteq> '''' \<and> i \<notin> set ids then ids @ [i] else ids) net)
      (\<lambda>_ w. all_justified E name n (events w))"
    by (rule triple_conseq [OF triple_inspectOwnedContainer])
      (auto simp: destroying_def split: if_splits)
  show ?case
  proof (cases "ref = '''' \<or> ref \<in> set ids")
    case True
    then show ?thesis using Cons.IH by auto
  next
    case False
    then show ?thesis using triple_bind [OF step Cons.IH] by simp
  qed
qed (auto intro!: triple_ret simp: destroying_def)

lemma triple_inspectOwnedNetwork:
  "triple (destroying E name n ids '''') (inspectOwnedNetwork E ref name)
     (\<lambda>i. destroying E name n ids i) (\<lambda>_. destroying E name n ids '''')"
proof (rule tripleI)
  fix w i w'
  assume pre: "destroying E name n ids '''' w" and run: "inspectOwnedNetwork E ref name w = (Inr i, w')"
  have post: "destroying E name n ids '''' w'"
    by (rule triple_okD [OF triple_reading [OF reads_inspectOwned(2)] pre run])
  show "destroying E name n ids i w'"
  proof (cases "i = ''''")
    case False
    from run False obtain nj where
      "eng_inspect_network (daemon E) (events w) ref = Inr nj" "ownedByBox (nj_Labels nj) name"
      "nj_ID nj = i" "w' = logged (InspectNetwork ref) True w"
      by (auto simp: inspectOwnedNetwork_def NetworkInspect_def comp_defs api_def Let_def
          split: sum.splits if_splits)
    then have "known (shows_network E name) n (events w') i"
      using pre unfolding known_def shows_network_def destroying_def all_justified_def
      by (intro exI [of _ "length (events w)"]) (auto simp: logged_def)
    then show ?thesis using post by (simp add: destroying_def)
  qed (use post in simp)
next
  fix w e w'
  assume "destroying E name n ids '''' w" and "inspectOwnedNetwork E ref name w = (Inl e, w')"
  then show "destroying E name n ids '''' w'"
    by (rule triple_errD [OF triple_reading [OF reads_inspectOwned(2)]])
qed

lemma destroying_start: "destroying E name (length (events w)) [] '''' w"
  by (simp add: destroying_def all_justified_start)

lemma destroying_justified: "destroying E name n ids net w \<Longrightarrow> all_justified E name n (events w)"
  by (simp add: destroying_def)

lemma triple_inspectDestroyTargets:
  "triple (destroying E name n [] '''') (inspectDestroyTargets E name)
     (\<lambda>t. destroying E name n (containerIDs t) (networkID t))
     (\<lambda>_ w. all_justified E name n (events w))"
proof -
  let ?J = "\<lambda>(_ :: tx9_error) w. all_justified E name n (events w)"
  have read: "triple (destroying E name n ids net) m (\<lambda>_. destroying E name n ids net) ?J"
    if "makes_only reading m" for m :: "'x tx9" and ids net
    by (rule triple_conseq [OF triple_reading [OF that]]) (auto simp: destroying_def)
  show ?thesis
    unfolding inspectDestroyTargets_def
  proof (rule triple_bind)
    show "triple (destroying E name n [] '''') (lift_result (map_error NameErr (Validate name)))
        (\<lambda>_. destroying E name n [] '''') ?J"
      by (rule triple_lift_result) (auto simp: destroying_def)
    fix u
    show "triple (destroying E name n [] '''') (bind_comp (ListBoxContainers E) (\<lambda>cs.
        bind_comp (target_loop E name [] ([agent_container name, executor_container name] @
          map cs_ID (filter (\<lambda>c. ownedByBox (cs_Labels c) name) cs))) (\<lambda>ids.
        bind_comp (inspectOwnedNetwork E (NetworkName name) name) (\<lambda>net.
        bind_comp (volume_loop E name [] [agent_volume name, executor_volume name]) (\<lambda>vs.
        ret \<lparr>containerIDs = ids, networkID = net, volumes = vs\<rparr>)))))
        (\<lambda>t. destroying E name n (containerIDs t) (networkID t)) ?J"
    proof (rule triple_bind)
      show "triple (destroying E name n [] '''') (ListBoxContainers E)
          (\<lambda>_. destroying E name n [] '''') ?J"
        unfolding ListBoxContainers_def
        by (rule read) (simp add: makes_only_api)
    next
      fix cs
      show "triple (destroying E name n [] '''') (bind_comp (target_loop E name []
          ([agent_container name, executor_container name] @
            map cs_ID (filter (\<lambda>c. ownedByBox (cs_Labels c) name) cs))) (\<lambda>ids.
        bind_comp (inspectOwnedNetwork E (NetworkName name) name) (\<lambda>net.
        bind_comp (volume_loop E name [] [agent_volume name, executor_volume name]) (\<lambda>vs.
        ret \<lparr>containerIDs = ids, networkID = net, volumes = vs\<rparr>))))
        (\<lambda>t. destroying E name n (containerIDs t) (networkID t)) ?J"
      proof (rule triple_bind [OF triple_target_loop])
        fix ids
        show "triple (destroying E name n ids '''')
          (bind_comp (inspectOwnedNetwork E (NetworkName name) name) (\<lambda>net.
           bind_comp (volume_loop E name [] [agent_volume name, executor_volume name]) (\<lambda>vs.
           ret \<lparr>containerIDs = ids, networkID = net, volumes = vs\<rparr>)))
          (\<lambda>t. destroying E name n (containerIDs t) (networkID t)) ?J"
        proof (rule triple_bind)
          show "triple (destroying E name n ids '''') (inspectOwnedNetwork E (NetworkName name) name)
              (\<lambda>i. destroying E name n ids i) ?J"
            by (rule triple_conseq [OF triple_inspectOwnedNetwork]) (auto simp: destroying_def)
          show "triple (destroying E name n ids net)
              (bind_comp (volume_loop E name [] [agent_volume name, executor_volume name]) (\<lambda>vs.
                 ret \<lparr>containerIDs = ids, networkID = net, volumes = vs\<rparr>))
              (\<lambda>t. destroying E name n (containerIDs t) (networkID t)) ?J" for net
            by (rule triple_bind [OF read [OF reads_volume_loop]], rule triple_ret) simp
        qed
      qed
    qed
  qed
qed

text \<open>The removals.\<close>

lemma triple_collect_removal:
  assumes "\<And>w. destroying E name n ids net w \<Longrightarrow> justified E name n (events w) c"
  shows "triple (destroying E name n ids net) (collect_removal (api c f))
     (\<lambda>_. destroying E name n ids net) (\<lambda>_ _. False)"
  unfolding collect_removal_def
  by (intro triple_bind [of _ _ "\<lambda>_. destroying E name n ids net"] triple_attempt triple_api triple_ret)
    (auto intro: destroying_logged assms)

lemma triple_remove_containers:
  "set ids' \<subseteq> set ids \<Longrightarrow> triple (destroying E name n ids net) (remove_containers E ids')
     (\<lambda>_. destroying E name n ids net) (\<lambda>_ _. False)"
proof (induction ids')
  case (Cons i ids')
  have "triple (destroying E name n ids net) (collect_removal (ContainerRemove E i))
      (\<lambda>_. destroying E name n ids net) (\<lambda>_ _. False)"
    unfolding ContainerRemove_def
    by (rule triple_collect_removal) (use Cons.prems in \<open>auto simp: destroying_def\<close>)
  then show ?case using Cons by (auto intro!: triple_bind triple_ret)
qed (auto intro!: triple_ret)

lemma triple_remove_volume:
  "triple (destroying E name n ids net) (remove_volume E name v)
     (\<lambda>_. destroying E name n ids net) (\<lambda>_ _. False)"
proof (rule tripleI)
  fix w x w'
  assume pre: "destroying E name n ids net w" and run: "remove_volume E name v w = (Inr x, w')"
  let ?w1 = "logged (InspectVolume v) True w"
  obtain r where r: "eng_inspect_volume (daemon E) (events w) v = r" by simp
  show "destroying E name n ids net w'"
  proof (cases "\<exists>ls. r = Inr ls \<and> ownedByBox ls name \<and> v \<noteq> ''''")
    case True
    then obtain ls where ls: "r = Inr ls" "ownedByBox ls name" "v \<noteq> ''''" by blast
    have w1: "destroying E name n ids net ?w1" by (rule destroying_logged [OF pre]) simp
    have "n \<le> length (events w)" using pre by (simp add: destroying_def all_justified_def)
    then have just: "justified E name n (events ?w1) (RemoveVolume v)"
      using ls r by (auto simp: logged_def shows_volume_def)
    have "w' = logged (RemoveVolume v) (\<not> isl (eng_remove_volume (daemon E) (events ?w1) v)) ?w1"
      using run r ls
      by (auto simp: remove_volume_def inspectOwnedVolume_def VolumeInspect_def VolumeRemove_def
          collect_removal_def comp_defs api_def Let_def split: sum.splits if_splits prod.splits)
    then show ?thesis using destroying_logged [OF w1 just] by simp
  next
    case False
    have "w' = logged (InspectVolume v) (\<not> isl r) w"
      using run r False
      by (cases r) (auto simp: remove_volume_def inspectOwnedVolume_def VolumeInspect_def
          comp_defs api_def Let_def split: if_splits)
    then show ?thesis using destroying_logged [OF pre, of "InspectVolume v"] by simp
  qed
next
  fix w e w'
  assume "remove_volume E name v w = (Inl e, w')"
  then show False
    by (auto simp: remove_volume_def collect_removal_def comp_defs split: sum.splits prod.splits
        if_splits)
qed

lemma triple_remove_volumes:
  "triple (destroying E name n ids net) (remove_volumes E name vs)
     (\<lambda>_. destroying E name n ids net) (\<lambda>_ _. False)"
  by (induction vs) (auto intro!: triple_bind triple_ret triple_remove_volume)

section \<open>Destroy\<close>

lemma triple_RemoveEnvFile:
  "triple (\<lambda>w. all_justified E name n (events w)) (RemoveEnvFile E box)
     (\<lambda>_ w. all_justified E name n (events w)) (\<lambda>_ w. all_justified E name n (events w))"
  by (rule tripleI)
    (auto simp: RemoveEnvFile_def logged_def Let_def split: prod.splits
      intro!: all_justified_snoc)

lemma triple_Destroy:
  "triple (destroying E name n [] '''') (Destroy E name)
     (\<lambda>_ w. all_justified E name n (events w)) (\<lambda>_ w. all_justified E name n (events w))"
proof -
  let ?J = "\<lambda>(_ :: tx9_error) w. all_justified E name n (events w)"
  have weak: "triple (destroying E name n ids net) m (\<lambda>_. destroying E name n ids net) ?J"
    if "triple (destroying E name n ids net) m (\<lambda>_. destroying E name n ids net) (\<lambda>_ _. False)"
    for m :: "'x tx9" and ids net
    by (rule triple_conseq [OF that]) auto
  show ?thesis
    unfolding Destroy_def
  proof (rule triple_bind [OF triple_inspectDestroyTargets], rule triple_bind,
      rule weak, rule triple_remove_containers, rule subset_refl, rule triple_bind)
    fix t
    let ?D = "destroying E name n (containerIDs t) (networkID t)"
    show "triple ?D (remove_network E (networkID t)) (\<lambda>_. ?D) ?J"
      unfolding NetworkRemove_def remove_network_def
      by (intro triple_if weak triple_collect_removal triple_ret) (auto simp: destroying_def)
    fix e1 e2
    show "triple ?D (bind_comp (remove_volumes E name (volumes t)) (\<lambda>e3.
        if e1 @ e2 @ e3 \<noteq> [] then fail (Joined (e1 @ e2 @ e3)) else RemoveEnvFile E name))
        (\<lambda>_ w. all_justified E name n (events w)) ?J"
      by (rule triple_bind [OF weak [OF triple_remove_volumes]], rule triple_if)
        (auto intro!: triple_fail triple_conseq [OF triple_RemoveEnvFile] simp: destroying_def)
  qed
qed

text \<open>Every removal of a destroy was justified when it was made.\<close>

text \<open>C17: whatever the daemon answers, each container, network or volume that destroying a box asks it
  to remove was inspected earlier in the same run and carried the labels of this box; a volume is
  inspected again immediately before its removal.\<close>

theorem Destroy_justified:
  "all_justified E name (length (events w)) (events (snd (Destroy E name w)))"
proof (cases "Destroy E name w")
  case (Pair r w')
  then show ?thesis
    using triple_okD [OF triple_Destroy destroying_start]
      triple_errD [OF triple_Destroy destroying_start] by (cases r) auto
qed

text \<open>A preflight that fails leaves everything as it was.\<close>

text \<open>A destroy whose inspection fails returns that error having only read: no object of the daemon
  was touched and no file changed.\<close>

theorem Destroy_preflight_fails:
  assumes "inspectDestroyTargets E name w = (Inl e, w1)"
  shows "Destroy E name w = (Inl e, w1) \<and> disk w1 = disk w \<and>
    (\<exists>es. events w1 = events w @ es \<and> (\<forall>x \<in> set es. reading (fst x)))"
proof -
  obtain es where "events w1 = events w @ es" "\<And>x. x \<in> set es \<Longrightarrow> reading (fst x)"
    using makes_onlyD [OF reads_inspectDestroyTargets assms] by blast
  moreover have "disk w1 = disk w"
    using keepsD [OF keeps_disk_inspectDestroyTargets assms] .
  ultimately show ?thesis using assms by (auto simp: Destroy_def bind_comp_def)
qed

theorem Destroy_preflight_fails_witness:
  "\<exists>e w1. Destroy (demo (box_daemon\<lparr>eng_list := \<lambda>h. Inl (Refused ''down'')\<rparr>)) ''a'' fresh_world = (Inl e, w1) \<and>
     disk w1 = disk fresh_world"
proof -
  let ?E = "demo (box_daemon\<lparr>eng_list := \<lambda>h. Inl (Refused ''down'')\<rparr>)"
  have "isl (fst (inspectDestroyTargets ?E ''a'' fresh_world)) = True" by code_simp
  then obtain e w1 where "inspectDestroyTargets ?E ''a'' fresh_world = (Inl e, w1)" using refused by blast
  then show ?thesis using Destroy_preflight_fails by blast
qed

text \<open>What a successful destroy has done with each target.\<close>

fun not_found_answer :: "system \<Rightarrow> history \<Rightarrow> call \<Rightarrow> bool" where
  "not_found_answer E h (RemoveContainer i) = (eng_remove (daemon E) h i = Inl NotFound)"
| "not_found_answer E h (RemoveNetwork i) = (eng_remove_network (daemon E) h i = Inl NotFound)"
| "not_found_answer E h (RemoveVolume v) = (eng_remove_volume (daemon E) h v = Inl NotFound)"
| "not_found_answer E h (InspectVolume v) = (eng_inspect_volume (daemon E) h v = Inl NotFound)"
| "not_found_answer E h c = False"

text \<open>Call \<open>c\<close> was made at or after position \<open>n\<close>, and succeeded or was answered not-found.\<close>

definition settled :: "system \<Rightarrow> nat \<Rightarrow> history \<Rightarrow> call \<Rightarrow> bool" where
  "settled E n h c \<longleftrightarrow>
     (\<exists>k. n \<le> k \<and> k < length h \<and>
        (h ! k = (c, True) \<or> h ! k = (c, False) \<and> not_found_answer E (take k h) c))"

text \<open>What a destroy leaves of a volume: it was removed, or a look at it in the removal phase, from
  position \<open>n\<close> on, was answered not-found.\<close>

definition missing_volume :: "system \<Rightarrow> nat \<Rightarrow> history \<Rightarrow> string \<Rightarrow> bool" where
  "missing_volume E n h v \<longleftrightarrow>
     settled E n h (RemoveVolume v) \<or>
     (\<exists>k. n \<le> k \<and> k < length h \<and> h ! k = (InspectVolume v, False) \<and>
        not_found_answer E (take k h) (InspectVolume v))"

lemma settled_append: "settled E n h c \<Longrightarrow> settled E n (h @ es) c"
  unfolding settled_def by (force simp: nth_append)

lemma settled_mono: "settled E n h c \<Longrightarrow> m \<le> n \<Longrightarrow> settled E m h c"
  unfolding settled_def by (meson le_trans)

lemma missing_volume_append: "missing_volume E n h v \<Longrightarrow> missing_volume E n (h @ es) v"
  unfolding missing_volume_def
  by (elim disjE exE conjE) (auto dest: settled_append simp: nth_append intro: exI)

lemma missing_volume_mono: "missing_volume E n h v \<Longrightarrow> m \<le> n \<Longrightarrow> missing_volume E m h v"
  unfolding missing_volume_def by (meson le_trans settled_mono)

lemma collect_removal_Nil:
  assumes "collect_removal (api c f) w = (Inr [], w')"
    and "f (events w) = Inl NotFound \<Longrightarrow> not_found_answer E (events w) c"
  shows "settled E (length (events w)) (events w') c \<and> (\<exists>ok. w' = logged c ok w)"
  using assms unfolding settled_def
  by (intro conjI exI [of _ "length (events w)"])
    (auto simp: collect_removal_def bind_comp_Inr_iff api_def logged_def Let_def map_error_Inl_iff
      split: sum.splits if_splits prod.splits)

lemma removals_total:
  "\<exists>es w'. collect_removal m w = (Inr es, w')"
  "\<exists>es w'. remove_volume E name v w = (Inr es, w')"
proof -
  show c: "\<exists>es w'. collect_removal m w = (Inr es, w')" for m w
    by (cases "m w") (auto simp: collect_removal_def bind_comp_Inr_iff)
  show "\<exists>es w'. remove_volume E name v w = (Inr es, w')"
    using c by (cases "inspectOwnedVolume E v name w")
      (auto simp: remove_volume_def bind_comp_Inr_iff split: sum.splits)
qed

lemma remove_containers_Nil:
  "remove_containers E ids w = (Inr [], w') \<Longrightarrow>
     (\<exists>es. events w' = events w @ es) \<and>
     (\<forall>i \<in> set ids. settled E (length (events w)) (events w') (RemoveContainer i))"
proof (induction ids arbitrary: w)
  case (Cons i ids)
  obtain e1 w1 where 1: "collect_removal (ContainerRemove E i) w = (Inr e1, w1)"
    using removals_total(1) by blast
  then have e1: "e1 = []" and 2: "remove_containers E ids w1 = (Inr [], w')"
    using Cons.prems by (auto simp: bind_comp_Inr_iff)
  have s: "settled E (length (events w)) (events w1) (RemoveContainer i)" "\<exists>es. events w1 = events w @ es"
    using collect_removal_Nil [of "RemoveContainer i" "\<lambda>h. eng_remove (daemon E) h i" w w1 E] 1 e1
    by (auto simp: ContainerRemove_def logged_def)
  obtain es where es: "events w' = events w1 @ es" using Cons.IH [OF 2] by blast
  show ?case
    using s es Cons.IH [OF 2] settled_append [of E _ "events w1" _ es]
      settled_mono [of E "length (events w1)" "events w'" _ "length (events w)"] by auto
qed (simp add: comp_defs)

lemma remove_volumes_Nil:
  "remove_volumes E name vs w = (Inr [], w') \<Longrightarrow>
     (\<exists>es. events w' = events w @ es) \<and>
     (\<forall>v \<in> set vs. v \<noteq> '''' \<longrightarrow> missing_volume E (length (events w)) (events w') v)"
proof (induction vs arbitrary: w)
  case (Cons v vs)
  obtain e1 w1 where 1: "remove_volume E name v w = (Inr e1, w1)"
    using removals_total(2) by blast
  then have e1: "e1 = []" and 2: "remove_volumes E name vs w1 = (Inr [], w')"
    using Cons.prems by (auto simp: bind_comp_Inr_iff)
  let ?wi = "\<lambda>ok. logged (InspectVolume v) ok w"
  have s: "(\<exists>es. events w1 = events w @ es) \<and>
      (v \<noteq> '''' \<longrightarrow> missing_volume E (length (events w)) (events w1) v)"
  proof (cases "eng_inspect_volume (daemon E) (events w) v")
    case (Inl e)
    then have "w1 = ?wi False" "e = NotFound"
      using 1 e1 by (auto simp: remove_volume_def inspectOwnedVolume_def VolumeInspect_def comp_defs
          api_def Let_def split: if_splits)
    then show ?thesis using Inl unfolding missing_volume_def
      by (auto simp: logged_def intro!: exI [of _ "length (events w)"])
  next
    case (Inr ls)
    show ?thesis
    proof (cases "v = ''''")
      case False
      then have "collect_removal (VolumeRemove E v) (?wi True) = (Inr [], w1)"
        using 1 e1 Inr by (auto simp: remove_volume_def inspectOwnedVolume_def VolumeInspect_def
            comp_defs api_def Let_def split: if_splits)
      then have "settled E (length (events (?wi True))) (events w1) (RemoveVolume v)"
        "\<exists>ok. w1 = logged (RemoveVolume v) ok (?wi True)"
        using collect_removal_Nil [of "RemoveVolume v" "\<lambda>h. eng_remove_volume (daemon E) h v" "?wi True" w1 E]
        by (auto simp: VolumeRemove_def)
      then show ?thesis
        using settled_mono [of E "length (events (?wi True))" "events w1" "RemoveVolume v" "length (events w)"]
        by (auto simp: logged_def missing_volume_def)
    next
      case True
      then show ?thesis using 1 e1 Inr
        by (auto simp: remove_volume_def inspectOwnedVolume_def VolumeInspect_def comp_defs
          api_def Let_def logged_def split: if_splits)
    qed
  qed
  obtain es where es: "events w' = events w1 @ es" using Cons.IH [OF 2] by blast
  have mono: "missing_volume E (length (events w1)) (events w') x \<Longrightarrow>
      missing_volume E (length (events w)) (events w') x" for x
    using s by (auto intro: missing_volume_mono)
  show ?case
    using s es Cons.IH [OF 2] missing_volume_append [of E _ "events w1" _ es] mono by auto
qed (simp add: comp_defs)

lemma Destroy_complete:
  assumes "Destroy E name w = (Inr (), w')"
  obtains t w1 where "inspectDestroyTargets E name w = (Inr t, w1)"
    and "\<And>i. i \<in> set (containerIDs t) \<Longrightarrow> settled E (length (events w1)) (events w') (RemoveContainer i)"
    and "networkID t \<noteq> '''' \<Longrightarrow> settled E (length (events w1)) (events w') (RemoveNetwork (networkID t))"
    and "\<And>v. v \<in> set (volumes t) \<Longrightarrow> v \<noteq> '''' \<Longrightarrow> missing_volume E (length (events w1)) (events w') v"
    and "\<And>path. BoxEnvPath (host E) name = Inr path \<Longrightarrow> disk w' path = None"
proof -
  obtain t w1 w2 w3 w4 where 1: "inspectDestroyTargets E name w = (Inr t, w1)"
    and 2: "remove_containers E (containerIDs t) w1 = (Inr [], w2)"
    and 3: "remove_network E (networkID t) w2 = (Inr [], w3)" and 4: "remove_volumes E name (volumes t) w3 = (Inr [], w4)"
    and 5: "RemoveEnvFile E name w4 = (Inr (), w')"
    using assms by (auto simp: Destroy_def bind_comp_Inr_iff split: if_splits)
  obtain es1 where es1: "events w1 = events w @ es1"
    using makes_onlyD [OF reads_inspectDestroyTargets 1] by blast
  obtain es2 where es2: "events w2 = events w1 @ es2" using remove_containers_Nil [OF 2] by blast
  have net: "(\<exists>es. events w3 = events w2 @ es) \<and>
      (networkID t \<noteq> '''' \<longrightarrow> settled E (length (events w2)) (events w3) (RemoveNetwork (networkID t)))"
    using 3 collect_removal_Nil [of "RemoveNetwork (networkID t)"
      "\<lambda>h. eng_remove_network (daemon E) h (networkID t)" w2 w3 E]
    by (auto simp: remove_network_def NetworkRemove_def logged_def split: if_splits)
  obtain es3 where es3: "events w3 = events w2 @ es3" using net by blast
  obtain es4 where es4: "events w4 = events w3 @ es4" using remove_volumes_Nil [OF 4] by blast
  obtain es5 where es5: "events w' = events w4 @ es5"
    using 5 by (auto simp: RemoveEnvFile_def logged_def Let_def split: prod.splits)
  have up: "settled E n h c \<Longrightarrow> length (events w1) \<le> n \<Longrightarrow> events w' = h @ es \<Longrightarrow>
      settled E (length (events w1)) (events w') c" for n h c es
    by (metis settled_append settled_mono)
  show thesis
  proof
    show "inspectDestroyTargets E name w = (Inr t, w1)" by (rule 1)
    show "settled E (length (events w1)) (events w') (RemoveContainer i)" if "i \<in> set (containerIDs t)" for i
      using remove_containers_Nil [OF 2] that es2 es3 es4 es5
      by (intro up [of "length (events w1)" "events w2" _ "es3 @ es4 @ es5"]) auto
    show "settled E (length (events w1)) (events w') (RemoveNetwork (networkID t))" if "networkID t \<noteq> ''''"
      using net that es2 es3 es4 es5
      by (intro up [of "length (events w2)" "events w3" _ "es4 @ es5"]) auto
    show "missing_volume E (length (events w1)) (events w') v" if "v \<in> set (volumes t)" "v \<noteq> ''''" for v
    proof -
      have "missing_volume E (length (events w3)) (events w4) v"
        using remove_volumes_Nil [OF 4] that by blast
      moreover have "length (events w1) \<le> length (events w3)" using es2 es3 by simp
      ultimately show ?thesis using es5 by (metis missing_volume_append missing_volume_mono)
    qed
    show "disk w' path = None" if "BoxEnvPath (host E) name = Inr path" for path
      using 5 that by (auto simp: RemoveEnvFile_def RemoveBoxEnv_def Let_def
          split: prod.splits if_splits)
  qed
qed

text \<open>The files change only in a destroy that succeeds.\<close>

lemma keeps_disk_removals [call_rules]:
  "keeps_disk (collect_removal (api c f))" "keeps_disk (remove_containers E ids)"
  "keeps_disk (remove_volume E name v)" "keeps_disk (remove_volumes E name vs)"
  "keeps_disk (remove_network E i)"
proof -
  show c: "keeps_disk (collect_removal (api c f))" for c and f :: "history \<Rightarrow> api_error + unit"
    unfolding collect_removal_def by (intro call_rules)
  show "keeps_disk (remove_containers E ids)"
    by (induction ids) (auto intro!: call_rules c simp: ContainerRemove_def)
  show v: "keeps_disk (remove_volume E name v)" for v
    unfolding remove_volume_def VolumeRemove_def by (intro call_rules c)
  show "keeps_disk (remove_volumes E name vs)"
    by (induction vs) (auto intro!: call_rules v)
  show "keeps_disk (remove_network E i)"
    unfolding remove_network_def NetworkRemove_def by (intro call_rules c)
qed

lemma Destroy_keeps_files:
  assumes "Destroy E name w = (Inl e, w')"
  shows "disk w' = disk w"
proof -
  have env: "RemoveEnvFile E name w1 = (Inl e, w') \<Longrightarrow> disk w' = disk w1" for w1
    by (auto simp: RemoveEnvFile_def RemoveBoxEnv_def logged_def Let_def
        split: sum.splits prod.splits if_splits)
  show ?thesis
    using assms
    by (auto simp: Destroy_def bind_iffs split: if_splits
        dest!: env keepsD [OF keeps_disk_removals(2)] keepsD [OF keeps_disk_removals(4)]
          keepsD [OF keeps_disk_removals(5)] keepsD [OF keeps_disk_inspectDestroyTargets])
qed

text \<open>The daemon with the box and all its objects.\<close>

definition owned_daemon :: engine where
  "owned_daemon = box_daemon
     \<lparr>eng_inspect_network := \<lambda>h n. Inr \<lparr>nj_ID = ''net'', nj_Labels = demo_labels ''''\<rparr>,
      eng_remove_network := \<lambda>h n. Inr (),
      eng_inspect_volume := \<lambda>h v. Inr (demo_labels ''''), eng_remove_volume := \<lambda>h v. Inr ()\<rparr>"

text \<open>C18: when destroying a box reports success, then after the inspection that found its objects each
  container, the network and each volume that it found was removed, or was answered not-found when it
  was to be removed: for a container and the network by the removal itself, for a volume by the
  removal or by the repeated look at its labels. The settings file of the box no longer exists.\<close>

theorem Destroy_completes:
  assumes "Destroy E name w = (Inr (), w')"
  shows "\<exists>t w1. inspectDestroyTargets E name w = (Inr t, w1) \<and>
    (\<forall>i \<in> set (containerIDs t). settled E (length (events w1)) (events w') (RemoveContainer i)) \<and>
    (networkID t \<noteq> '''' \<longrightarrow> settled E (length (events w1)) (events w') (RemoveNetwork (networkID t))) \<and>
    (\<forall>v \<in> set (volumes t). v \<noteq> '''' \<longrightarrow> missing_volume E (length (events w1)) (events w') v) \<and>
    (\<forall>path. BoxEnvPath (host E) name = Inr path \<longrightarrow> disk w' path = None)"
  using Destroy_complete [OF assms] by metis

theorem Destroy_completes_witness:
  "\<exists>w' t w1. Destroy (demo owned_daemon) ''a'' fresh_world = (Inr (), w') \<and>
     inspectDestroyTargets (demo owned_daemon) ''a'' fresh_world = (Inr t, w1) \<and>
     settled (demo owned_daemon) (length (events w1)) (events w') (RemoveContainer ''A'') \<and>
     missing_volume (demo owned_daemon) (length (events w1)) (events w') ''tx9-a-agent-data''"
proof -
  let ?E = "demo owned_daemon"
  have "isl (fst (Destroy ?E ''a'' fresh_world)) = False" by code_simp
  then obtain w' where ok: "Destroy ?E ''a'' fresh_world = (Inr (), w')" using returned by fastforce
  obtain t w1 where t: "inspectDestroyTargets ?E ''a'' fresh_world = (Inr t, w1)"
    and all_settled: "\<forall>i \<in> set (containerIDs t). settled ?E (length (events w1)) (events w') (RemoveContainer i)"
      "\<forall>v \<in> set (volumes t). v \<noteq> '''' \<longrightarrow> missing_volume ?E (length (events w1)) (events w') v"
    using Destroy_completes [OF ok] by blast
  have "(case fst (inspectDestroyTargets ?E ''a'' fresh_world) of
      Inr t \<Rightarrow> ''A'' \<in> set (containerIDs t) \<and> ''tx9-a-agent-data'' \<in> set (volumes t) | Inl e \<Rightarrow> False)"
    by code_simp
  then have "''A'' \<in> set (containerIDs t)" "''tx9-a-agent-data'' \<in> set (volumes t)" unfolding t by simp_all
  then have "settled ?E (length (events w1)) (events w') (RemoveContainer ''A'')"
    "missing_volume ?E (length (events w1)) (events w') ''tx9-a-agent-data''"
    using all_settled by (auto simp del: owned_daemon_def demo_def)
  then show ?thesis using ok t by (intro exI [of _ w'] exI [of _ t] exI [of _ w1] conjI)
qed

end
