(* ===== verification/BoxLifecycle.thy ===== *)
theory BoxLifecycle
  imports BoxSafety
begin

text \<open>
  What listing, creating, starting, recreating and preparing a box do, as statements on
  the calls made and their order.
\<close>

lemma api_Inr_iff:
  "api c f w = (Inr x, w') \<longleftrightarrow> f (events w) = Inr x \<and> w' = logged c True w"
  by (auto simp: api_def Let_def)

lemma api_Inl_iff:
  "api c f w = (Inl e, w') \<longleftrightarrow> (\<exists>a. f (events w) = Inl a \<and> e = Docker a \<and> w' = logged c False w)"
  by (auto simp: api_def Let_def map_error_Inl_iff)

lemma api_run:
  "api c f w =
     (case f (events w) of
        Inl a \<Rightarrow> (Inl (Docker a), logged c False w) | Inr x \<Rightarrow> (Inr x, logged c True w))"
  by (simp add: api_def Let_def split: sum.splits)

lemmas api_iffs = api_Inr_iff api_Inl_iff

lemma logged_simps [simp]:
  "events (logged c ok w) = events w @ [(c, ok)]" "disk (logged c ok w) = disk w"
  by (simp_all add: logged_def)

section \<open>Listing\<close>

lemma list_step_keys:
  "fst ` set (list_step byName c) =
     fst ` set byName \<union> {n. n = label_at (cs_Labels c) LabelBox \<and> n \<noteq> ''''}"
  by (auto simp: list_step_def Let_def dom_update split: option.splits)

lemma list_step_distinct:
  "distinct (map fst byName) \<Longrightarrow> distinct (map fst (list_step byName c))"
  by (auto simp: list_step_def Let_def distinct_update split: option.splits)

definition of_box :: "string \<Rightarrow> container_summary \<Rightarrow> bool" where
  "of_box name c \<longleftrightarrow> name \<noteq> '''' \<and> label_at (cs_Labels c) LabelBox = name"

text \<open>The box of a name is what its own containers make of an empty one, in list order.\<close>

definition box_from :: "string \<Rightarrow> container_summary list \<Rightarrow> Box" where
  "box_from name cs = fold add_container (filter (of_box name) cs) (empty_box name)"

lemma foldl_list_step_distinct: "distinct (map fst (foldl list_step [] cs))"
  by (induction cs rule: rev_induct) (simp_all add: list_step_distinct)

lemma map_of_list_step:
  "map_of (list_step byName c) name =
     (if of_box name c then
        Some (add_container c (case map_of byName name of None \<Rightarrow> empty_box name | Some b \<Rightarrow> b))
      else map_of byName name)"
  by (auto simp: list_step_def of_box_def Let_def update_conv')

lemma foldl_list_step:
  "map_of (foldl list_step [] cs) name =
     (if list_ex (of_box name) cs then Some (box_from name cs) else None)"
proof (induction cs rule: rev_induct)
  case (snoc c cs)
  have "box_from name (cs @ [c]) =
      (if of_box name c then add_container c (box_from name cs) else box_from name cs)"
    by (simp add: box_from_def)
  moreover have "box_from name cs = empty_box name" if "\<not> list_ex (of_box name) cs"
    using that by (simp add: box_from_def list_ex_iff filter_empty_conv [THEN iffD2])
  ultimately show ?case using snoc by (simp add: map_of_list_step)
qed simp

lemma add_container_Name [simp]: "b_Name (add_container c b) = b_Name b"
  by (simp add: add_container_def Let_def)

lemma fold_add_container_Name [simp]: "b_Name (fold add_container cs b) = b_Name b"
  by (induction cs arbitrary: b) auto

lemma box_from_Name [simp]: "b_Name (box_from name cs) = name"
  by (simp add: box_from_def empty_box_def)

lemma boxes_of_eq:
  "\<exists>names. boxes_of cs = map (\<lambda>n. box_from n cs) names \<and> sorted names \<and> distinct names \<and>
     set names = {n. list_ex (of_box n) cs}"
proof -
  let ?m = "foldl list_step [] cs"
  have d: "distinct (map fst ?m)" by (rule foldl_list_step_distinct)
  have dom: "n \<in> fst ` set ?m \<longleftrightarrow> list_ex (of_box n) cs" for n
    using foldl_list_step [of cs n] by (metis map_of_eq_None_iff option.distinct(1))
  have "boxes_of cs = map (\<lambda>n. box_from n cs) (sort (map fst ?m))"
    using dom foldl_list_step [of cs] by (auto simp: boxes_of_def Let_def)
  then show ?thesis using d dom by (intro exI [of _ "sort (map fst ?m)"]) auto
qed

lemma find_box:
  "find (\<lambda>b. b_Name b = name) (boxes_of cs) =
     (if list_ex (of_box name) cs then Some (box_from name cs) else None)"
proof -
  obtain names where b: "boxes_of cs = map (\<lambda>n. box_from n cs) names"
    and s: "set names = {n. list_ex (of_box n) cs}" using boxes_of_eq by blast
  have "find (\<lambda>b. b_Name b = name) (map (\<lambda>n. box_from n cs) names) =
      (if name \<in> set names then Some (box_from name cs) else None)"
    by (induction names) auto
  then show ?thesis using b s by simp
qed

text \<open>The agent's ID is that of the last listed container with the agent's role.\<close>

definition has_role :: "string \<Rightarrow> container_summary \<Rightarrow> bool" where
  "has_role who c \<longleftrightarrow> label_at (cs_Labels c) LabelRole = who"

lemma fold_add_container_ids:
  "AgentID (fold add_container cs b) =
     (case filter (has_role agent_role) cs of [] \<Rightarrow> AgentID b | as \<Rightarrow> cs_ID (last as)) \<and>
   ExecutorID (fold add_container cs b) =
     (case filter (has_role executor_role) cs of [] \<Rightarrow> ExecutorID b | xs \<Rightarrow> cs_ID (last xs))"
  by (induction cs arbitrary: b)
    (auto simp: add_container_def has_role_def agent_role_def executor_role_def Let_def
      split: list.splits)

lemma empty_box_ids [simp]: "AgentID (empty_box name) = ''''" "ExecutorID (empty_box name) = ''''"
  by (simp_all add: empty_box_def)

lemma box_from_ids:
  "AgentID (box_from name cs) =
     (case filter (\<lambda>c. of_box name c \<and> has_role agent_role c) cs of
        [] \<Rightarrow> '''' | as \<Rightarrow> cs_ID (last as))"
  "ExecutorID (box_from name cs) =
     (case filter (\<lambda>c. of_box name c \<and> has_role executor_role c) cs of
        [] \<Rightarrow> '''' | xs \<Rightarrow> cs_ID (last xs))"
proof -
  have swap: "filter (has_role r) (filter (of_box name) cs) = filter (\<lambda>c. of_box name c \<and> has_role r c) cs" for r
    by (simp add: conj_commute)
  show "AgentID (box_from name cs) =
     (case filter (\<lambda>c. of_box name c \<and> has_role agent_role c) cs of
        [] \<Rightarrow> '''' | as \<Rightarrow> cs_ID (last as))"
    "ExecutorID (box_from name cs) =
     (case filter (\<lambda>c. of_box name c \<and> has_role executor_role c) cs of
        [] \<Rightarrow> '''' | xs \<Rightarrow> cs_ID (last xs))"
    using fold_add_container_ids [of "filter (of_box name) cs" "empty_box name",
        unfolded empty_box_ids]
    unfolding box_from_def swap by simp_all
qed

lemma Get_run:
  "Get E name w =
     (case eng_list (daemon E) (events w) of
        Inl a \<Rightarrow> (Inl (Docker a), logged ListContainers False w)
      | Inr cs \<Rightarrow>
          (if list_ex (of_box name) cs then Inr (box_from name cs) else Inl (BoxNotFound name),
           logged ListContainers True w))"
  by (cases "eng_list (daemon E) (events w)")
    (simp_all add: Get_def List_def ListBoxContainers_def bind_comp_def api_def Let_def find_box
      ret_def fail_def)

text \<open>A box is found exactly when some listed container carries its label, and the result is
  computed from the listed containers of that box alone, by the declarative reading of the list.\<close>

theorem Get_iff:
  "Get E name w = (Inr b, w') \<longleftrightarrow>
     (\<exists>cs. eng_list (daemon E) (events w) = Inr cs \<and> list_ex (of_box name) cs \<and>
        b = box_from name cs \<and> w' = logged ListContainers True w)"
  by (auto simp: Get_run split: sum.splits)

lemma Exists_iff:
  "Exists E name w = (Inr x, w') \<longleftrightarrow>
     (\<exists>cs. eng_list (daemon E) (events w) = Inr cs \<and> x = list_ex (of_box name) cs \<and>
        w' = logged ListContainers True w)"
  by (cases "eng_list (daemon E) (events w)")
    (auto simp: Exists_def bind_comp_def attempt_def Get_run ret_def fail_def)

section \<open>Start and stop\<close>

text \<open>The executor first; the agent only once the executor has started.\<close>

lemma Start_calls:
  assumes "Start E b w = (r, w')"
  shows "(r \<noteq> Inr () \<and> w' = w \<and> (AgentID b = '''' \<or> ExecutorID b = '''')) \<or>
    (r \<noteq> Inr () \<and> events w' = events w @ [(StartContainer (ExecutorID b), False)]) \<or>
    events w' = events w @ [(StartContainer (ExecutorID b), True),
      (StartContainer (AgentID b), r = Inr ())]"
  using assms
  by (cases r) (auto simp: Start_def ContainerStart_def bind_iffs api_iffs split: if_splits)

lemma Start_ok:
  assumes "Start E b w = (Inr (), w')"
  shows "events w' = events w @ [(StartContainer (ExecutorID b), True), (StartContainer (AgentID b), True)] \<and>
    disk w' = disk w"
  using assms by (auto simp: Start_def ContainerStart_def bind_iffs api_iffs split: if_splits)

text \<open>The agent first; the executor is stopped whether or not the agent's stop failed.\<close>

lemma Stop_calls:
  assumes "AgentID b \<noteq> ''''" and "ExecutorID b \<noteq> ''''" and "Stop E b w = (r, w')"
  shows "\<exists>ok1 ok2. events w' = events w @ [(StopContainer (AgentID b), ok1), (StopContainer (ExecutorID b), ok2)] \<and>
    (r = Inr () \<longleftrightarrow> ok1 \<and> ok2)"
  using assms
  by (auto simp: Stop_def collect_def ContainerStop_def bind_comp_def attempt_def api_run
      join_errors_def ret_def lift_result_def ex_bool_eq split: sum.splits)

section \<open>Ensuring networks and volumes\<close>

lemma ownedByBox_BoxLabels [simp]: "ownedByBox (BoxLabels name ver who) name"
  by (simp add: ownedByBox_def BoxLabels_def label_at_def label_defs Let_def)

text \<open>
  What ensuring a network or a volume means at the history \<open>h\<close>: the daemon showed it under this name with
  the labels of the box, or reported it missing and then created it with them.  \<open>es\<close> are the calls
  this takes and \<open>netID\<close> is the ID that the daemon gave.
\<close>

definition network_ensured ::
  "system \<Rightarrow> history \<Rightarrow> string \<Rightarrow> string \<Rightarrow> string \<Rightarrow> history \<Rightarrow> string \<Rightarrow> bool" where
  "network_ensured E h net name ver es netID \<longleftrightarrow>
     (\<exists>n. eng_inspect_network (daemon E) h net = Inr n \<and> ownedByBox (nj_Labels n) name \<and>
        netID = nj_ID n \<and> es = [(InspectNetwork net, True)]) \<or>
     eng_inspect_network (daemon E) h net = Inl NotFound \<and>
       eng_create_network (daemon E) (h @ [(InspectNetwork net, False)]) net (BoxLabels name ver '''') = Inr netID \<and>
       es = [(InspectNetwork net, False), (CreateNetwork net (BoxLabels name ver ''''), True)]"

definition volume_ensured ::
  "system \<Rightarrow> history \<Rightarrow> string \<Rightarrow> string \<Rightarrow> string \<Rightarrow> history \<Rightarrow> bool" where
  "volume_ensured E h vol name ver es \<longleftrightarrow>
     (\<exists>ls. eng_inspect_volume (daemon E) h vol = Inr ls \<and> ownedByBox ls name \<and>
        es = [(InspectVolume vol, True)]) \<or>
     eng_inspect_volume (daemon E) h vol = Inl NotFound \<and>
       (\<exists>v. eng_create_volume (daemon E) (h @ [(InspectVolume vol, False)]) vol (BoxLabels name ver '''') = Inr v) \<and>
       es = [(InspectVolume vol, False), (CreateVolume vol (BoxLabels name ver ''''), True)]"

lemma ensureNetwork_iff:
  "ensureNetwork E net name ver w = (Inr netID, w') \<longleftrightarrow>
     (\<exists>es. network_ensured E (events w) net name ver es netID \<and> w' = w\<lparr>events := events w @ es\<rparr>)"
  by (cases "eng_inspect_network (daemon E) (events w) net")
    (auto simp: ensureNetwork_def network_ensured_def NetworkInspect_def NetworkCreate_def bind_comp_def
      attempt_def api_run logged_def fail_def ret_def split: if_splits sum.splits)

lemma ensureVolume_iff:
  "(\<exists>v. ensureVolume E vol name ver w = (Inr v, w')) \<longleftrightarrow>
     (\<exists>es. volume_ensured E (events w) vol name ver es \<and> w' = w\<lparr>events := events w @ es\<rparr>)"
  by (cases "eng_inspect_volume (daemon E) (events w) vol")
    (auto simp: ensureVolume_def volume_ensured_def VolumeInspect_def VolumeCreate_def bind_comp_def
      attempt_def api_run logged_def fail_def ret_def split: if_splits sum.splits)

text \<open>The calls of the two ensure steps, all on names of the box and with its labels.\<close>

fun ensure_call :: "string \<Rightarrow> call \<Rightarrow> bool" where
  "ensure_call name (CreateNetwork n ls) = (n = NetworkName name \<and> ownedByBox ls name)"
| "ensure_call name (CreateVolume v ls) =
     ((v = agent_volume name \<or> v = executor_volume name) \<and> ownedByBox ls name)"
| "ensure_call name c = reading c"

lemma ensure_calls [call_rules]:
  "makes_only (ensure_call name) (ensureNetwork E (NetworkName name) name ver)"
  "v \<in> {agent_volume name, executor_volume name} \<Longrightarrow>
     makes_only (ensure_call name) (ensureVolume E v name ver)"
  unfolding ensureNetwork_def ensureVolume_def NetworkInspect_def NetworkCreate_def
    VolumeInspect_def VolumeCreate_def
  by (intro call_rules; auto)+

section \<open>Create\<close>

definition agent_spec :: "CreateOpts \<Rightarrow> string \<Rightarrow> string \<Rightarrow> string list \<Rightarrow> string list \<Rightarrow> ContainerSpec" where
  "agent_spec opts ver netID binds groups =
     newAgentContainerSpecWithResources (opt_Name opts) (opt_Image opts) (opt_Token opts) ver netID
       (agent_volume (opt_Name opts)) binds groups (Agent (opt_Resources opts))"

lemma spec_fields:
  "spec_Name (agent_spec opts ver netID binds groups) = agent_container (opt_Name opts)"
  "ownedByBox (spec_Labels (agent_spec opts ver netID binds groups)) (opt_Name opts)"
  "spec_MemoryBytes (agent_spec opts ver netID binds groups) = MemoryBytes (Agent (opt_Resources opts))"
  "spec_Name (executor_spec opts ver netID) = executor_container (opt_Name opts)"
  "ownedByBox (spec_Labels (executor_spec opts ver netID)) (opt_Name opts)"
  "spec_MemoryBytes (executor_spec opts ver netID) = MemoryBytes (Executor (opt_Resources opts))"
  by (simp_all add: agent_spec_def newAgentContainerSpecWithResources_def executor_spec_def Let_def
      ownedByBox_def BoxLabels_def label_at_def label_defs agent_role_def executor_role_def)

definition swap_of :: "ContainerResources \<Rightarrow> int" where
  "swap_of a = 2 * MemoryBytes a"

lemma ContainerCreate_valid:
  assumes "allocation_ok a" and "spec_MemoryBytes spec = MemoryBytes a"
  shows "ContainerCreate E spec =
    api (CreateContainer spec (swap_of a)) (\<lambda>h. eng_create (daemon E) h spec (swap_of a))"
  using swap_limit_of_valid [OF assms(1)] by (auto simp: ContainerCreate_def assms(2) swap_of_def)

text \<open>
  What \<open>Create\<close> has established before it makes a container: the limits are valid, the mounts were
  prepared at its beginning, and the network and both volumes were ensured, in this order, by the
  calls \<open>es\<close>.
\<close>

definition create_ready ::
  "system \<Rightarrow> CreateOpts \<Rightarrow> history \<Rightarrow> history \<Rightarrow> string list \<Rightarrow> string list \<Rightarrow> string \<Rightarrow> bool" where
  "create_ready E opts h es binds groups netID \<longleftrightarrow>
     resources_ok (opt_Resources opts) \<and>
     prepareAgentMounts (mounts_at E h) (opt_AgentMounts opts) = Inr (binds, groups) \<and>
     (\<exists>e1 e2 e3. es = e1 @ e2 @ e3 \<and>
        network_ensured E h (NetworkName (opt_Name opts)) (opt_Name opts) (Version E) e1 netID \<and>
        volume_ensured E (h @ e1) (agent_volume (opt_Name opts)) (opt_Name opts) (Version E) e2 \<and>
        volume_ensured E (h @ e1 @ e2) (executor_volume (opt_Name opts)) (opt_Name opts) (Version E) e3)"

text \<open>
  How \<open>Create\<close> ends then: with the agent's creation refused; with the executor's creation refused
  and the agent's removal asked for; with both created, and then started in order unless it was told
  not to.
\<close>

definition containers_outcome ::
  "system \<Rightarrow> CreateOpts \<Rightarrow> history \<Rightarrow> ContainerSpec \<Rightarrow> ContainerSpec \<Rightarrow> int \<Rightarrow> int \<Rightarrow> tx9_error + Box \<Rightarrow> history \<Rightarrow> bool" where
  "containers_outcome E opts h A X swA swX r tail \<longleftrightarrow>
     tail = [(CreateContainer A swA, False)] \<and> isl r \<or>
     (\<exists>a. eng_create (daemon E) h A swA = Inr a \<and>
       ((\<exists>ok. tail = [(CreateContainer A swA, True), (CreateContainer X swX, False),
                      (RemoveContainer a, ok)] \<and> isl r) \<or>
        (\<exists>x rest. tail = [(CreateContainer A swA, True), (CreateContainer X swX, True)] @ rest \<and>
          eng_create (daemon E) (h @ [(CreateContainer A swA, True)]) X swX = Inr x \<and>
          (\<forall>b. r = Inr b \<longrightarrow> AgentID b = a \<and> ExecutorID b = x) \<and>
          (opt_NoStart opts \<longrightarrow> rest = [] \<and> \<not> isl r) \<and>
          (\<not> opt_NoStart opts \<longrightarrow>
             rest = [] \<and> isl r \<or> rest = [(StartContainer x, False)] \<and> isl r \<or>
             rest = [(StartContainer x, True), (StartContainer a, \<not> isl r)]))))"

text \<open>A failure without a request for a container means that something was not in place.\<close>

definition create_outcome ::
  "system \<Rightarrow> CreateOpts \<Rightarrow> history \<Rightarrow> history \<Rightarrow> tx9_error + Box \<Rightarrow> history \<Rightarrow> bool" where
  "create_outcome E opts h pre r tail \<longleftrightarrow>
     tail = [] \<and> isl r \<and> \<not> (\<exists>es binds groups netID. create_ready E opts h es binds groups netID) \<or>
     (\<exists>binds groups netID. create_ready E opts h pre binds groups netID \<and>
        containers_outcome E opts (h @ pre)
          (agent_spec opts (Version E) netID binds groups) (executor_spec opts (Version E) netID)
          (swap_of (Agent (opt_Resources opts))) (swap_of (Executor (opt_Resources opts))) r tail)"

text \<open>The two halves of \<open>Create\<close>.\<close>

definition create_ensures :: "system \<Rightarrow> CreateOpts \<Rightarrow> (string list \<times> string list \<times> string) tx9" where
  "create_ensures E opts =
     (let name = opt_Name opts; ver = Version E in
      bind_comp (lift_result (map_error ResErr (ValidateResources (opt_Resources opts)))) (\<lambda>_.
      bind_comp (PrepareMounts E (opt_AgentMounts opts)) (\<lambda>(binds, groups).
      bind_comp (ensureNetwork E (NetworkName name) name ver) (\<lambda>netID.
      bind_comp (ensureVolume E (agent_volume name) name ver) (\<lambda>_.
      bind_comp (ensureVolume E (executor_volume name) name ver) (\<lambda>_.
      ret (binds, groups, netID)))))))"

definition create_containers ::
  "system \<Rightarrow> CreateOpts \<Rightarrow> string list \<times> string list \<times> string \<Rightarrow> Box tx9" where
  "create_containers E opts = (\<lambda>(binds, groups, netID).
      bind_comp (ContainerCreate E (agent_spec opts (Version E) netID binds groups)) (\<lambda>agentID.
      bind_comp (attempt (ContainerCreate E (executor_spec opts (Version E) netID))) (\<lambda>r.
      case r of
        Inl err \<Rightarrow> drop_leaked_agent E agentID err
      | Inr executorID \<Rightarrow>
          (let b = \<lparr>b_Name = opt_Name opts, AgentID = agentID, ExecutorID = executorID,
                    AgentState = ''created'', ExecutorState = ''created'',
                    ExecutorWebBaseURL = WebBaseURL (opt_Executor opts), b_Version = Version E\<rparr>
           in if \<not> opt_NoStart opts then
                bind_comp (Start E b) (\<lambda>_.
                  ret (b\<lparr>AgentState := ''running'', ExecutorState := ''running''\<rparr>))
              else ret b))))"

lemma Create_split: "Create E opts = bind_comp (create_ensures E opts) (create_containers E opts)"
  by (rule ext) (auto simp: Create_def create_ensures_def create_containers_def Let_def agent_spec_def
      bind_comp_def ret_def split: prod.splits sum.splits)

lemma create_ensures_calls: "makes_only (ensure_call (opt_Name opts)) (create_ensures E opts)"
  unfolding create_ensures_def Let_def by (intro call_rules) simp_all

lemma ex_step: "(\<exists>y. (\<exists>x. P x \<and> y = f x) \<and> Q y) \<longleftrightarrow> (\<exists>x. P x \<and> Q (f x))"
  by blast

lemma create_ensures_iff:
  "create_ensures E opts w = (Inr (binds, groups, netID), w') \<longleftrightarrow>
     (\<exists>es. create_ready E opts (events w) es binds groups netID \<and> w' = w\<lparr>events := events w @ es\<rparr>)"
proof -
  have "create_ensures E opts w = (Inr (binds, groups, netID), w') \<longleftrightarrow>
      resources_ok (opt_Resources opts) \<and>
      prepareAgentMounts (mounts_at E (events w)) (opt_AgentMounts opts) = Inr (binds, groups) \<and>
      (\<exists>w1. ensureNetwork E (NetworkName (opt_Name opts)) (opt_Name opts) (Version E) w = (Inr netID, w1) \<and>
        (\<exists>w2. (\<exists>v. ensureVolume E (agent_volume (opt_Name opts)) (opt_Name opts) (Version E) w1 = (Inr v, w2)) \<and>
          (\<exists>v. ensureVolume E (executor_volume (opt_Name opts)) (opt_Name opts) (Version E) w2 = (Inr v, w'))))"
    by (auto simp: create_ensures_def Let_def bind_comp_Inr_iff ValidateResources_iff PrepareMounts_def)
  also have "\<dots> \<longleftrightarrow> resources_ok (opt_Resources opts) \<and>
      prepareAgentMounts (mounts_at E (events w)) (opt_AgentMounts opts) = Inr (binds, groups) \<and>
      (\<exists>e1. network_ensured E (events w) (NetworkName (opt_Name opts)) (opt_Name opts) (Version E) e1 netID \<and>
        (\<exists>e2. volume_ensured E (events w @ e1) (agent_volume (opt_Name opts)) (opt_Name opts) (Version E) e2 \<and>
          (\<exists>e3. volume_ensured E (events w @ e1 @ e2) (executor_volume (opt_Name opts)) (opt_Name opts)
              (Version E) e3 \<and> w' = w\<lparr>events := events w @ e1 @ e2 @ e3\<rparr>)))"
    unfolding ensureNetwork_iff ensureVolume_iff ex_step by simp
  also have "\<dots> \<longleftrightarrow> (\<exists>es. create_ready E opts (events w) es binds groups netID \<and> w' = w\<lparr>events := events w @ es\<rparr>)"
    unfolding create_ready_def by blast
  finally show ?thesis .
qed

lemma create_containers_outcome:
  assumes ok: "resources_ok (opt_Resources opts)"
    and run: "create_containers E opts (binds, groups, netID) w1 = (r, w')"
  shows "\<exists>tail. events w' = events w1 @ tail \<and>
    containers_outcome E opts (events w1)
      (agent_spec opts (Version E) netID binds groups) (executor_spec opts (Version E) netID)
      (swap_of (Agent (opt_Resources opts))) (swap_of (Executor (opt_Resources opts))) r tail"
proof -
  have alloc: "allocation_ok (Agent (opt_Resources opts))" "allocation_ok (Executor (opt_Resources opts))"
    using ok by (simp_all add: resources_ok_def)
  note create = ContainerCreate_valid [OF alloc(1) spec_fields(3)] ContainerCreate_valid [OF alloc(2) spec_fields(6)]
  let ?A = "agent_spec opts (Version E) netID binds groups" and ?swA = "swap_of (Agent (opt_Resources opts))"
  let ?X = "executor_spec opts (Version E) netID" and ?swX = "swap_of (Executor (opt_Resources opts))"
  let ?wA = "\<lambda>ok. logged (CreateContainer ?A ?swA) ok w1"
  let ?wX = "\<lambda>ok. logged (CreateContainer ?X ?swX) ok (?wA True)"
  note rest = run [unfolded create_containers_def prod.case]
  show ?thesis
  proof (cases "eng_create (daemon E) (events w1) ?A ?swA")
    case (Inl e)
    then have "w' = ?wA False" "isl r"
      using rest by (auto simp: create bind_comp_def api_def Let_def)
    then show ?thesis by (auto simp: containers_outcome_def)
  next
    case (Inr a)
    show ?thesis
    proof (cases "eng_create (daemon E) (events (?wA True)) ?X ?swX")
      case (Inl e)
      then have "drop_leaked_agent E a (Docker e) (?wX False) = (r, w')"
        using rest Inr by (auto simp: create bind_comp_def api_def Let_def attempt_def)
      then obtain ok where "w' = logged (RemoveContainer a) ok (?wX False)" and "isl r"
        by (auto simp: drop_leaked_agent_def ContainerRemove_def bind_comp_def attempt_def api_def
            fail_def Let_def split: sum.splits if_splits)
      then show ?thesis using Inr by (auto simp: containers_outcome_def)
    next
      case X: (Inr x)
      let ?b = "\<lparr>b_Name = opt_Name opts, AgentID = a, ExecutorID = x, AgentState = ''created'',
        ExecutorState = ''created'', ExecutorWebBaseURL = WebBaseURL (opt_Executor opts), b_Version = Version E\<rparr>"
      have body: "(if \<not> opt_NoStart opts then bind_comp (Start E ?b) (\<lambda>_.
          ret (?b\<lparr>AgentState := ''running'', ExecutorState := ''running''\<rparr>)) else ret ?b) (?wX True) = (r, w')"
        using rest Inr X by (simp add: create bind_comp_def [of "api _ _"] bind_comp_def [of "attempt _"]
            api_def Let_def attempt_def)
      have created: "eng_create (daemon E) (events w1 @ [(CreateContainer ?A ?swA, True)]) ?X ?swX = Inr x"
        using X by simp
      show ?thesis
      proof (cases "opt_NoStart opts")
        case True
        then have "r = Inr ?b" "w' = ?wX True" using body by auto
        then show ?thesis using Inr created True
          by (intro exI [of _ "[(CreateContainer ?A ?swA, True), (CreateContainer ?X ?swX, True)]"])
            (simp add: containers_outcome_def)
      next
        case False
        obtain rs ws where s: "Start E ?b (?wX True) = (rs, ws)" by (cases "Start E ?b (?wX True)")
        have w': "w' = ws" "isl r \<longleftrightarrow> rs \<noteq> Inr ()" "\<And>b. r = Inr b \<Longrightarrow> AgentID b = a \<and> ExecutorID b = x"
          using body False s by (auto simp: bind_comp_def ret_def split: sum.splits)
        obtain rest where "events ws = events (?wX True) @ rest"
          "rest = [] \<and> rs \<noteq> Inr () \<or> rest = [(StartContainer x, False)] \<and> rs \<noteq> Inr () \<or>
           rest = [(StartContainer x, True), (StartContainer a, rs = Inr ())]"
          using Start_calls [OF s] by auto
        then show ?thesis using w' Inr False created
          by (intro exI [of _ "[(CreateContainer ?A ?swA, True), (CreateContainer ?X ?swX, True)] @ rest"])
            (auto simp: containers_outcome_def)
      qed
    qed
  qed
qed

lemma Create_outcome:
  assumes run: "Create E opts w = (r, w')"
  shows "\<exists>pre tail. events w' = events w @ pre @ tail \<and>
    (\<forall>e \<in> set pre. ensure_call (opt_Name opts) (fst e)) \<and>
    create_outcome E opts (events w) pre r tail"
proof -
  obtain q w1 where m: "create_ensures E opts w = (q, w1)" by fastforce
  obtain pre where pre: "events w1 = events w @ pre" "\<And>e. e \<in> set pre \<Longrightarrow> ensure_call (opt_Name opts) (fst e)"
    using makes_onlyD [OF create_ensures_calls m] by blast
  show ?thesis
  proof (cases q)
    case (Inl e)
    then have r: "r = Inl e" "w' = w1" using run m by (auto simp: Create_split bind_comp_def)
    have "\<not> (\<exists>es binds groups netID. create_ready E opts (events w) es binds groups netID)"
    proof (intro notI, elim exE)
      fix es binds groups netID
      assume "create_ready E opts (events w) es binds groups netID"
      then have "create_ensures E opts w = (Inr (binds, groups, netID), w\<lparr>events := events w @ es\<rparr>)"
        unfolding create_ensures_iff by blast
      then show False using m Inl by simp
    qed
    then show ?thesis using pre r by (intro exI [of _ pre] exI [of _ "[]"]) (simp add: create_outcome_def)
  next
    case (Inr v)
    obtain binds groups netID where v: "v = (binds, groups, netID)" by (cases v)
    obtain es where ready: "create_ready E opts (events w) es binds groups netID"
      and w1: "w1 = w\<lparr>events := events w @ es\<rparr>"
      using m Inr v create_ensures_iff by blast
    have es: "es = pre" using pre(1) w1 by simp
    have "create_containers E opts (binds, groups, netID) w1 = (r, w')"
      using run m Inr v by (simp add: Create_split bind_comp_def)
    from create_containers_outcome [OF _ this] ready obtain tail where
      "events w' = events w1 @ tail" and
      "containers_outcome E opts (events w1) (agent_spec opts (Version E) netID binds groups)
         (executor_spec opts (Version E) netID) (swap_of (Agent (opt_Resources opts)))
         (swap_of (Executor (opt_Resources opts))) r tail"
      by (auto simp: create_ready_def)
    then show ?thesis using ready pre unfolding es create_outcome_def
      by (intro exI [of _ pre] exI [of _ tail]) auto
  qed
qed

section \<open>Fresh names\<close>

text \<open>A fresh preflight passes exactly when all five objects are reported missing.\<close>

fun absent_in_turn :: "system \<Rightarrow> history \<Rightarrow> call list \<Rightarrow> bool" where
  "absent_in_turn E h [] = True"
| "absent_in_turn E h (InspectContainer n # cs) =
     (eng_inspect (daemon E) h n = Inl NotFound \<and> absent_in_turn E (h @ [(InspectContainer n, False)]) cs)"
| "absent_in_turn E h (InspectNetwork n # cs) =
     (eng_inspect_network (daemon E) h n = Inl NotFound \<and> absent_in_turn E (h @ [(InspectNetwork n, False)]) cs)"
| "absent_in_turn E h (InspectVolume n # cs) =
     (eng_inspect_volume (daemon E) h n = Inl NotFound \<and> absent_in_turn E (h @ [(InspectVolume n, False)]) cs)"
| "absent_in_turn E h (c # cs) = False"

definition fresh_checks :: "string \<Rightarrow> call list" where
  "fresh_checks name =
     [InspectContainer (agent_container name), InspectContainer (executor_container name),
      InspectNetwork (NetworkName name), InspectVolume (agent_volume name),
      InspectVolume (executor_volume name)]"

lemma must_be_absent_ok:
  "must_be_absent kind name (api c f) w = (Inr (), w') \<longleftrightarrow>
     f (events w) = Inl NotFound \<and> w' = logged c False w"
  by (auto simp: must_be_absent_def bind_comp_def attempt_def api_run fail_def ret_def
      split: sum.splits if_splits)

lemma PreflightFreshObjects_iff:
  "PreflightFreshObjects E name w = (Inr (), w') \<longleftrightarrow>
     Validate name = Inr () \<and> absent_in_turn E (events w) (fresh_checks name) \<and>
     w' = w\<lparr>events := events w @ map (\<lambda>c. (c, False)) (fresh_checks name)\<rparr>"
  by (auto simp: PreflightFreshObjects_def bind_comp_Inr_iff wrapper_defs must_be_absent_ok
      fresh_checks_def logged_def)

section \<open>Preparing the runtime\<close>

definition hb_call :: "Box \<Rightarrow> string \<Rightarrow> string list \<Rightarrow> call" where
  "hb_call b token args = RunExec (AgentID b) (hb_prefix token @ [hb_script, ''hb''] @ args) ''''"

lemma HB_calls:
  assumes "AgentID b \<noteq> ''''" and "HB E b token args w = (r, w')"
  shows "\<exists>ok. w' = logged (hb_call b token args) ok w \<and> (r = Inr () \<longrightarrow> ok)"
  using assms
  by (cases r) (auto simp: HB_def Exec_def hb_call_def bind_iffs api_iffs split: if_splits)

definition up_call :: "Box \<Rightarrow> string \<Rightarrow> call" where
  "up_call b token = hb_call b token [''up'']"

lemma up_call_neq [simp]: "up_call b token \<noteq> Sleep" "Sleep \<noteq> up_call b token"
  by (simp_all add: up_call_def hb_call_def)

definition count_call :: "call \<Rightarrow> history \<Rightarrow> nat" where
  "count_call c es = length (filter (\<lambda>e. fst e = c) es)"

lemma count_call_simps [simp]:
  "count_call c [] = 0" "count_call c ((d, ok) # es) = (if d = c then 1 else 0) + count_call c es"
  "count_call c (es @ fs) = count_call c es + count_call c fs"
  by (simp_all add: count_call_def)

lemma hb_up_step:
  "hb_up_loop E b token (Suc m) w =
     (case HB E b token [''up''] w of
        (Inr _, w1) \<Rightarrow> (Inr (), w1)
      | (Inl e, w1) \<Rightarrow>
          if m = 0 then (Inl e, w1)
          else bind_comp (retry_wait E) (\<lambda>_. hb_up_loop E b token m) w1)"
  by (cases "HB E b token [''up''] w")
    (auto simp: bind_comp_def [of "attempt _"] attempt_def ret_def fail_def split: sum.splits)

declare hb_up_loop.simps [simp del]

lemma hb_up_loop_calls:
  assumes "AgentID b \<noteq> ''''" and "hb_up_loop E b token (Suc n) w = (r, w')"
  shows "\<exists>es. events w' = events w @ es \<and> fst ` set es \<subseteq> {up_call b token, Sleep} \<and>
    1 \<le> count_call (up_call b token) es \<and> count_call (up_call b token) es \<le> Suc n \<and>
    count_call Sleep es \<le> n \<and> (r = Inr () \<longrightarrow> last es = (up_call b token, True))"
  using assms(2)
proof (induction n arbitrary: w)
  case 0
  obtain r1 w1 where hb: "HB E b token [''up''] w = (r1, w1)" by (cases "HB E b token [''up''] w")
  obtain ok where ok: "w1 = logged (up_call b token) ok w" "r1 = Inr () \<longrightarrow> ok"
    using HB_calls [OF assms(1) hb] by (auto simp: up_call_def)
  have "w' = w1" "r = Inr () \<longrightarrow> r1 = Inr ()"
    using 0 hb by (auto simp: hb_up_step split: sum.splits)
  then show ?case using ok by (intro exI [of _ "[(up_call b token, ok)]"]) auto
next
  case (Suc n)
  obtain r1 w1 where hb: "HB E b token [''up''] w = (r1, w1)" by (cases "HB E b token [''up''] w")
  obtain ok where ok: "w1 = logged (up_call b token) ok w" "r1 = Inr () \<longrightarrow> ok"
    using HB_calls [OF assms(1) hb] by (auto simp: up_call_def)
  show ?case
  proof (cases r1)
    case (Inr u)
    then have "w' = w1" "r = Inr ()"
      using Suc.prems hb by (auto simp: hb_up_step)
    then show ?thesis using ok Inr by (intro exI [of _ "[(up_call b token, True)]"]) auto
  next
    case (Inl e)
    then have run: "bind_comp (retry_wait E) (\<lambda>_. hb_up_loop E b token (Suc n)) w1 = (r, w')"
      using Suc.prems hb hb_up_step [of E b token "Suc n" w] by simp
    show ?thesis
    proof (cases "cancelled E (events w1)")
      case True
      then have "w' = w1" "r = Inl Cancelled"
        using run by (auto simp: bind_comp_def retry_wait_def)
      then show ?thesis using ok by (intro exI [of _ "[(up_call b token, ok)]"]) auto
    next
      case False
      let ?w2 = "logged Sleep True w1"
      have "hb_up_loop E b token (Suc n) ?w2 = (r, w')"
        using run False by (simp add: bind_comp_def [of "retry_wait E"] retry_wait_def)
      then obtain es where es: "events w' = events ?w2 @ es"
        "fst ` set es \<subseteq> {up_call b token, Sleep}" "1 \<le> count_call (up_call b token) es"
        "count_call (up_call b token) es \<le> Suc n" "count_call Sleep es \<le> n"
        "r = Inr () \<longrightarrow> last es = (up_call b token, True)"
        using Suc.IH by blast
      then have "es \<noteq> []" by auto
      then show ?thesis using es ok
        by (intro exI [of _ "(up_call b token, ok) # (Sleep, True) # es"]) auto
    qed
  qed
qed

text \<open>Preparing the runtime runs the up command at least once and at most six times, pausing at most
  five times; wiring and the health check follow only a successful up command, once and in this order,
  and success means that all three succeeded.\<close>

theorem PrepareRuntime_calls:
  assumes "AgentID b \<noteq> ''''" and "PrepareRuntime E b token w = (r, w')"
  shows "\<exists>ups rest. events w' = events w @ ups @ rest \<and>
    fst ` set ups \<subseteq> {up_call b token, Sleep} \<and>
    1 \<le> count_call (up_call b token) ups \<and> count_call (up_call b token) ups \<le> 6 \<and>
    count_call Sleep ups \<le> 5 \<and>
    (rest \<noteq> [] \<longrightarrow> last ups = (up_call b token, True)) \<and>
    (r = Inr () \<longrightarrow> rest = [(hb_call b token [''wire-once''], True), (hb_call b token [''doctor''], True)]) \<and>
    (\<exists>ok. rest \<in> {[], [(hb_call b token [''wire-once''], ok)],
       [(hb_call b token [''wire-once''], True), (hb_call b token [''doctor''], ok)]})"
proof -
  obtain r1 w1 where up: "hb_up_loop E b token (Suc 5) w = (r1, w1)"
    by (cases "hb_up_loop E b token (Suc 5) w")
  then obtain ups where ups: "events w1 = events w @ ups" "fst ` set ups \<subseteq> {up_call b token, Sleep}"
    "1 \<le> count_call (up_call b token) ups" "count_call (up_call b token) ups \<le> 6"
    "count_call Sleep ups \<le> 5" "r1 = Inr () \<longrightarrow> last ups = (up_call b token, True)"
    using hb_up_loop_calls [OF assms(1)] by fastforce
  have run: "bind_comp (hb_up_loop E b token (Suc 5)) (\<lambda>_.
      bind_comp (HB E b token [''wire-once'']) (\<lambda>_. HB E b token [''doctor''])) w = (r, w')"
    using assms(2) by (simp add: PrepareRuntime_def prepare_attempts_def eval_nat_numeral
        del: hb_up_loop.simps)
  show ?thesis
  proof (cases r1)
    case (Inl e)
    then have "w' = w1" "r = Inl e" using run up by (simp_all add: bind_comp_def del: hb_up_loop.simps)
    then show ?thesis using ups by (intro exI [of _ ups] exI [of _ "[]"]) auto
  next
    case (Inr u)
    then have last: "last ups = (up_call b token, True)" using ups(6) by simp
    obtain r2 w2 where wire: "HB E b token [''wire-once''] w1 = (r2, w2)"
      by (cases "HB E b token [''wire-once''] w1")
    obtain ok where ok: "w2 = logged (hb_call b token [''wire-once'']) ok w1" "r2 = Inr () \<longrightarrow> ok"
      using HB_calls [OF assms(1) wire] by auto
    show ?thesis
    proof (cases r2)
      case e: (Inl e)
      then have "w' = w2" "r = Inl e" using run up Inr wire
        by (simp_all add: bind_comp_def del: hb_up_loop.simps)
      then show ?thesis using ups last ok
        by (intro exI [of _ ups] exI [of _ "[(hb_call b token [''wire-once''], ok)]"]) auto
    next
      case u: (Inr u)
      then have "HB E b token [''doctor''] w2 = (r, w')" using run up Inr wire
        by (simp add: bind_comp_def del: hb_up_loop.simps)
      then obtain ok2 where "w' = logged (hb_call b token [''doctor'']) ok2 w2" "r = Inr () \<longrightarrow> ok2"
        using HB_calls [OF assms(1)] by blast
      then show ?thesis using ups last ok u
        by (intro exI [of _ ups] exI [of _ "[(hb_call b token [''wire-once''], True),
              (hb_call b token [''doctor''], ok2)]"]) auto
    qed
  qed
qed

theorem PrepareRuntime_calls_witness:
  "\<exists>ups rest. events (snd (PrepareRuntime (demo box_daemon) demo_box ''t'' fresh_world)) = ups @ rest \<and>
     count_call (up_call demo_box ''t'') ups \<le> 6 \<and>
     rest = [(hb_call demo_box ''t'' [''wire-once''], True), (hb_call demo_box ''t'' [''doctor''], True)]"
proof -
  let ?E = "demo box_daemon"
  have "isl (fst (PrepareRuntime ?E demo_box ''t'' fresh_world)) = False" by code_simp
  then obtain w' where ok: "PrepareRuntime ?E demo_box ''t'' fresh_world = (Inr (), w')"
    using returned by fastforce
  have "AgentID demo_box \<noteq> ''''" by simp
  from PrepareRuntime_calls [OF this ok] show ?thesis
    unfolding ok by (auto simp del: box_daemon_def demo_def demo_box_def) 
qed

text \<open>C20: creating a box makes these calls and no others.  First, when the limits are valid and the mounts
  can be prepared, it ensures the network and both volumes: each was found with the labels of the box
  or was missing and created with them, and an object of somebody else stops it; the mounts prepared,
  their groups and the ID of that network go into the containers.  Then it creates the agent and the
  executor with the specified limits, removes the agent again when the executor cannot be created, and
  starts the executor before the agent.  Without a request for a container it has failed, and only
  because a limit, a mount or one of the three objects was not in order.\<close>

theorem Create_calls:
  "\<exists>pre tail. events (snd (Create E opts w)) = events w @ pre @ tail \<and>
    list_all (\<lambda>e. ensure_call (opt_Name opts) (fst e)) pre \<and>
    create_outcome E opts (events w) pre (fst (Create E opts w)) tail"
  using Create_outcome [of E opts w "fst (Create E opts w)" "snd (Create E opts w)"]
  by (auto simp: list_all_iff)

text \<open>The check before a new box is created succeeds exactly when the name is valid and each of the
  five objects the box would have is absent, asked for one after the other; it makes no other call.\<close>

theorem fresh_objects_checked:
  "PreflightFreshObjects E name w = (Inr (), w') \<longleftrightarrow>
     Validate name = Inr () \<and> absent_in_turn E (events w) (fresh_checks name) \<and>
     w' = w\<lparr>events := events w @ map (\<lambda>c. (c, False)) (fresh_checks name)\<rparr>"
  by (rule PreflightFreshObjects_iff)

end
