(* ===== verification/RecreateSafety.thy ===== *)
theory RecreateSafety
  imports BoxLifecycle
begin

text \<open>
  \<open>RecreateAgent\<close> of \<open>create.go\<close>: nothing is stopped or removed before every check has
  passed, a stopped box stays stopped, and the replacement keeps the image, the limits and
  the durable volume of the container it replaces.  Then \<open>InspectResources\<close>.
\<close>

section \<open>Recreating the agent\<close>

text \<open>The part of \<open>RecreateAgent\<close> before the first destructive call, and the rest.\<close>

definition recreate_checks ::
  "system \<Rightarrow> Box \<Rightarrow> AgentMount list
     \<Rightarrow> (string list \<times> string list \<times> string \<times> bool \<times> ContainerResources \<times> bool \<times> string) tx9" where
  "recreate_checks E b mounts =
     (if AgentID b = '''' then fail (MissingContainer (b_Name b))
      else
      bind_comp (PrepareMounts E mounts) (\<lambda>(binds, groups).
      bind_comp (ContainerInspect E (AgentID b)) (\<lambda>j.
      bind_comp (lift_result (recreate_source b j)) (\<lambda>(img, wasRunning, resources).
      bind_comp (probe_groups E (b_Name b) img wasRunning groups) (\<lambda>boots.
      bind_comp (ensureNetwork E (NetworkName (b_Name b)) (b_Name b) (b_Version b)) (\<lambda>netID.
      bind_comp (ensureVolume E (agent_volume (b_Name b)) (b_Name b) (b_Version b)) (\<lambda>_.
      ret (binds, groups, img, wasRunning, resources, boots, netID))))))))"

definition replacement_spec ::
  "Box \<Rightarrow> string \<Rightarrow> string \<Rightarrow> string \<Rightarrow> string list \<Rightarrow> string list \<Rightarrow> ContainerResources \<Rightarrow> ContainerSpec" where
  "replacement_spec b token img netID binds groups resources =
     newAgentContainerSpecWithResources (b_Name b) img token (b_Version b) netID
       (agent_volume (b_Name b)) binds groups resources"

definition recreate_rest ::
  "system \<Rightarrow> Box \<Rightarrow> string \<Rightarrow> string list \<times> string list \<times> string \<times> bool \<times> ContainerResources \<times> bool \<times> string
     \<Rightarrow> (bool \<times> Box) tx9" where
  "recreate_rest E b token = (\<lambda>(binds, groups, img, wasRunning, resources, boots, netID).
      bind_comp (if wasRunning then ContainerStop E (AgentID b) else ret ()) (\<lambda>_.
      bind_comp (ContainerRemove E (AgentID b)) (\<lambda>_.
      bind_comp (ContainerCreate E (replacement_spec b token img netID binds groups resources)) (\<lambda>agentID.
      bind_comp (if wasRunning then ContainerStart E agentID else ret ()) (\<lambda>_.
      bind_comp (if groups \<noteq> [] \<and> \<not> boots then restart_for_groups E agentID groups else ret ()) (\<lambda>_.
      ret (wasRunning,
           b\<lparr>AgentID := agentID,
             AgentState := if wasRunning \<or> groups \<noteq> [] \<and> \<not> boots
                           then ''running'' else ''created''\<rparr>)))))))"

lemma RecreateAgent_split:
  "RecreateAgent E b token mounts = bind_comp (recreate_checks E b mounts) (recreate_rest E b token)"
  by (rule ext) (auto simp: RecreateAgent_def recreate_checks_def recreate_rest_def
      replacement_spec_def bind_comp_def fail_def ret_def split: prod.splits sum.splits)

text \<open>The calls of the checks: inspections, the probe, and the two ensure steps.\<close>

fun check_call :: "string \<Rightarrow> call \<Rightarrow> bool" where
  "check_call name (RunEphemeral _ _ _ _ _ _) = True"
| "check_call name c = ensure_call name c"

lemma ensure_check_call: "ensure_call name c \<Longrightarrow> check_call name c"
  by (cases c) simp_all

lemma checks_only [call_rules]: "makes_only (check_call (b_Name b)) (recreate_checks E b mounts)"
proof -
  have e: "makes_only (check_call (b_Name b)) (ensureNetwork E (NetworkName (b_Name b)) (b_Name b) v)"
    "makes_only (check_call (b_Name b)) (ensureVolume E (agent_volume (b_Name b)) (b_Name b) v)" for v
    by (rule makes_only_weaken [OF ensure_calls(1)] makes_only_weaken [OF ensure_calls(2)];
        simp add: ensure_check_call)+
  show ?thesis
    unfolding recreate_checks_def probe_groups_def imageConfiguresMountGroups_def Ephemeral_def
      ContainerInspect_def
    by (intro call_rules e) simp_all
qed

text \<open>
  If a check fails then the container was not touched: no stop, no removal, no creation.
\<close>

lemma RecreateAgent_checks_fail:
  assumes "recreate_checks E b mounts w = (Inl e, w1)"
  shows "RecreateAgent E b token mounts w = (Inl e, w1) \<and>
    (\<exists>es. events w1 = events w @ es \<and> (\<forall>x \<in> set es. check_call (b_Name b) (fst x)))"
proof -
  obtain es where "events w1 = events w @ es" "\<And>x. x \<in> set es \<Longrightarrow> check_call (b_Name b) (fst x)"
    using makes_onlyD [OF checks_only assms] by blast
  then show ?thesis using assms by (auto simp: RecreateAgent_split bind_comp_def)
qed

text \<open>What the checks have established when they pass.\<close>

lemma recreate_checks_ok:
  assumes "recreate_checks E b mounts w = (Inr (binds, groups, img, wasRunning, res, boots, netID), w1)"
  shows "\<exists>j ls base. eng_inspect (daemon E) (events w) (AgentID b) = Inr j \<and>
    cj_Labels j = Some ls \<and> ownedByBox ls (b_Name b) \<and> cj_Base j = Some base \<and>
    cb_Image base = img \<and> img \<noteq> '''' \<and> cb_Running base = Some wasRunning \<and> cb_Host base = Some res \<and>
    prepareAgentMounts (mounts_at E (events w)) mounts = Inr (binds, groups) \<and>
    (groups \<noteq> [] \<longrightarrow> boots \<or> wasRunning) \<and> (groups = [] \<longrightarrow> boots)"
  using assms
  by (auto simp: recreate_checks_def bind_comp_Inr_iff PrepareMounts_def ContainerInspect_def
      api_iffs recreate_source_def probe_groups_def
      split: if_splits option.splits)

text \<open>A stopped box stays stopped, whatever happens.\<close>

fun starts_or_stops :: "call \<Rightarrow> bool" where
  "starts_or_stops (StartContainer _) = True"
| "starts_or_stops (StopContainer _) = True"
| "starts_or_stops (RunExec _ _ _) = True"
| "starts_or_stops _ = False"

lemma check_call_no_start: "check_call name c \<Longrightarrow> \<not> starts_or_stops c"
  by (cases c) simp_all

text \<open>When the agent was not running, replacing its container makes no call that starts or stops a
  container or runs a command in one: a stopped box stays stopped.\<close>

theorem RecreateAgent_stopped:
  assumes run: "RecreateAgent E b token mounts w = (r, w')"
    and answer: "eng_inspect (daemon E) (events w) (AgentID b) = Inr j" "cj_Base j = Some base"
      "cb_Running base \<noteq> Some True"
  shows "\<exists>es. events w' = events w @ es \<and> (\<forall>x \<in> set es. \<not> starts_or_stops (fst x))"
proof (cases "recreate_checks E b mounts w")
  case (Pair q w1)
  then obtain es where es: "events w1 = events w @ es"
    "\<And>x. x \<in> set es \<Longrightarrow> \<not> starts_or_stops (fst x)"
    using makes_onlyD [OF checks_only Pair] check_call_no_start by metis
  show ?thesis
  proof (cases q)
    case (Inl e)
    then show ?thesis using run Pair es by (auto simp: RecreateAgent_split bind_comp_def)
  next
    case (Inr v)
    obtain binds groups img wasRunning res boots netID
      where v: "v = (binds, groups, img, wasRunning, res, boots, netID)" by (cases v)
    have stopped: "wasRunning = False" "groups \<noteq> [] \<longrightarrow> boots"
      using recreate_checks_ok [of E b mounts w binds groups img wasRunning res boots netID w1]
        Pair Inr v answer by auto
    let ?rest = "recreate_rest E b token (binds, groups, img, False, res, boots, netID)"
    have "makes_only (\<lambda>c. \<not> starts_or_stops c) ?rest"
      unfolding recreate_rest_def ContainerRemove_def ContainerCreate_def prod.case
      by (intro call_rules) (use stopped in auto)
    moreover have "?rest w1 = (r, w')"
      using run Pair Inr v stopped by (simp add: RecreateAgent_split bind_comp_def)
    ultimately obtain es2 where "events w' = events w1 @ es2"
      "\<And>x. x \<in> set es2 \<Longrightarrow> \<not> starts_or_stops (fst x)"
      by (rule makes_onlyD) blast
    then show ?thesis using es by (intro exI [of _ "es @ es2"]) auto
  qed
qed

theorem RecreateAgent_stopped_witness:
  "\<exists>D w'. RecreateAgent (demo D) demo_box ''t'' [] fresh_world = (Inr (False, demo_box\<lparr>AgentID := ''id-tx9-a-agent'', AgentState := ''created''\<rparr>), w') \<and>
     list_all (\<lambda>x. \<not> starts_or_stops (fst x)) (events w')"
proof -
  let ?base = "\<lparr>cb_ID = ''A'', cb_Image = ''img'', cb_Running = Some False,
     cb_Host = Some \<lparr>NanoCPUs = 0, MemoryBytes = 0\<rparr>\<rparr>"
  let ?j = "(demo_container ''A'' agent_role)\<lparr>cj_Base := Some ?base\<rparr>"
  let ?D = "box_daemon\<lparr>eng_inspect := \<lambda>h i. Inr ?j, eng_create := \<lambda>h spec swap. Inr (''id-'' @ spec_Name spec)\<rparr>"
  let ?run = "RecreateAgent (demo ?D) demo_box ''t'' [] fresh_world"
  have "isl (fst ?run) = False \<and> (case fst ?run of Inr (wasRunning, b) \<Rightarrow>
      \<not> wasRunning \<and> b = demo_box\<lparr>AgentID := ''id-tx9-a-agent'', AgentState := ''created''\<rparr>)" by code_simp
  then obtain w' where run: "?run = (Inr (False, demo_box\<lparr>AgentID := ''id-tx9-a-agent'', AgentState := ''created''\<rparr>), w')"
    using returned [of ?run] by (auto simp del: demo_simps)
  have "eng_inspect (daemon (demo ?D)) (events fresh_world) (AgentID demo_box) = Inr ?j"
    and "cj_Base ?j = Some ?base" and "cb_Running ?base \<noteq> Some True" by simp_all
  from RecreateAgent_stopped [OF run this]
  have "list_all (\<lambda>x. \<not> starts_or_stops (fst x)) (events w')" by (auto simp: list_all_iff)
  then show ?thesis using run by blast
qed

text \<open>
  What the checks have established when they pass, at the history \<open>h\<close> before them and by the calls
  \<open>es\<close>: the container is the box's own, has an image, a state and limits; the mounts were
  prepared; the probe of the image, made only for mounts that need groups, told whether the image sets
  them up itself, which it must on a stopped box; and the network and the agent volume were ensured.
\<close>

definition groups_probed ::
  "system \<Rightarrow> history \<Rightarrow> string \<Rightarrow> bool \<Rightarrow> string list \<Rightarrow> history \<Rightarrow> bool \<Rightarrow> bool" where
  "groups_probed E h img running groups es boots \<longleftrightarrow>
     (if groups = [] then es = [] \<and> boots
      else \<exists>code out.
        eng_ephemeral (daemon E) h img [''grep'']
          [''-q'', ''TX9_AGENT_MOUNT_GIDS'', ''/opt/hermes-box/bin/entrypoint''] [] [] None = Inr (code, out) \<and>
        es = [(RunEphemeral img [''grep'']
          [''-q'', ''TX9_AGENT_MOUNT_GIDS'', ''/opt/hermes-box/bin/entrypoint''] [] [] None, True)] \<and>
        (code = 0 \<and> boots \<or> code = 1 \<and> \<not> boots \<and> running))"

definition recreate_ready ::
  "system \<Rightarrow> Box \<Rightarrow> AgentMount list \<Rightarrow> history \<Rightarrow> history \<Rightarrow> string \<Rightarrow> bool \<Rightarrow> ContainerResources
     \<Rightarrow> string list \<Rightarrow> bool \<Rightarrow> string \<Rightarrow> bool" where
  "recreate_ready E b mounts h es img running res groups boots netID \<longleftrightarrow>
     (\<exists>j ls base ep en ev.
        AgentID b \<noteq> '''' \<and> eng_inspect (daemon E) h (AgentID b) = Inr j \<and>
        cj_Labels j = Some ls \<and> ownedByBox ls (b_Name b) \<and> cj_Base j = Some base \<and>
        cb_Image base = img \<and> img \<noteq> '''' \<and> cb_Running base = Some running \<and> cb_Host base = Some res \<and>
        prepareAgentMounts (mounts_at E h) mounts = Inr (map bind_string mounts, groups) \<and>
        es = (InspectContainer (AgentID b), True) # ep @ en @ ev \<and>
        groups_probed E (h @ [(InspectContainer (AgentID b), True)]) img running groups ep boots \<and>
        network_ensured E (h @ (InspectContainer (AgentID b), True) # ep) (NetworkName (b_Name b)) (b_Name b)
          (b_Version b) en netID \<and>
        volume_ensured E (h @ (InspectContainer (AgentID b), True) # ep @ en) (agent_volume (b_Name b)) (b_Name b)
          (b_Version b) ev)"

lemma probe_groups_ok:
  assumes "probe_groups E name img running groups w = (Inr boots, w')"
  shows "\<exists>es. groups_probed E (events w) img running groups es boots \<and> w' = w\<lparr>events := events w @ es\<rparr>"
  using assms
  by (auto simp: probe_groups_def groups_probed_def imageConfiguresMountGroups_def Ephemeral_def bind_comp_Inr_iff
      api_Inr_iff logged_def split: if_splits)

lemma recreate_checks_ready:
  assumes "recreate_checks E b mounts w = (Inr (binds, groups, img, running, res, boots, netID), w1)"
  shows "binds = map bind_string mounts \<and>
    (\<exists>es. recreate_ready E b mounts (events w) es img running res groups boots netID \<and>
       w1 = w\<lparr>events := events w @ es\<rparr>)"
proof -
  obtain j w2 w3 v where prep: "prepareAgentMounts (mounts_at E (events w)) mounts = Inr (binds, groups)"
    and id: "AgentID b \<noteq> ''''" and j: "eng_inspect (daemon E) (events w) (AgentID b) = Inr j"
    and source: "recreate_source b j = Inr (img, running, res)"
    and probe: "probe_groups E (b_Name b) img running groups (logged (InspectContainer (AgentID b)) True w) = (Inr boots, w2)"
    and net: "ensureNetwork E (NetworkName (b_Name b)) (b_Name b) (b_Version b) w2 = (Inr netID, w3)"
    and vol: "ensureVolume E (agent_volume (b_Name b)) (b_Name b) (b_Version b) w3 = (Inr v, w1)"
    using assms
    by (auto simp: recreate_checks_def bind_comp_Inr_iff PrepareMounts_def ContainerInspect_def api_Inr_iff
        split: if_splits)
  obtain ep where ep: "groups_probed E (events w @ [(InspectContainer (AgentID b), True)]) img running groups ep boots"
    "w2 = w\<lparr>events := events w @ (InspectContainer (AgentID b), True) # ep\<rparr>"
    using probe_groups_ok [OF probe] by (auto simp: logged_def)
  obtain en where en: "network_ensured E (events w @ (InspectContainer (AgentID b), True) # ep)
      (NetworkName (b_Name b)) (b_Name b) (b_Version b) en netID"
    "w3 = w\<lparr>events := events w @ (InspectContainer (AgentID b), True) # ep @ en\<rparr>"
    using net ep(2) unfolding ensureNetwork_iff by auto
  obtain ev where ev: "volume_ensured E (events w @ (InspectContainer (AgentID b), True) # ep @ en)
      (agent_volume (b_Name b)) (b_Name b) (b_Version b) ev"
    "w1 = w\<lparr>events := events w @ (InspectContainer (AgentID b), True) # ep @ en @ ev\<rparr>"
    using vol en(2) ensureVolume_iff [of E "agent_volume (b_Name b)" "b_Name b" "b_Version b" w3 w1] by auto
  have binds: "binds = map bind_string mounts" by (rule prepared_mounts_binds [OF prep])
  then have "recreate_ready E b mounts (events w) ((InspectContainer (AgentID b), True) # ep @ en @ ev)
      img running res groups boots netID"
    using id j prep source ep(1) en(1) ev(1) unfolding recreate_ready_def
    by (auto simp: recreate_source_def split: option.splits if_splits)
  then show ?thesis using binds ev(2) by blast
qed

lemma recreate_ready_calls:
  "recreate_ready E b mounts h es img running res groups boots netID \<Longrightarrow> x \<in> set es \<Longrightarrow>
     check_call (b_Name b) (fst x)"
  by (auto simp: recreate_ready_def groups_probed_def network_ensured_def volume_ensured_def split: if_splits)

lemma recreate_ready_boots:
  "recreate_ready E b mounts h es img running res groups boots netID \<Longrightarrow> groups = [] \<or> \<not> running \<Longrightarrow> boots"
  by (auto simp: recreate_ready_def groups_probed_def split: if_splits)

text \<open>The calls that set the groups up in a running container of an older image.\<close>

definition group_calls :: "string \<Rightarrow> string list \<Rightarrow> history" where
  "group_calls agentID groups =
     map (\<lambda>g. (RunExec agentID [''bash'', ''-c'', configureAgentMountGroupScript, ''tx9-mount-group'', g] ''root'', True))
       groups @ [(StopContainer agentID, True), (StartContainer agentID, True)]"

lemma configured_groups:
  "configureAgentMountGroups E agentID groups w = (Inr (), w') \<Longrightarrow>
     events w' = events w @
       map (\<lambda>g. (RunExec agentID [''bash'', ''-c'', configureAgentMountGroupScript, ''tx9-mount-group'', g] ''root'', True)) groups"
  by (induction groups arbitrary: w)
    (auto simp: bind_comp_Inr_iff Exec_def api_Inr_iff logged_def split: if_splits)

lemma restarted_groups:
  "restart_for_groups E agentID groups w = (Inr (), w') \<Longrightarrow> events w' = events w @ group_calls agentID groups"
  by (auto simp: restart_for_groups_def group_calls_def bind_comp_Inr_iff ContainerStop_def ContainerStart_def
      api_Inr_iff logged_def dest: configured_groups)

text \<open>The calls of a success, from the first check to the last start.\<close>

definition recreated ::
  "system \<Rightarrow> Box \<Rightarrow> string \<Rightarrow> AgentMount list \<Rightarrow> history \<Rightarrow> bool \<Rightarrow> string \<Rightarrow> history \<Rightarrow> bool" where
  "recreated E b token mounts h running newID es \<longleftrightarrow>
     (\<exists>pre img res groups boots netID spec swap.
        recreate_ready E b mounts h pre img running res groups boots netID \<and>
        spec = replacement_spec b token img netID (map bind_string mounts) groups res \<and>
        defaultMemorySwapLimit (MemoryBytes res) = Inr swap \<and>
        eng_create (daemon E) (h @ pre @ (if running then [(StopContainer (AgentID b), True)] else []) @
          [(RemoveContainer (AgentID b), True)]) spec swap = Inr newID \<and>
        es = pre @ (if running then [(StopContainer (AgentID b), True)] else []) @
          [(RemoveContainer (AgentID b), True), (CreateContainer spec swap, True)] @
          (if running then [(StartContainer newID, True)] else []) @
          (if boots then [] else group_calls newID groups))"

lemma recreated_creates:
  assumes "recreated E b token mounts h running newID es"
  shows "\<exists>spec swap. (CreateContainer spec swap, True) \<in> set es"
proof -
  obtain pre spec swap rest where
    "es = pre @ (if running then [(StopContainer (AgentID b), True)] else []) @
       [(RemoveContainer (AgentID b), True), (CreateContainer spec swap, True)] @ rest"
    using assms unfolding recreated_def by blast
  then show ?thesis by (intro exI [of _ spec] exI [of _ swap]) simp
qed

lemma RecreateAgent_calls:
  assumes run: "RecreateAgent E b token mounts w = (Inr (running, b'), w')"
  shows "(\<exists>es. events w' = events w @ es \<and> recreated E b token mounts (events w) running (AgentID b') es) \<and>
    b_Name b' = b_Name b \<and> ExecutorID b' = ExecutorID b"
proof -
  obtain binds groups img wasRunning res boots netID w1 where
    checks: "recreate_checks E b mounts w = (Inr (binds, groups, img, wasRunning, res, boots, netID), w1)"
    and rest: "recreate_rest E b token (binds, groups, img, wasRunning, res, boots, netID) w1 = (Inr (running, b'), w')"
    using run by (auto simp: RecreateAgent_split bind_comp_Inr_iff)
  obtain pre where binds: "binds = map bind_string mounts"
    and ready: "recreate_ready E b mounts (events w) pre img wasRunning res groups boots netID"
    and w1: "events w1 = events w @ pre"
    using recreate_checks_ready [OF checks] by auto
  let ?spec = "replacement_spec b token img netID binds groups res"
  let ?w2 = "if wasRunning then logged (StopContainer (AgentID b)) True w1 else w1"
  let ?w3 = "logged (RemoveContainer (AgentID b)) True ?w2"
  obtain w2 agentID where
    create: "ContainerCreate E ?spec ?w3 = (Inr agentID, w2)"
    and tail: "bind_comp (if wasRunning then ContainerStart E agentID else ret ()) (\<lambda>_.
      bind_comp (if groups \<noteq> [] \<and> \<not> boots then restart_for_groups E agentID groups else ret ()) (\<lambda>_.
      ret (wasRunning, b\<lparr>AgentID := agentID,
             AgentState := if wasRunning \<or> groups \<noteq> [] \<and> \<not> boots then ''running'' else ''created''\<rparr>)))
      w2 = (Inr (running, b'), w')"
    using rest
    by (auto simp: recreate_rest_def bind_comp_Inr_iff ContainerStop_def ContainerRemove_def api_Inr_iff
        split: if_splits)
  have memory: "spec_MemoryBytes ?spec = MemoryBytes res"
    by (simp add: replacement_spec_def newAgentContainerSpecWithResources_def Let_def)
  obtain swap where swap: "defaultMemorySwapLimit (MemoryBytes res) = Inr swap"
    and w2: "w2 = logged (CreateContainer ?spec swap) True ?w3"
    and made: "eng_create (daemon E) (events ?w3) ?spec swap = Inr agentID"
    using create by (auto simp: ContainerCreate_def memory api_Inr_iff split: sum.splits)
  let ?w5 = "if wasRunning then logged (StartContainer agentID) True w2 else w2"
  have b': "running = wasRunning" "AgentID b' = agentID" "b_Name b' = b_Name b" "ExecutorID b' = ExecutorID b"
    using tail by (auto simp: bind_comp_Inr_iff)
  have last: "(if groups \<noteq> [] \<and> \<not> boots then restart_for_groups E agentID groups else ret ()) ?w5 = (Inr (), w')"
    using tail by (auto simp: bind_comp_Inr_iff ContainerStart_def api_Inr_iff split: if_splits)
  have "groups = [] \<Longrightarrow> boots" by (rule recreate_ready_boots [OF ready]) simp
  then have "events w' = events ?w5 @ (if boots then [] else group_calls agentID groups)"
    using last restarted_groups [of E agentID groups ?w5 w'] by (auto split: if_splits)
  then have "recreated E b token mounts (events w) running (AgentID b') (drop (length (events w)) (events w')) \<and>
      events w' = events w @ drop (length (events w)) (events w')"
    unfolding recreated_def using ready swap made binds b'(1,2) w1 w2
    by (intro conjI exI [of _ pre] exI [of _ img] exI [of _ res] exI [of _ groups] exI [of _ boots]
        exI [of _ netID] exI [of _ ?spec] exI [of _ swap]) (auto split: if_splits)
  then show ?thesis using b'(3,4) by blast
qed

text \<open>What its users need of a success: the trace, the limits kept, and mounts the agent can reach.\<close>

lemma RecreateAgent_ok:
  assumes run: "RecreateAgent E b token mounts w = (Inr (running, b'), w')"
  shows "\<exists>pre post j base res netID groups spec swap.
    events w' = events w @ pre @
      (if running then [(StopContainer (AgentID b), True)] else []) @
      [(RemoveContainer (AgentID b), True), (CreateContainer spec swap, True)] @
      (if running then [(StartContainer (AgentID b'), True)] else []) @ post \<and>
    (\<forall>x \<in> set pre. check_call (b_Name b) (fst x)) \<and> (groups = [] \<or> \<not> running \<longrightarrow> post = []) \<and>
    eng_inspect (daemon E) (events w) (AgentID b) = Inr j \<and> cj_Base j = Some base \<and>
    cb_Host base = Some res \<and> cb_Running base = Some running \<and>
    spec = replacement_spec b token (cb_Image base) netID (map bind_string mounts) groups res \<and>
    (\<forall>m \<in> set mounts. \<exists>st. Stat (mounts_at E (events w)) (Source m) = Some st \<and>
       (\<forall>owner. Sys st = Some owner \<longrightarrow>
          kernel_allows agentUID (agent_gids groups) owner (Perm st) (needed_bits (ReadOnly m)))) \<and>
    b_Name b' = b_Name b \<and> ExecutorID b' = ExecutorID b"
proof -
  obtain pre img res groups boots netID spec swap where
    ready: "recreate_ready E b mounts (events w) pre img running res groups boots netID"
    and spec: "spec = replacement_spec b token img netID (map bind_string mounts) groups res"
    and es: "events w' = events w @ pre @ (if running then [(StopContainer (AgentID b), True)] else []) @
          [(RemoveContainer (AgentID b), True), (CreateContainer spec swap, True)] @
          (if running then [(StartContainer (AgentID b'), True)] else []) @
          (if boots then [] else group_calls (AgentID b') groups)"
    using RecreateAgent_calls [OF run] unfolding recreated_def by auto
  obtain j base where j: "eng_inspect (daemon E) (events w) (AgentID b) = Inr j" "cj_Base j = Some base"
      "cb_Image base = img" "cb_Running base = Some running" "cb_Host base = Some res"
    and prep: "prepareAgentMounts (mounts_at E (events w)) mounts = Inr (map bind_string mounts, groups)"
    using ready unfolding recreate_ready_def by blast
  have access: "\<exists>st. Stat (mounts_at E (events w)) (Source m) = Some st \<and>
      (\<forall>owner. Sys st = Some owner \<longrightarrow>
        kernel_allows agentUID (agent_gids groups) owner (Perm st) (needed_bits (ReadOnly m)))"
    if "m \<in> set mounts" for m
    using prepared_mounts_accessible [OF prep that] by blast
  show ?thesis
    using es spec j access recreate_ready_calls [OF ready] recreate_ready_boots [OF ready]
      RecreateAgent_calls [OF run]
    by (intro exI [of _ pre] exI [of _ "if boots then [] else group_calls (AgentID b') groups"] exI [of _ j]
        exI [of _ base] exI [of _ res] exI [of _ netID] exI [of _ groups] exI [of _ spec] exI [of _ swap]) auto
qed

section \<open>Inspecting the limits\<close>

text \<open>The limits a successful inspection of one role reports.\<close>

definition live_limits ::
  "system \<Rightarrow> history \<Rightarrow> string \<Rightarrow> ContainerResources \<Rightarrow> ContainerResources \<Rightarrow> bool" where
  "live_limits E h i stored res \<longleftrightarrow>
     (if i = '''' then res = stored
      else \<exists>j base. eng_inspect (daemon E) h i = Inr j \<and> cj_Base j = Some base \<and> cb_Host base = Some res)"

lemma inspect_role_ok:
  assumes "inspect_role E i dest r w = (Inr (r', []), w')"
  shows "i = '''' \<and> r' = r \<or> i \<noteq> '''' \<and> (\<exists>j base res. eng_inspect (daemon E) (events w) i = Inr j \<and>
    cj_Base j = Some base \<and> cb_Host base = Some res \<and> r' = dest res r)"
  using assms
  by (cases "eng_inspect (daemon E) (events w) i")
    (auto simp: inspect_role_def ContainerInspect_def bind_comp_def attempt_def api_run ret_def
      fail_def split: if_splits option.splits)

lemma InspectResources_ok:
  assumes "InspectResources E b w = (Inr r, w')"
  shows "\<exists>stored h1 h2. LoadResources E (b_Name b) w = (Inr stored, logged (ReadEnv (b_Name b)) True w) \<and>
    live_limits E h1 (AgentID b) (Agent stored) (Agent r) \<and>
    live_limits E h2 (ExecutorID b) (Executor stored) (Executor r) \<and>
    AgentVolumeBudgetBytes r = AgentVolumeBudgetBytes stored \<and>
    ExecutorVolumeBudgetBytes r = ExecutorVolumeBudgetBytes stored"
proof -
  obtain stored w1 r1 e1 w2 r2 e2 where
    load: "LoadResources E (b_Name b) w = (Inr stored, w1)"
    and a: "inspect_role E (AgentID b) (\<lambda>v. Agent_update (\<lambda>_. v)) stored w1 = (Inr (r1, e1), w2)"
    and x: "inspect_role E (ExecutorID b) (\<lambda>v. Executor_update (\<lambda>_. v)) r1 w2 = (Inr (r2, e2), w')"
    and e: "e1 = []" "e2 = []" "r = r2"
    using assms by (auto simp: InspectResources_def bind_comp_Inr_iff split: if_splits)
  have w1: "w1 = logged (ReadEnv (b_Name b)) True w"
    using load by (auto simp: LoadResources_def bind_comp_Inr_iff ReadEnvFile_def Let_def)
  have 1: "live_limits E (events w1) (AgentID b) (Agent stored) (Agent r1) \<and>
      Executor r1 = Executor stored \<and> AgentVolumeBudgetBytes r1 = AgentVolumeBudgetBytes stored \<and>
      ExecutorVolumeBudgetBytes r1 = ExecutorVolumeBudgetBytes stored"
    using inspect_role_ok [OF a [unfolded e(1)]] by (auto simp: live_limits_def)
  have 2: "live_limits E (events w2) (ExecutorID b) (Executor r1) (Executor r2) \<and>
      Agent r2 = Agent r1 \<and> AgentVolumeBudgetBytes r2 = AgentVolumeBudgetBytes r1 \<and>
      ExecutorVolumeBudgetBytes r2 = ExecutorVolumeBudgetBytes r1"
    using inspect_role_ok [OF x [unfolded e(2)]] by (auto simp: live_limits_def)
  show ?thesis
    using load w1 1 2 e(3) by (intro exI [of _ stored] exI [of _ "events w1"] exI [of _ "events w2"]) auto
qed

text \<open>C21: a successful replacement of the agent makes exactly these calls, in this order.  It inspects the
  old container, which must carry the labels of the box and have an image, a state and limits; it
  probes the image exactly if the mounts, prepared before, need supplementary groups; it ensures the
  network and the agent volume, which must be the box's own.  Then it stops the old container if it
  ran, removes it, creates the new one from the same image with the same limits, on that network, with
  the binds of the mounts and the groups they need, and starts it exactly if the old one ran.  Further
  calls are made exactly if there are groups that the image does not set up itself: they set up each
  of them in the new container and restart it.\<close>

theorem RecreateAgent_result:
  assumes "RecreateAgent E b token mounts w = (Inr (running, b'), w')"
  shows "(\<exists>es. events w' = events w @ es \<and> recreated E b token mounts (events w) running (AgentID b') es) \<and>
    b_Name b' = b_Name b \<and> ExecutorID b' = ExecutorID b"
  by (rule RecreateAgent_calls [OF assms])

theorem RecreateAgent_result_witness:
  "\<exists>w' spec swap. RecreateAgent (demo box_daemon) demo_box ''t'' [] fresh_world =
       (Inr (True, demo_box\<lparr>AgentID := ''id-tx9-a-agent'', AgentState := ''running''\<rparr>), w') \<and>
     recreated (demo box_daemon) demo_box ''t'' [] (events fresh_world) True ''id-tx9-a-agent''
       (drop (length (events fresh_world)) (events w')) \<and>
     (CreateContainer spec swap, True) \<in> set (events w')"
proof -
  let ?b = "demo_box\<lparr>AgentID := ''id-tx9-a-agent'', AgentState := ''running''\<rparr>"
  let ?run = "RecreateAgent (demo box_daemon) demo_box ''t'' [] fresh_world"
  have "isl (fst ?run) = False \<and> (case fst ?run of Inr (wasRunning, b) \<Rightarrow> wasRunning \<and> b = ?b)"
    by code_simp
  then obtain w' where run: "?run = (Inr (True, ?b), w')"
    using returned [of ?run] by (auto simp del: demo_simps)
  obtain es where es: "events w' = events fresh_world @ es"
    "recreated (demo box_daemon) demo_box ''t'' [] (events fresh_world) True ''id-tx9-a-agent'' es"
    using RecreateAgent_result [OF run] by (auto simp del: demo_simps)
  obtain spec swap where "(CreateContainer spec swap, True) \<in> set es"
    using recreated_creates [OF es(2)] by blast
  then show ?thesis
    using run es by (intro exI [of _ w'] exI [of _ spec] exI [of _ swap]) (simp del: demo_simps)
qed

end
