(* ===== verification/CommandSafety.thy ===== *)
theory CommandSafety
  imports Commands RecreateSafety
begin

text \<open>
  What the commands guarantee: the box's lock is released on every path, a resource change
  is all or nothing, a fresh create touches nothing before its checks have passed, an
  upgrade removes only containers it saw to be the box's own, a mount change does not wake
  a quiesced box, prune removes neither an image in use nor the state of a live box.
\<close>

section \<open>The lock around a command\<close>

lemma AcquireLock_contract:
  assumes "lock_inv (locks w)"
  shows "AcquireLock E path w = (Inr h, w') \<Longrightarrow>
      holder (locks w) path = None \<and> handle (locks w') h = Some path \<and> lock_inv (locks w')"
    and "AcquireLock E path w = (Inl e, w') \<Longrightarrow>
      lock_inv (locks w') \<and> (holder (locks w') path = None) = (holder (locks w) path = None)"
  using Acquire_contract [OF assms, of "lock_opens E (events w)" "lock_works E (events w)" path]
  by (auto simp: AcquireLock_def map_error_Inl_iff split: prod.splits)

interpretation box_lock: exclusive "AcquireLock E path" ReleaseLock
  "\<lambda>w. holder (locks w) path = None" "\<lambda>h w. handle (locks w) h = Some path" "\<lambda>w. lock_inv (locks w)"
  for E :: system and path :: string
proof unfold_locales
  show "lock_inv (locks w) \<Longrightarrow> AcquireLock E path w = (Inr h, w') \<Longrightarrow>
      holder (locks w) path = None \<and> handle (locks w') h = Some path \<and> lock_inv (locks w')" for w h w'
    by (rule AcquireLock_contract)
  show "lock_inv (locks w) \<Longrightarrow> AcquireLock E path w = (Inl e, w') \<Longrightarrow>
      lock_inv (locks w') \<and> (holder (locks w') path = None) = (holder (locks w) path = None)" for w e w'
    by (rule AcquireLock_contract)
  show "lock_inv (locks w) \<Longrightarrow> handle (locks w) h = Some path \<Longrightarrow>
      holder (locks (ReleaseLock h w)) path = None \<and> lock_inv (locks (ReleaseLock h w))" for w h
    using release_contract [of "locks w" h path] by (simp add: ReleaseLock_def)
qed

lemma with_lock_guarded: "with_lock E path m = box_lock.guarded E path m"
  by (simp add: with_lock_def box_lock.guarded_def)

lemma with_lock_frees:
  assumes "keeps_locks m" and "lock_inv (locks w)" and "holder (locks w) path = None"
    and "with_lock E path m w = (r, w')"
  shows "lock_inv (locks w') \<and> holder (locks w') path = None"
proof -
  have run: "box_lock.guarded E path m w = (r, w')"
    using assms(4) by (simp add: with_lock_guarded)
  have body: "lock_inv (locks w') \<and> handle (locks w') h = Some path"
    if "lock_inv (locks w)" "handle (locks w) h = Some path" "m w = (r, w')" for h w r w'
    using that keepsD [OF assms(1) that(3)] by simp
  show ?thesis by (rule box_lock.guarded_frees [OF _ assms(2,3) run]) (rule body)
qed

lemma withBoxLock_frees:
  assumes "keeps_locks m" and "lock_inv (locks w)" and "LockPath (host E) name = Inr path"
    and "holder (locks w) path = None" and "withBoxLock E name m w = (r, w')"
  shows "lock_inv (locks w') \<and> holder (locks w') path = None"
proof -
  have "keeps_locks (withDocker E m)"
    unfolding withDocker_def NewClient_def by (intro call_rules assms(1))
  moreover have "with_lock E path (withDocker E m) w = (r, w')"
    using assms(3,5) by (simp add: withBoxLock_def bind_comp_def lift_result_def)
  ultimately show ?thesis using assms(2,4) by (intro with_lock_frees)
qed

lemma withBoxLock_busy:
  assumes "lock_inv (locks w)" and "LockPath (host E) name = Inr path"
    and "holder (locks w) path \<noteq> None"
  shows "\<exists>e w'. withBoxLock E name m w = (Inl e, w') \<and> events w' = events w \<and> disk w' = disk w"
proof -
  obtain e w' where "AcquireLock E path w = (Inl e, w')"
    and "box_lock.guarded E path (withDocker E m) w = (Inl e, w')"
    using box_lock.guarded_busy [of w path E "withDocker E m"] assms(1,3) by auto
  then show ?thesis
    using assms(2) by (auto simp: withBoxLock_def bind_comp_def lift_result_def with_lock_guarded
        AcquireLock_def split: prod.splits)
qed

section \<open>The resource transaction\<close>

text \<open>The limits of a container after a sequence of calls: its last successful update.\<close>

fun apply_update :: "string \<Rightarrow> ContainerResources \<Rightarrow> call \<times> bool \<Rightarrow> ContainerResources" where
  "apply_update i a (UpdateContainer j n m s, True) =
     (if j = i then \<lparr>NanoCPUs = n, MemoryBytes = m\<rparr> else a)"
| "apply_update i a e = a"

definition live_after :: "string \<Rightarrow> ContainerResources \<Rightarrow> history \<Rightarrow> ContainerResources" where
  "live_after i a es = foldl (apply_update i) a es"

lemma live_after_simps [simp]:
  "live_after i a [] = a" "live_after i a (es @ fs) = live_after i (live_after i a es) fs"
  "live_after i a (e # es) = live_after i (apply_update i a e) es"
  by (simp_all add: live_after_def)

fun is_update :: "call \<Rightarrow> bool" where
  "is_update (UpdateContainer i n m s) = True"
| "is_update c = False"

lemma live_after_others: "(\<And>e. e \<in> set es \<Longrightarrow> \<not> is_update (fst e)) \<Longrightarrow> live_after i a es = a"
proof (induction es arbitrary: a)
  case (Cons e es)
  have "\<not> is_update (fst e)" using Cons.prems by simp
  then have "apply_update i a e = a" by (cases e; cases "fst e") auto
  then show ?case using Cons by simp
qed simp

definition upd :: "string \<Rightarrow> ContainerResources \<Rightarrow> call" where
  "upd i a = UpdateContainer i (NanoCPUs a) (MemoryBytes a) (2 * MemoryBytes a)"

lemma apply_upd [simp]:
  "apply_update i a (upd j c, ok) = (if ok \<and> j = i then c else a)"
  by (cases ok) (simp_all add: upd_def)

lemma update_limits_run:
  assumes "allocation_ok a"
  obtains ok e where "update_limits E i a w = (if ok then Inr () else Inl e, logged (upd i a) ok w)"
proof -
  obtain s where "defaultMemorySwapLimit (MemoryBytes a) = Inr s" "s = 2 * MemoryBytes a"
    using swap_limit_of_valid [OF assms] by blast
  then have c: "ContainerUpdateResources E i (NanoCPUs a) (MemoryBytes a) =
      api (upd i a) (\<lambda>h. eng_update (daemon E) h i (NanoCPUs a) (MemoryBytes a) s)"
    by (simp add: ContainerUpdateResources_def upd_def)
  show thesis
  proof (cases "eng_update (daemon E) (events w) i (NanoCPUs a) (MemoryBytes a) s")
    case (Inl e)
    then show thesis using that [of False "Docker e"]
      by (simp add: update_limits_def c bind_comp_def api_run)
  next
    case (Inr x)
    then show thesis using that [of True] by (simp add: update_limits_def c bind_comp_def api_run ret_def)
  qed
qed

lemma roll_back_result:
  assumes "allocation_ok a" and "roll_back E u i a w = (q, w')"
  shows "\<exists>ok es. q = Inr es \<and> w' = (if u then logged (upd i a) ok w else w)"
proof -
  obtain ok e where "update_limits E i a w = (if ok then Inr () else Inl e, logged (upd i a) ok w)"
    using update_limits_run [OF assms(1)] .
  then show ?thesis using assms(2)
    by (cases u; cases ok) (auto simp: roll_back_def collect_def bind_comp_def attempt_def)
qed

lemma update_agent_result:
  assumes "allocation_ok (Agent new)" and "update_agent E b old new w = (q, w')"
  shows "Agent old = Agent new \<and> q = Inr False \<and> w' = w \<or>
    Agent old \<noteq> Agent new \<and> q = Inr True \<and> w' = logged (upd (AgentID b) (Agent new)) True w \<or>
    Agent old \<noteq> Agent new \<and> isl q \<and> w' = logged (upd (AgentID b) (Agent new)) False w"
proof -
  obtain ok e where "update_limits E (AgentID b) (Agent new) w =
      (if ok then Inr () else Inl e, logged (upd (AgentID b) (Agent new)) ok w)"
    using update_limits_run [OF assms(1)] .
  then show ?thesis using assms(2)
    by (cases ok) (auto simp: update_agent_def bind_comp_def split: if_splits)
qed

lemma update_executor_result:
  assumes "allocation_ok (Executor new)" and "allocation_ok (Agent old)"
    and run: "update_executor E b old new u w = (q, w')"
  shows "Executor old = Executor new \<and> q = Inr False \<and> w' = w \<or>
    Executor old \<noteq> Executor new \<and> q = Inr True \<and>
      w' = logged (upd (ExecutorID b) (Executor new)) True w \<or>
    Executor old \<noteq> Executor new \<and> isl q \<and>
      (\<exists>ok. w' = (let w1 = logged (upd (ExecutorID b) (Executor new)) False w in
         if u then logged (upd (AgentID b) (Agent old)) ok w1 else w1))"
proof -
  obtain ok e where l: "update_limits E (ExecutorID b) (Executor new) w =
      (if ok then Inr () else Inl e, logged (upd (ExecutorID b) (Executor new)) ok w)"
    using update_limits_run [OF assms(1)] .
  let ?w1 = "logged (upd (ExecutorID b) (Executor new)) False w"
  obtain q1 w2 where rb: "roll_back E u (AgentID b) (Agent old) ?w1 = (q1, w2)"
    by (cases "roll_back E u (AgentID b) (Agent old) ?w1")
  obtain ok1 es where "q1 = Inr es" "w2 = (if u then logged (upd (AgentID b) (Agent old)) ok1 ?w1 else ?w1)"
    using roll_back_result [OF assms(2) rb] by blast
  then show ?thesis using run l rb
    by (cases ok) (auto simp: update_executor_def bind_comp_def attempt_def split: if_splits)
qed

text \<open>A rollback that failed: an update to the old limits that did not succeed.\<close>

definition rollback_failed :: "Box \<Rightarrow> Resources \<Rightarrow> history \<Rightarrow> bool" where
  "rollback_failed b old es \<longleftrightarrow>
     (upd (AgentID b) (Agent old), False) \<in> set es \<or> (upd (ExecutorID b) (Executor old), False) \<in> set es"

lemma upd_inject [simp]: "upd i a = upd j c \<longleftrightarrow> i = j \<and> a = c"
  by (cases a; cases c) (auto simp: upd_def)

lemma persist_result:
  assumes "allocation_ok (Agent old)" and "allocation_ok (Executor old)"
    and run: "persist_or_roll_back E b old u1 u2 persist w = (r, w')"
  obtains u where "r = Inr ()" and "persist w = (Inr u, w')"
  | e w1 ok1 ok2 where "r \<noteq> Inr ()" and "persist w = (Inl e, w1)"
    and "w' = (let w2 = if u2 then logged (upd (ExecutorID b) (Executor old)) ok1 w1 else w1 in
      if u1 then logged (upd (AgentID b) (Agent old)) ok2 w2 else w2)"
proof (cases "persist w")
  case (Pair q w1)
  show thesis
  proof (cases q)
    case (Inr u)
    then show thesis using run Pair that(1)
      by (simp add: persist_or_roll_back_def bind_comp_def attempt_def)
  next
    case (Inl e)
    obtain q1 w2 where rb1: "roll_back E u2 (ExecutorID b) (Executor old) w1 = (q1, w2)"
      by (cases "roll_back E u2 (ExecutorID b) (Executor old) w1")
    obtain q2 w3 where rb2: "roll_back E u1 (AgentID b) (Agent old) w2 = (q2, w3)"
      by (cases "roll_back E u1 (AgentID b) (Agent old) w2")
    obtain ok1 e1 ok2 e2 where
      "q1 = Inr e1" "w2 = (if u2 then logged (upd (ExecutorID b) (Executor old)) ok1 w1 else w1)"
      "q2 = Inr e2" "w3 = (if u1 then logged (upd (AgentID b) (Agent old)) ok2 w2 else w2)"
      using roll_back_result [OF assms(2) rb1] roll_back_result [OF assms(1) rb2] by blast
    then show thesis using run Pair Inl rb1 rb2 that(2) [of e w1 ok1 ok2]
      by (simp add: persist_or_roll_back_def bind_comp_def attempt_def)
  qed
qed

lemma apply_transaction_run:
  assumes "applyResourcesTransaction E b old new persist w = (r, w')"
    and "validateLiveResourceTransition old new = Inr ()"
  obtains e where "r = Inl e" and "update_agent E b old new w = (Inl e, w')"
  | u1 w1 e where "r = Inl e" and "update_agent E b old new w = (Inr u1, w1)"
      and "update_executor E b old new u1 w1 = (Inl e, w')"
  | u1 w1 u2 w2 where "update_agent E b old new w = (Inr u1, w1)"
      and "update_executor E b old new u1 w1 = (Inr u2, w2)"
      and "persist_or_roll_back E b old u1 u2 persist w2 = (r, w')"
proof -
  have "bind_comp (update_agent E b old new) (\<lambda>u1. bind_comp (update_executor E b old new u1)
      (\<lambda>u2. persist_or_roll_back E b old u1 u2 persist)) w = (r, w')"
    using assms by (simp add: applyResourcesTransaction_def bind_comp_def [of "lift_result _"]
        lift_result_def)
  then show thesis using that by (cases r) (fastforce simp: bind_iffs)+
qed

text \<open>
  Both roles have the new limits and the settings are saved, or an error is reported; in that
  case, unless a rollback itself failed, both roles have the limits they had.
\<close>

definition all_or_nothing ::
  "Box \<Rightarrow> Resources \<Rightarrow> Resources \<Rightarrow> unit tx9 \<Rightarrow> world \<Rightarrow> tx9_error + unit \<Rightarrow> history \<Rightarrow> bool" where
  "all_or_nothing b old new persist w' r es \<longleftrightarrow>
     (if r = Inr () then
        live_after (AgentID b) (Agent old) es = Agent new \<and>
        live_after (ExecutorID b) (Executor old) es = Executor new \<and>
        (\<exists>w1 u. persist w1 = (Inr u, w'))
      else rollback_failed b old es \<or>
        live_after (AgentID b) (Agent old) es = Agent old \<and>
        live_after (ExecutorID b) (Executor old) es = Executor old)"

text \<open>C19: a change of the resources of a live box ends with both containers at the new limits and the
  settings saved, or with an error and both containers at the old limits, except where a call of the
  rollback itself failed.\<close>

theorem transaction_all_or_nothing:
  assumes ids: "AgentID b \<noteq> ExecutorID b" and ok: "resources_ok old" "resources_ok new"
    and persist: "makes_only (\<lambda>c. \<not> is_update c) persist"
    and run: "applyResourcesTransaction E b old new persist w = (r, w')"
  shows "\<exists>es. events w' = events w @ es \<and> all_or_nothing b old new persist w' r es"
proof -
  have alloc: "allocation_ok (Agent old)" "allocation_ok (Executor old)"
      "allocation_ok (Agent new)" "allocation_ok (Executor new)"
    using ok by (simp_all add: resources_ok_def)
  note agent = update_agent_result [OF alloc(3)]
    and exec = update_executor_result [OF alloc(4,1)]
  note aon = all_or_nothing_def rollback_failed_def
  show ?thesis
  proof (cases "validateLiveResourceTransition old new")
    case (Inl e)
    then show ?thesis using run
      by (auto simp: applyResourcesTransaction_def bind_comp_def lift_result_def aon)
  next
    case (Inr u)
    show ?thesis using run Inr [simplified]
    proof (cases rule: apply_transaction_run)
      case (1 e)
      then show ?thesis using agent [OF 1(2)] by (auto simp: aon)
    next
      case (2 u1 w1 e)
      have neq: "Executor old \<noteq> Executor new" and "u1 = (Agent old \<noteq> Agent new)"
        and w1: "w1 = (if u1 then logged (upd (AgentID b) (Agent new)) True w else w)"
        using agent [OF 2(2)] exec [OF 2(3)] by auto
      obtain ok1 where w': "w' = (let w2 = logged (upd (ExecutorID b) (Executor new)) False w1 in
          if u1 then logged (upd (AgentID b) (Agent old)) ok1 w2 else w2)"
        using exec [OF 2(3)] by auto
      show ?thesis using w' w1 \<open>u1 = _\<close> 2(1) ids
        by (cases u1; cases ok1) (auto simp: aon Let_def)
    next
      case (3 u1 w1 u2 w2)
      note steps = agent [OF 3(1)] exec [OF 3(2)]
      obtain q3 w3 where P: "persist w2 = (q3, w3)" by (cases "persist w2")
      obtain ps where ps: "events w3 = events w2 @ ps" "\<And>e. e \<in> set ps \<Longrightarrow> \<not> is_update (fst e)"
        using makes_onlyD [OF persist P] by blast
      have skip [simp]: "live_after i a ps = a" for i a by (rule live_after_others) (rule ps(2))
      show ?thesis
        using alloc(1,2) 3(3)
      proof (cases rule: persist_result)
        case (1 u)
        then show ?thesis using steps ids P ps(1) by (auto simp: aon intro!: exI [of _ w2])
      next
        case (2 e w1 ok1 ok2)
        then show ?thesis using steps ids P ps(1) by (auto simp: aon Let_def split: if_splits)
      qed
    qed
  qed
qed

theorem transaction_all_or_nothing_witness:
  "\<exists>r w' old new. Agent old \<noteq> Agent new \<and>
     applyResourcesTransaction (demo box_daemon) demo_box old new
       (WriteEnvFile (demo box_daemon) ''a'' []) fresh_world = (r, w') \<and>
     all_or_nothing demo_box old new (WriteEnvFile (demo box_daemon) ''a'' []) w' r (events w')"
proof -
  let ?old = "unlimited\<lparr>Agent := \<lparr>NanoCPUs = 1, MemoryBytes = 0\<rparr>\<rparr>"
  let ?new = "unlimited\<lparr>Agent := \<lparr>NanoCPUs = 2, MemoryBytes = 0\<rparr>\<rparr>"
  let ?E = "demo box_daemon" and ?persist = "WriteEnvFile (demo box_daemon) ''a'' []"
  obtain r w' where run: "applyResourcesTransaction ?E demo_box ?old ?new ?persist fresh_world = (r, w')"
    by (cases "applyResourcesTransaction ?E demo_box ?old ?new ?persist fresh_world")
  have ids: "AgentID demo_box \<noteq> ExecutorID demo_box" by simp
  have ok: "resources_ok ?old" "resources_ok ?new"
    by (simp_all add: unlimited_def resources_ok_def allocation_ok_def)
  have persist: "makes_only (\<lambda>c. \<not> is_update c) ?persist" by (rule makes_only_env) simp
  have start: "events fresh_world = []" by simp
  from transaction_all_or_nothing [OF ids ok persist run]
  have "all_or_nothing demo_box ?old ?new ?persist w' r (events w')" unfolding start by auto
  moreover have "Agent ?old \<noteq> Agent ?new" by simp
  ultimately show ?thesis using run by blast
qed

end
