(* ===== verification/UpgradeSafety.thy ===== *)
theory UpgradeSafety
  imports CommandEffects
begin

text \<open>
  An upgrade removes containers only: the ones an inspection of this very run showed to be
  the box's own, and the one it created itself when its executor could not be created.
  Nothing is written or removed before its checks have passed.
\<close>

section \<open>What an upgrade may do after a history\<close>

definition created_since :: "system \<Rightarrow> nat \<Rightarrow> history \<Rightarrow> string \<Rightarrow> bool" where
  "created_since E n h i \<longleftrightarrow>
     (\<exists>k spec swap. n \<le> k \<and> k < length h \<and> h ! k = (CreateContainer spec swap, True) \<and>
        eng_create (daemon E) (take k h) spec swap = Inr i)"

fun upgrade_may :: "system \<Rightarrow> string \<Rightarrow> nat \<Rightarrow> history \<Rightarrow> call \<Rightarrow> bool" where
  "upgrade_may E name n h (RemoveContainer i) \<longleftrightarrow>
     known (shows_container E name) n h i \<or> created_since E n h i"
| "upgrade_may E name n h (RemoveNetwork i) = False"
| "upgrade_may E name n h (RemoveVolume v) = False"
| "upgrade_may E name n h (RemoveEnv b) = False"
| "upgrade_may E name n h c = True"

definition upgraded_safely :: "system \<Rightarrow> string \<Rightarrow> nat \<Rightarrow> history \<Rightarrow> bool" where
  "upgraded_safely E name n h \<longleftrightarrow>
     n \<le> length h \<and> (\<forall>k. n \<le> k \<and> k < length h \<longrightarrow> upgrade_may E name n (take k h) (fst (h ! k)))"

lemma upgraded_safely_start: "upgraded_safely E name (length h) h"
  by (auto simp: upgraded_safely_def)

lemma upgraded_safely_snoc:
  assumes "upgraded_safely E name n h" and "upgrade_may E name n h (fst e)"
  shows "upgraded_safely E name n (h @ [e])"
  using assms by (auto simp: upgraded_safely_def nth_append less_Suc_eq)

fun removing :: "call \<Rightarrow> bool" where
  "removing (RemoveContainer i) = True"
| "removing (RemoveNetwork i) = True"
| "removing (RemoveVolume i) = True"
| "removing (RemoveEnv b) = True"
| "removing c = False"

lemma not_removing_may: "\<not> removing c \<Longrightarrow> upgrade_may E name n h c"
  by (cases c) simp_all

lemma reading_not_removing: "reading c \<Longrightarrow> \<not> removing c" "ensure_call b c \<Longrightarrow> \<not> removing c"
  by (cases c; simp)+

text \<open>The state of an upgrade: safe so far, and the containers to remove are known.\<close>

definition upgrading :: "system \<Rightarrow> string \<Rightarrow> nat \<Rightarrow> string set \<Rightarrow> history \<Rightarrow> bool" where
  "upgrading E name n ids h \<longleftrightarrow>
     upgraded_safely E name n h \<and> (\<forall>i \<in> ids. known (shows_container E name) n h i)"

lemma upgrading_snoc:
  assumes "upgrading E name n ids h" and "upgrade_may E name n h (fst e)"
  shows "upgrading E name n ids (h @ [e])"
  using assms upgraded_safely_snoc known_snoc(1) unfolding upgrading_def by blast

lemma upgrading_mono: "upgrading E name n ids h \<Longrightarrow> ids' \<subseteq> ids \<Longrightarrow> upgrading E name n ids' h"
  by (auto simp: upgrading_def)

lemma triple_upgrading:
  assumes "makes_only (\<lambda>c. \<not> removing c) m"
  shows "triple (\<lambda>w. upgrading E name n ids (events w)) m
    (\<lambda>_ w. upgrading E name n ids (events w)) (\<lambda>_ w. upgrading E name n {} (events w))"
  by (rule triple_conseq [OF triple_makes_only [OF assms, of "upgrading E name n ids"]])
    (auto intro!: upgrading_snoc not_removing_may elim: upgrading_mono)

section \<open>The checks\<close>

lemma makes_only_oracle [call_rules]:
  "makes_only P (MintToken E)" "makes_only P (PreflightMounts E ms)"
  by (simp_all add: makes_only_def MintToken_def PreflightMounts_def)

lemma makes_only_settings_loads:
  assumes "P (ReadEnv name)"
  shows "makes_only P (LoadResources E name)" and "makes_only P (LoadAgentMounts E name)"
    and "makes_only P (LoadExecutorConfig E name ov)" and "makes_only P (BoxToken E name)"
  unfolding LoadResources_def LoadAgentMounts_def LoadExecutorConfig_def BoxToken_def Let_def
  by (intro call_rules assms)+

lemma makes_only_settings_saves:
  assumes "P (ReadEnv name)" and "P (WriteEnv name)"
  shows "makes_only P (SaveResources E name r)" and "makes_only P (SaveAgentMounts E name ms)"
    and "makes_only P (SaveExecutorConfig E name token cfg)" and "makes_only P (ResetResources E name)"
  unfolding SaveResources_def SaveAgentMounts_def SaveExecutorConfig_def ResetResources_def
    update_env_def
  by (intro call_rules assms)+

lemma makes_only_ensureBoxImage:
  assumes "P (InspectImage tag)" and "\<And>c. P (BuildImage tag c)"
  shows "makes_only P (ensureBoxImage E tag)"
  unfolding ensureBoxImage_def ImageBuild_def ImageExists_def by (intro call_rules assms)

lemma reads_InspectResources: "makes_only reading (InspectResources E b)"
  unfolding InspectResources_def inspect_role_def ContainerInspect_def
  by (intro call_rules makes_only_settings_loads) simp_all

text \<open>Before the removal an upgrade only reads, or builds the image.\<close>

fun reads_or_builds :: "call \<Rightarrow> bool" where
  "reads_or_builds (BuildImage tag c) = True"
| "reads_or_builds c = reading c"

lemma reading_reads_or_builds: "reading c \<Longrightarrow> reads_or_builds c"
  by (cases c) simp_all

lemma reads_or_builds_not_removing: "reads_or_builds c \<Longrightarrow> \<not> removing c"
  by (cases c) simp_all

lemma read_to_build: "makes_only reading m \<Longrightarrow> makes_only reads_or_builds m"
  by (erule makes_only_weaken) (rule reading_reads_or_builds)

lemma upgrade_checks_calls: "makes_only reads_or_builds (upgrade_checks E xf rf name)"
  unfolding upgrade_checks_def PreflightExistingObjects_def
  by (intro call_rules makes_only_settings_loads makes_only_ensureBoxImage read_to_build
      [OF reads_InspectResources] read_to_build [OF reads_inspectDestroyTargets]
      read_to_build [OF reads_Get]) simp_all

lemma upgrade_checks_keep_disk: "keeps_disk (upgrade_checks E xf rf name)"
  unfolding upgrade_checks_def PreflightExistingObjects_def LoadExecutorConfig_def InspectResources_def
    inspect_role_def LoadResources_def LoadAgentMounts_def ensureBoxImage_def ImageBuild_def ImageExists_def BoxToken_def
    Let_def ContainerInspect_def
  by (intro call_rules)

lemma PreflightExistingObjects_known:
  assumes "PreflightExistingObjects E name w = (Inr ids, w')" and "n \<le> length (events w)"
  shows "\<forall>i \<in> set ids. known (shows_container E name) n (events w') i"
proof -
  obtain t where t: "inspectDestroyTargets E name w = (Inr t, w')" "ids = containerIDs t"
    using assms(1) by (auto simp: PreflightExistingObjects_def bind_comp_Inr_iff)
  have "destroying E name (length (events w)) (containerIDs t) (networkID t) w'"
    by (rule triple_okD [OF triple_inspectDestroyTargets destroying_start t(1)])
  then show ?thesis using assms(2) t(2) unfolding destroying_def known_def
    by (meson order_trans)
qed

text \<open>Every part of the checks only makes the history longer; the preflight then shows the containers.\<close>

lemma triple_longer:
  assumes "makes_only P m"
  shows "triple (\<lambda>w. n \<le> length (events w)) m (\<lambda>_ w. n \<le> length (events w)) (\<lambda>_ _. True)"
  by (rule triple_conseq [OF triple_makes_only [OF assms, of "\<lambda>h. n \<le> length h"]]) auto

lemma triple_known_ids:
  "triple (\<lambda>w. n \<le> length (events w)) (PreflightExistingObjects E name)
     (\<lambda>ids w. \<forall>i \<in> set ids. known (shows_container E name) n (events w) i) (\<lambda>_ _. True)"
  by (rule tripleI) (auto dest: PreflightExistingObjects_known)

lemma triple_keeps_known:
  "triple (\<lambda>w. \<forall>i \<in> S. known (shows_container E name) n (events w) i) (BoxToken E name)
     (\<lambda>_ w. \<forall>i \<in> S. known (shows_container E name) n (events w) i) (\<lambda>_ _. True)"
  by (rule triple_conseq [OF triple_makes_only [OF makes_only_settings_loads(4) [of "\<lambda>_. True"],
        of "\<lambda>h. \<forall>i \<in> S. known (shows_container E name) n h i"]])
    (auto intro: known_snoc)

lemma triple_upgrade_checks:
  "triple (\<lambda>w. n \<le> length (events w)) (upgrade_checks E xf rf name)
     (\<lambda>x w. \<forall>i \<in> set (fst (snd (snd (snd x)))). known (shows_container E name) n (events w) i)
     (\<lambda>_ _. True)"
proof -
  have grows: "triple (\<lambda>w. n \<le> length (events w)) m (\<lambda>_ w. n \<le> length (events w)) (\<lambda>_ _. True)"
    if "makes_only reads_or_builds m" for m :: "'x tx9"
    by (rule triple_longer [OF that])
  have reads: "makes_only reads_or_builds (lift_result r)" "makes_only reads_or_builds (Get E name)"
    "makes_only reads_or_builds (LoadExecutorConfig E name ov)"
    "makes_only reads_or_builds (InspectResources E b)"
    "makes_only reads_or_builds (LoadAgentMounts E name)"
    "makes_only reads_or_builds (ensureBoxImage E (image_tag E))"
    "makes_only reads_or_builds (PreflightMounts E ms)"
    for r :: "tx9_error + 'y" and ov b ms
    by (intro call_rules makes_only_settings_loads makes_only_ensureBoxImage read_to_build
        [OF reads_InspectResources] read_to_build [OF reads_Get]; simp)+
  show ?thesis
    unfolding upgrade_checks_def
    by (intro triple_bind [OF grows [OF reads(2)]] triple_bind [OF grows [OF reads(1)]]
        triple_bind [OF grows [OF reads(3)]] triple_bind [OF grows [OF reads(4)]]
        triple_bind [OF grows [OF reads(5)]] triple_bind [OF grows [OF reads(6)]]
        triple_bind [OF grows [OF reads(7)]] triple_bind [OF triple_known_ids]
        triple_bind [OF triple_keeps_known] triple_ret) simp
qed

lemma upgrade_checks_known:
  assumes run: "upgrade_checks E xf rf name w = (Inr (cfg, res, mounts, ids, tok), w')"
  shows "upgrading E name (length (events w)) (set ids) (events w')"
proof -
  let ?n = "length (events w)"
  have nr: "makes_only (\<lambda>c. \<not> removing c) (upgrade_checks E xf rf name)"
    by (rule makes_only_weaken [OF upgrade_checks_calls reads_or_builds_not_removing])
  have "upgrading E name ?n {} (events w)"
    by (simp add: upgrading_def upgraded_safely_start)
  then have "upgrading E name ?n {} (events w')"
    using triple_okD [OF triple_upgrading [OF nr] _ run] by simp
  moreover have "\<forall>i \<in> set ids. known (shows_container E name) ?n (events w') i"
    using triple_okD [OF triple_upgrade_checks _ run, of ?n] by simp
  ultimately show ?thesis by (simp add: upgrading_def)
qed

section \<open>The removal and the recreation\<close>

lemma upgrading_remove:
  assumes "upgrading E name n ids h" and "i \<in> ids"
  shows "upgrading E name n ids (h @ [(RemoveContainer i, ok)])"
  using assms by (intro upgrading_snoc) (auto simp: upgrading_def)

lemma remove_each_upgrading:
  "set ids' \<subseteq> ids \<Longrightarrow>
   triple (\<lambda>w. upgrading E name n ids (events w)) (remove_each E ids')
     (\<lambda>_ w. upgrading E name n ids (events w)) (\<lambda>_ w. upgrading E name n {} (events w))"
proof (induction ids')
  case (Cons i ids')
  have stop: "makes_only (\<lambda>c. \<not> removing c) (attempt (ContainerStop E i) :: (tx9_error + unit) tx9)"
    unfolding ContainerStop_def by (intro call_rules) simp
  have rm: "triple (\<lambda>w. upgrading E name n ids (events w)) (collect (ContainerRemove E i))
      (\<lambda>_ w. upgrading E name n ids (events w)) (\<lambda>_ w. upgrading E name n {} (events w))"
    unfolding collect_def ContainerRemove_def
    using Cons.prems
    by (intro triple_bind [of _ _ "\<lambda>_ w. upgrading E name n ids (events w)"] triple_attempt triple_api
        triple_ret) (auto simp: logged_def intro: upgrading_remove)
  show ?case
    using Cons.prems unfolding remove_each.simps
    by (intro triple_bind [OF triple_upgrading [OF stop]] triple_bind [OF rm] triple_bind [OF Cons.IH]
        triple_ret) auto
qed (auto intro!: triple_ret)

text \<open>
  A creation removes at most the agent it has just created, when the executor could not be
  created.
\<close>

lemma upgraded_safely_append:
  assumes "upgraded_safely E name n h" and "\<forall>e \<in> set es. \<not> removing (fst e)"
  shows "upgraded_safely E name n (h @ es)"
  using assms
proof (induction es arbitrary: h)
  case (Cons e es)
  have "upgraded_safely E name n (h @ [e])"
    using Cons.prems by (intro upgraded_safely_snoc not_removing_may) auto
  then show ?case using Cons.IH [of "h @ [e]"] Cons.prems(2) by simp
qed simp

lemma created_since_last:
  assumes "eng_create (daemon E) h spec swap = Inr a" and "n \<le> length h"
  shows "created_since E n (h @ (CreateContainer spec swap, True) # es) a"
  using assms unfolding created_since_def by (intro exI [of _ "length h"]) auto

lemma create_tail_safe:
  assumes "upgraded_safely E name n (h @ pre)" and tail: "create_outcome E opts h pre r tail"
  shows "upgraded_safely E name n ((h @ pre) @ tail)"
proof -
  have none: "upgraded_safely E name n ((h @ pre) @ tail)" if "\<forall>e \<in> set tail. \<not> removing (fst e)"
    by (rule upgraded_safely_append [OF assms(1) that])
  show ?thesis
  proof (cases "\<exists>A X a swA swX ok. eng_create (daemon E) (h @ pre) A swA = Inr a \<and>
      tail = [(CreateContainer A swA, True), (CreateContainer X swX, False), (RemoveContainer a, ok)]")
    case True
    then obtain A X a swA swX ok where made: "eng_create (daemon E) (h @ pre) A swA = Inr a"
      and t: "tail = [(CreateContainer A swA, True), (CreateContainer X swX, False), (RemoveContainer a, ok)]"
      by blast
    have "upgraded_safely E name n ((h @ pre) @ [(CreateContainer A swA, True), (CreateContainer X swX, False)])"
      by (rule upgraded_safely_append [OF assms(1)]) simp
    moreover have "n \<le> length (h @ pre)" using assms(1) by (simp add: upgraded_safely_def)
    ultimately show ?thesis
      using upgraded_safely_snoc [of E name n _ "(RemoveContainer a, ok)"] created_since_last [OF made] t
      by fastforce
  next
    case False
    have "\<forall>e \<in> set tail. \<not> removing (fst e)"
      using tail False unfolding create_outcome_def containers_outcome_def
      by (elim disjE exE conjE) (auto split: if_splits)
    then show ?thesis by (rule none)
  qed
qed

lemma Create_safe:
  assumes "upgraded_safely E name n (events w)" and run: "Create E opts w = (r, w')"
  shows "upgraded_safely E name n (events w')"
proof -
  obtain pre tail where es: "events w' = events w @ pre @ tail"
    and pre: "\<forall>e \<in> set pre. ensure_call (opt_Name opts) (fst e)"
    and tail: "create_outcome E opts (events w) pre r tail"
    using Create_outcome [OF run] by blast
  have "upgraded_safely E name n (events w @ pre)"
    using pre reading_not_removing by (intro upgraded_safely_append [OF assms(1)]) blast
  then show ?thesis using create_tail_safe [OF _ tail] es by simp
qed

lemma hb_not_removing: "makes_only (\<lambda>c. \<not> removing c) (HB E b token args)"
  unfolding HB_def Exec_def by (intro call_rules) simp

lemma PrepareRuntime_not_removing: "makes_only (\<lambda>c. \<not> removing c) (PrepareRuntime E b token)"
proof -
  have w: "makes_only (\<lambda>c. \<not> removing c) (retry_wait E)"
    by (auto simp: hb_up_loop.simps simp: makes_only_def retry_wait_def logged_def)
  have "makes_only (\<lambda>c. \<not> removing c) (hb_up_loop E b token k)" for k
    by (induction k) (auto simp: hb_up_loop.simps intro!: call_rules hb_not_removing w)
  then show ?thesis unfolding PrepareRuntime_def by (intro call_rules hb_not_removing)
qed

lemma triple_upgrade_rest:
  "triple (\<lambda>w. upgrading E name n (set ids) (events w)) (upgrade_rest E name (cfg, res, mounts, ids, tok))
     (\<lambda>_ w. upgraded_safely E name n (events w)) (\<lambda>_ w. upgraded_safely E name n (events w))"
proof -
  let ?U = "\<lambda>S w. upgrading E name n S (events w)"
  have weak: "triple P m Q (\<lambda>_. ?U {}) \<Longrightarrow> triple P m Q (\<lambda>_ w. upgraded_safely E name n (events w))"
    for P :: "world \<Rightarrow> bool" and m :: "'x tx9" and Q
    by (erule triple_conseq) (auto simp: upgrading_def)
  have saves: "triple (?U (set ids)) m (\<lambda>_. ?U (set ids)) (\<lambda>_ w. upgraded_safely E name n (events w))"
    if "makes_only (\<lambda>c. \<not> removing c) m" for m :: "'x tx9"
    by (rule weak [OF triple_upgrading [OF that]])
  have remove: "triple (?U (set ids)) (removeBoxContainers E ids) (\<lambda>_ w. upgraded_safely E name n (events w))
      (\<lambda>_ w. upgraded_safely E name n (events w))"
    unfolding removeBoxContainers_def
    by (rule triple_bind [OF weak [OF remove_each_upgrading [OF subset_refl]]], rule triple_lift_result)
      (auto simp: upgrading_def)
  have create: "triple (\<lambda>w. upgraded_safely E name n (events w)) (Create E opts)
      (\<lambda>_ w. upgraded_safely E name n (events w)) (\<lambda>_ w. upgraded_safely E name n (events w))" for opts
    by (rule tripleI) (auto dest: Create_safe)
  have prepare: "triple (\<lambda>w. upgraded_safely E name n (events w)) (PrepareRuntime E b tok)
      (\<lambda>_ w. upgraded_safely E name n (events w)) (\<lambda>_ w. upgraded_safely E name n (events w))" for b
    by (rule triple_makes_only [OF PrepareRuntime_not_removing])
      (auto intro!: upgraded_safely_snoc not_removing_may)
  show ?thesis
    unfolding upgrade_rest_def prod.case
    by (intro triple_bind [OF saves] triple_bind [OF remove] triple_bind [OF create] prepare
        makes_only_settings_saves) simp_all
qed

definition upgrade_body ::
  "system \<Rightarrow> executorConfigFlags \<Rightarrow> (Resources \<Rightarrow> resource_error + Resources) \<Rightarrow> string \<Rightarrow> unit tx9" where
  "upgrade_body E xf rf name = bind_comp (upgrade_checks E xf rf name) (upgrade_rest E name)"

lemma cmdUpgrade_body: "cmdUpgrade E xf rf name = withBoxLock E name (upgrade_body E xf rf name)"
  by (simp add: cmdUpgrade_def upgrade_body_def)

lemma upgrade_body_safe:
  assumes "upgrade_body E xf rf name w = (r, w')"
  shows "(\<exists>e. upgrade_checks E xf rf name w = (Inl e, w') \<and> r = Inl e \<and> disk w' = disk w \<and>
        (\<exists>es. events w' = events w @ es \<and> (\<forall>x \<in> set es. reads_or_builds (fst x)))) \<or>
    upgraded_safely E name (length (events w)) (events w')"
proof -
  obtain q w1 where checks: "upgrade_checks E xf rf name w = (q, w1)"
    by (cases "upgrade_checks E xf rf name w")
  show ?thesis
  proof (cases q)
    case (Inl e)
    then have "w' = w1 \<and> r = Inl e"
      using assms checks by (simp add: upgrade_body_def bind_comp_def)
    then show ?thesis
      using checks Inl keepsD [OF upgrade_checks_keep_disk checks] makes_onlyD [OF upgrade_checks_calls checks]
      by metis
  next
    case (Inr x)
    obtain cfg res mounts ids tok where x: "x = (cfg, res, mounts, ids, tok)" by (cases x)
    then have rest: "upgrade_rest E name (cfg, res, mounts, ids, tok) w1 = (r, w')"
      using assms checks Inr by (simp add: upgrade_body_def bind_comp_def)
    have "upgrading E name (length (events w)) (set ids) (events w1)"
      using checks Inr x by (intro upgrade_checks_known) simp
    then show ?thesis using triple_allD [OF triple_upgrade_rest _ rest] by blast
  qed
qed

definition upgrade_refused ::
  "system \<Rightarrow> executorConfigFlags \<Rightarrow> (Resources \<Rightarrow> resource_error + Resources) \<Rightarrow> string
     \<Rightarrow> world \<Rightarrow> tx9_error + unit \<Rightarrow> world \<Rightarrow> bool" where
  "upgrade_refused E xf rf name w r w' \<longleftrightarrow>
     (\<exists>e. upgrade_checks E xf rf name w = (Inl e, w') \<and> r = Inl e) \<and> disk w' = disk w \<and>
     (\<exists>es. events w' = events w @ es \<and> list_all (\<lambda>x. reads_or_builds (fst x)) es)"

text \<open>C9: an upgrade is refused after calls that only read or build the image, with no file changed, or
  else it removes only containers that it inspected as belonging to the box or created itself, and
  never a network, a volume or the settings of the box.\<close>

theorem upgrade_outcome:
  "let (r, w') = upgrade_body E xf rf name w in
     upgrade_refused E xf rf name w r w' \<or> upgraded_safely E name (length (events w)) (events w')"
proof -
  obtain r w' where run: "upgrade_body E xf rf name w = (r, w')"
    by (cases "upgrade_body E xf rf name w")
  from upgrade_body_safe [OF run] show ?thesis
    unfolding run upgrade_refused_def by (auto simp: list_all_iff)
qed

end
