(* ===== verification/MaintenanceSafety.thy ===== *)
theory MaintenanceSafety
  imports UpgradeSafety
begin

text \<open>
  The maintenance commands: a mount change persists its mounts only after the agent has
  been recreated and wakes neither a stopped nor a quiesced box; a gateway is disabled
  before it is enabled; prune removes no image in use and no state of a live box; the
  token of \<open>enter\<close> never is an argument of a process.
\<close>

section \<open>Adding a mount\<close>

lemma mount_add_decision_iff:
  assumes "distinct (map Target ms)"
  shows "mount_add_decision m ms = Inr True \<longleftrightarrow> Target m \<notin> Target ` set ms"
    and "mount_add_decision m ms = Inr False \<longleftrightarrow> m \<in> set ms"
    and "mount_add_decision m ms = Inl e \<longleftrightarrow>
      e = TargetTaken (Target m) \<and> m \<notin> set ms \<and> Target m \<in> Target ` set ms"
  using assms by (induction ms) (auto split: if_splits)

section \<open>A mount change of a stopped box\<close>

lemma makes_only_append:
  assumes "makes_only P m" and "m w = (r, w')" and "events w = h @ es" and "\<forall>x \<in> set es. P (fst x)"
  shows "\<exists>es. events w' = h @ es \<and> (\<forall>x \<in> set es. P (fst x))"
proof -
  obtain fs where "events w' = events w @ fs" "\<And>e. e \<in> set fs \<Longrightarrow> P (fst e)"
    using makes_onlyD [OF assms(1,2)] by blast
  then show ?thesis using assms(3,4) by (intro exI [of _ "es @ fs"]) auto
qed

lemma BoxToken_run:
  assumes "BoxToken E name w = (r, w')"
  shows "\<exists>ok. w' = logged (ReadEnv name) ok w"
  using assms
  by (auto simp: BoxToken_def ReadEnvFile_def bind_comp_def Let_def fail_def ret_def
      split: sum.splits if_splits)

lemma applyAgentMounts_stopped:
  assumes run: "applyAgentMounts E b name mounts w = (r, w')"
    and answer: "\<And>ok. eng_inspect (daemon E) (events w @ [(ReadEnv (b_Name b), ok)]) (AgentID b) = Inr j"
    and "cj_Base j = Some base" and stopped: "cb_Running base \<noteq> Some True"
  shows "\<exists>es. events w' = events w @ es \<and> (\<forall>x \<in> set es. \<not> starts_or_stops (fst x))"
proof -
  obtain q1 w1 where tok: "BoxToken E (b_Name b) w = (q1, w1)" by (cases "BoxToken E (b_Name b) w")
  then obtain ok where w1: "w1 = logged (ReadEnv (b_Name b)) ok w" using BoxToken_run by blast
  show ?thesis
  proof (cases q1)
    case (Inl e)
    then show ?thesis using run tok w1 by (auto simp: applyAgentMounts_def bind_comp_def)
  next
    case (Inr token)
    obtain q2 w2 where re: "RecreateAgent E b token mounts w1 = (q2, w2)"
      by (cases "RecreateAgent E b token mounts w1")
    have answer1: "eng_inspect (daemon E) (events w1) (AgentID b) = Inr j"
      using answer w1 by simp
    obtain es where "events w2 = events w1 @ es" "\<forall>x \<in> set es. \<not> starts_or_stops (fst x)"
      using RecreateAgent_stopped [OF re answer1 assms(3) stopped] by blast
    then have e2: "events w2 = events w @ ((ReadEnv (b_Name b), ok) # es)"
        "\<forall>x \<in> set ((ReadEnv (b_Name b), ok) # es). \<not> starts_or_stops (fst x)"
      using w1 by auto
    show ?thesis
    proof (cases q2)
      case e: (Inl e)
      then have "w' = w2" using run tok Inr re by (simp add: applyAgentMounts_def bind_comp_def)
      then show ?thesis using e2 by blast
    next
      case x: (Inr x)
      obtain running b' where xx: "x = (running, b')" by (cases x)
      then have "running = False"
        using RecreateAgent_ok [of E b token mounts w1 running b' w2] re x answer1 assms(3) stopped
        by (cases running) auto
      then have "bind_comp (SaveAgentMounts E name mounts) (\<lambda>_. ret ()) w2 = (r, w')"
        using run tok Inr re x xx by (simp add: applyAgentMounts_def bind_comp_def)
      moreover have "makes_only (\<lambda>c. \<not> starts_or_stops c)
          (bind_comp (SaveAgentMounts E name mounts) (\<lambda>_. ret ()))"
        by (intro call_rules makes_only_settings_saves) simp_all
      ultimately show ?thesis using makes_only_append [OF _ _ e2] by blast
    qed
  qed
qed

section \<open>Mounts are saved after the recreation only\<close>

lemma keeps_disk_RecreateAgent [call_rules]: "keeps_disk (RecreateAgent E b token mounts)"
proof -
  have groups: "keeps_disk (configureAgentMountGroups E cid gs)" for cid gs
    by (induction gs) (auto intro!: call_rules simp: Exec_def)
  show ?thesis
    unfolding RecreateAgent_def probe_groups_def imageConfiguresMountGroups_def restart_for_groups_def
      ensureNetwork_def ensureVolume_def wrapper_defs ContainerCreate_def
    by (intro call_rules groups)
qed

lemma keeps_disk_BoxToken [call_rules]: "keeps_disk (BoxToken E name)"
  unfolding BoxToken_def Let_def by (intro call_rules)

text \<open>C22: when applying mounts changes a file, the agent had been recreated with these mounts successfully
  and no file had changed before that.\<close>

theorem applyAgentMounts_saves_last:
  assumes run: "applyAgentMounts E b name mounts w = (r, w')" and changed: "disk w' \<noteq> disk w"
  shows "\<exists>token w1 running b' w2. RecreateAgent E b token mounts w1 = (Inr (running, b'), w2) \<and>
    disk w1 = disk w \<and> disk w2 = disk w"
proof -
  obtain q1 w1 where tok: "BoxToken E (b_Name b) w = (q1, w1)" by (cases "BoxToken E (b_Name b) w")
  have d1: "disk w1 = disk w" by (rule keepsD [OF keeps_disk_BoxToken tok])
  obtain token where token: "q1 = Inr token"
    using run tok d1 changed by (cases q1) (auto simp: applyAgentMounts_def bind_comp_def)
  obtain q2 w2 where re: "RecreateAgent E b token mounts w1 = (q2, w2)"
    by (cases "RecreateAgent E b token mounts w1")
  have d2: "disk w2 = disk w1" by (rule keepsD [OF keeps_disk_RecreateAgent re])
  obtain x where "q2 = Inr x"
    using run tok token re d1 d2 changed by (cases q2) (auto simp: applyAgentMounts_def bind_comp_def)
  then have "RecreateAgent E b token mounts w1 = (Inr (fst x, snd x), w2)" using re by simp
  then show ?thesis using d1 d2 by metis
qed

theorem applyAgentMounts_saves_last_witness:
  "\<exists>token w1 running b' w2. RecreateAgent (demo box_daemon) demo_box token [] w1 = (Inr (running, b'), w2)"
proof -
  let ?run = "applyAgentMounts (demo box_daemon) demo_box ''a'' [] token_world"
  let ?path = "''/h/.tx9/boxes/a.env''"
  obtain r w' where run: "?run = (r, w')" by (cases ?run)
  have "(disk (snd ?run) ?path = disk token_world ?path) = False" by code_simp
  then have "disk w' \<noteq> disk token_world" unfolding run by auto
  then show ?thesis using applyAgentMounts_saves_last [OF run] by blast
qed

section \<open>A quiesced box is not woken\<close>

definition quiesce_cmd :: "string \<Rightarrow> string list" where
  "quiesce_cmd token = hb_prefix token @ [quiesce_script]"

definition hb_cmd :: "string \<Rightarrow> string list \<Rightarrow> string list" where
  "hb_cmd token args = hb_prefix token @ [hb_script, ''hb''] @ args"

text \<open>At position \<open>k\<close> of the history the agent answered that it is active.\<close>

definition answered_active :: "system \<Rightarrow> string \<Rightarrow> string \<Rightarrow> history \<Rightarrow> nat \<Rightarrow> bool" where
  "answered_active E cid token h k \<longleftrightarrow> k < length h \<and>
     h ! k = (RunExec cid (quiesce_cmd token) ''root'', True) \<and>
     (\<exists>res. eng_exec (daemon E) (take k h) cid (quiesce_cmd token) ''root'' = Inr res \<and>
        ExitCode res = 0 \<and> trim_space (Stdout res) = ''active'')"

lemma answered_active_append:
  "answered_active E cid token h k \<Longrightarrow> answered_active E cid token (h @ es) k"
  by (auto simp: answered_active_def nth_append)

lemma AgentQuiesced_active:
  assumes "AgentQuiesced E b token w = (Inr False, w')"
  shows "answered_active E (AgentID b) token (events w') (length (events w)) \<and>
    (\<exists>ok. events w' = events w @ [(RunExec (AgentID b) (quiesce_cmd token) ''root'', ok)])"
  using assms
  by (auto simp: AgentQuiesced_def Exec_def bind_comp_Inr_iff api_iffs answered_active_def
      quiesce_cmd_def split: if_splits)

text \<open>Every \<open>hb\<close> command after position \<open>n\<close> comes after such an answer.\<close>

definition hb_after_active :: "system \<Rightarrow> nat \<Rightarrow> history \<Rightarrow> bool" where
  "hb_after_active E n h \<longleftrightarrow>
     (\<forall>k cid token args ok. n \<le> k \<and> k < length h \<and> h ! k = (RunExec cid (hb_cmd token args) '''', ok) \<longrightarrow>
        (\<exists>i token'. n \<le> i \<and> i < k \<and> answered_active E cid token' h i))"

fun agent_command :: "call \<Rightarrow> bool" where
  "agent_command (RunExec cid cmd user) = (user = '''')"
| "agent_command c = False"

lemma hb_after_active_append:
  assumes "hb_after_active E n h" and "\<forall>e \<in> set es. \<not> agent_command (fst e)" and "n \<le> length h"
  shows "hb_after_active E n (h @ es)"
proof -
  have "\<exists>i token'. n \<le> i \<and> i < k \<and> answered_active E cid token' (h @ es) i"
    if "n \<le> k" "k < length (h @ es)" "(h @ es) ! k = (RunExec cid (hb_cmd token args) '''', ok)"
    for k cid token args ok
  proof (cases "k < length h")
    case True
    then show ?thesis using that assms(1) answered_active_append
      unfolding hb_after_active_def by (metis nth_append)
  next
    case False
    then have "(RunExec cid (hb_cmd token args) '''', ok) \<in> set es"
      using that by (auto simp: nth_append in_set_conv_nth intro!: exI [of _ "k - length h"])
    then show ?thesis using assms(2) by fastforce
  qed
  then show ?thesis unfolding hb_after_active_def by blast
qed

lemma check_not_agent_command: "check_call name c \<Longrightarrow> \<not> agent_command c"
  by (cases c) simp_all

lemma not_agent_command_calls:
  "makes_only (\<lambda>c. \<not> agent_command c) (RecreateAgent E b token mounts)"
  "makes_only (\<lambda>c. \<not> agent_command c) (BoxToken E name)"
  "makes_only (\<lambda>c. \<not> agent_command c) (SaveAgentMounts E name mounts)"
  "makes_only (\<lambda>c. \<not> agent_command c) (AgentQuiesced E b token)"
proof -
  have groups: "makes_only (\<lambda>c. \<not> agent_command c) (configureAgentMountGroups E cid gs)" for cid gs
    by (induction gs) (auto intro!: call_rules simp: Exec_def)
  have rest: "makes_only (\<lambda>c. \<not> agent_command c) (recreate_rest E b token x)" for x
    unfolding recreate_rest_def restart_for_groups_def wrapper_defs ContainerCreate_def
    by (intro call_rules groups) simp_all
  show "makes_only (\<lambda>c. \<not> agent_command c) (RecreateAgent E b token mounts)"
    unfolding RecreateAgent_split
    by (intro makes_only_bind rest makes_only_weaken [OF checks_only check_not_agent_command])
  show "makes_only (\<lambda>c. \<not> agent_command c) (BoxToken E name)"
    "makes_only (\<lambda>c. \<not> agent_command c) (SaveAgentMounts E name mounts)"
    by (intro makes_only_settings_loads makes_only_settings_saves; simp)+
  show "makes_only (\<lambda>c. \<not> agent_command c) (AgentQuiesced E b token)"
    unfolding AgentQuiesced_def Exec_def by (intro call_rules) simp
qed


text \<open>The \<open>hb\<close> commands of a mount change all come after the active answer.\<close>

lemma hb_after_active_once:
  assumes "answered_active E cid token h k" and "n \<le> k" and "hb_after_active E n h"
    and "\<forall>x \<in> set es. agent_command (fst x) \<longrightarrow> (\<exists>args. fst x = RunExec cid (hb_cmd token args) '''')"
  shows "hb_after_active E n (h @ es)"
proof -
  have k: "k < length h" using assms(1) by (simp add: answered_active_def)
  have "\<exists>i token'. n \<le> i \<and> i < j \<and> answered_active E cid' token' (h @ es) i"
    if j: "n \<le> j" "j < length (h @ es)" and hb: "(h @ es) ! j = (RunExec cid' (hb_cmd token' args) '''', ok)"
    for j cid' token' args ok
  proof (cases "j < length h")
    case True
    then show ?thesis using j hb assms(3) answered_active_append
      unfolding hb_after_active_def by (metis nth_append)
  next
    case False
    then have "(RunExec cid' (hb_cmd token' args) '''', ok) \<in> set es"
      using j hb by (auto simp: nth_append in_set_conv_nth intro!: exI [of _ "j - length h"])
    then have "cid' = cid" using assms(4) by fastforce
    then show ?thesis using False k assms(2) answered_active_append [OF assms(1)]
      by (intro exI [of _ k] exI [of _ token]) auto
  qed
  then show ?thesis unfolding hb_after_active_def by blast
qed

lemma PrepareRuntime_commands:
  "makes_only (\<lambda>c. agent_command c \<longrightarrow> (\<exists>args. c = RunExec (AgentID b) (hb_cmd token args) ''''))
     (PrepareRuntime E b token)"
proof -
  let ?P = "\<lambda>c. agent_command c \<longrightarrow> (\<exists>args. c = RunExec (AgentID b) (hb_cmd token args) '''')"
  have hb: "makes_only ?P (HB E b token args)" for args
    unfolding HB_def Exec_def by (intro call_rules) (auto simp: hb_cmd_def)
  have wait: "makes_only ?P (retry_wait E)"
    by (auto simp: makes_only_def retry_wait_def logged_def)
  have "makes_only ?P (hb_up_loop E b token k)" for k
    by (induction k) (auto intro!: call_rules hb wait simp: hb_up_loop.simps)
  then show ?thesis unfolding PrepareRuntime_def by (intro call_rules hb)
qed

lemma hb_after_active_start: "hb_after_active E (length h) h"
  by (auto simp: hb_after_active_def)

lemma applyAgentMounts_quiesced:
  assumes run: "applyAgentMounts E b name mounts w = (r, w')"
  shows "hb_after_active E (length (events w)) (events w')"
proof -
  let ?n = "length (events w)"
  let ?I = "\<lambda>w. ?n \<le> length (events w) \<and> hb_after_active E ?n (events w)"
  have quiet: "?I w2" if i: "?I w1" and m: "makes_only (\<lambda>c. \<not> agent_command c) m" "m w1 = (q, w2)"
    for w1 w2 and m :: "'x tx9" and q
  proof -
    obtain es where "events w2 = events w1 @ es" "\<And>e. e \<in> set es \<Longrightarrow> \<not> agent_command (fst e)"
      using makes_onlyD [OF m] by blast
    then show ?thesis using i hb_after_active_append [of E ?n "events w1" es] by auto
  qed
  note steps = not_agent_command_calls
  obtain q1 w1 where tok: "BoxToken E (b_Name b) w = (q1, w1)" by (cases "BoxToken E (b_Name b) w")
  have i1: "?I w1" by (rule quiet [OF _ steps(2) tok]) (simp add: hb_after_active_start)
  show ?thesis
  proof (cases q1)
    case (Inl e)
    then show ?thesis using run tok i1 by (simp add: applyAgentMounts_def bind_comp_def)
  next
    case (Inr token)
    obtain q2 w2 where re: "RecreateAgent E b token mounts w1 = (q2, w2)"
      by (cases "RecreateAgent E b token mounts w1")
    have i2: "?I w2" by (rule quiet [OF i1 steps(1) re])
    show ?thesis
    proof (cases q2)
      case e: (Inl e)
      then show ?thesis using run tok Inr re i2 by (simp add: applyAgentMounts_def bind_comp_def)
    next
      case x: (Inr x)
      obtain running b' where xx: "x = (running, b')" by (cases x)
      obtain q3 w3 where sv: "SaveAgentMounts E name mounts w2 = (q3, w3)"
        by (cases "SaveAgentMounts E name mounts w2")
      have i3: "?I w3" by (rule quiet [OF i2 steps(3) sv])
      obtain q4 w4 where aq: "AgentQuiesced E b' token w3 = (q4, w4)"
        by (cases "AgentQuiesced E b' token w3")
      have i4: "?I w4" by (rule quiet [OF i3 steps(4) aq])
      show ?thesis
      proof (cases "isl q3 \<or> \<not> running \<or> q4 \<noteq> Inr False")
        case True
        then have "w' = w3 \<or> w' = w4"
          using run tok Inr re x xx sv aq
          by (auto simp: applyAgentMounts_def bind_comp_def ret_def split: sum.splits if_splits)
        then show ?thesis using i3 i4 by auto
      next
        case False
        then have pr: "PrepareRuntime E b' token w4 = (r, w')" and no: "q4 = Inr False"
          using run tok Inr re x xx sv aq
          by (auto simp: applyAgentMounts_def bind_comp_def split: sum.splits if_splits)
        obtain ok where active: "answered_active E (AgentID b') token (events w4) (length (events w3))"
          using AgentQuiesced_active aq no by blast
        obtain es where es: "events w' = events w4 @ es" "\<forall>e \<in> set es. agent_command (fst e) \<longrightarrow>
            (\<exists>args. fst e = RunExec (AgentID b') (hb_cmd token args) '''')"
          using makes_onlyD [OF PrepareRuntime_commands pr] by metis
        show ?thesis using hb_after_active_once [OF active _ _ es(2)] i3 i4 es(1) by simp
      qed
    qed
  qed
qed

section \<open>The gateway\<close>

lemma hb_each_two:
  assumes "AgentID b \<noteq> ''''" and "hb_each E b token [c, d] w = (r, w')"
  shows "\<exists>post. events w' = events w @ post \<and>
    (isl r \<and> (\<exists>ok. post = [(hb_call b token c, ok)]) \<or>
     (\<exists>ok. post = [(hb_call b token c, True), (hb_call b token d, ok)] \<and> (r = Inr () \<longrightarrow> ok)))"
proof -
  obtain r1 w1 where one: "HB E b token c w = (r1, w1)" by (cases "HB E b token c w")
  then obtain ok where ok: "w1 = logged (hb_call b token c) ok w" "r1 = Inr () \<longrightarrow> ok"
    using HB_calls [OF assms(1)] by blast
  show ?thesis
  proof (cases r1)
    case (Inl e)
    then show ?thesis using assms(2) one ok by (auto simp: bind_comp_def)
  next
    case (Inr u)
    obtain r2 w2 where two: "HB E b token d w1 = (r2, w2)" by (cases "HB E b token d w1")
    then obtain ok2 where "w2 = logged (hb_call b token d) ok2 w1" "r2 = Inr () \<longrightarrow> ok2"
      using HB_calls [OF assms(1)] by blast
    then show ?thesis using assms(2) one two ok Inr
      by (cases r2) (auto simp: bind_comp_def ret_def)
  qed
qed

lemma reads_BoxToken: "makes_only reading (BoxToken E name)"
  by (rule makes_only_settings_loads) simp

lemma reads_append:
  assumes "makes_only P m" and "m w = (r, w')" and "events w = h @ es" and "\<forall>x \<in> set es. P (fst x)"
  obtains es' where "events w' = h @ es'" and "\<forall>x \<in> set es'. P (fst x)"
  using makes_only_append [OF assms] by blast

text \<open>The body of \<open>tx9 gateway enable\<close>: reads, then disable, and enable only after it succeeded.\<close>

definition gateway_enable_tail :: "Box \<Rightarrow> string \<Rightarrow> tx9_error + unit \<Rightarrow> history \<Rightarrow> bool" where
  "gateway_enable_tail b token r post \<longleftrightarrow>
     (isl r \<and> (\<exists>ok. post = [(hb_call b token [''gateway-disable''], ok)]) \<or>
      (\<exists>ok. post = [(hb_call b token [''gateway-disable''], True),
                    (hb_call b token [''gateway-enable'', ''--confirm-single-writer'',
                       singleWriterConfirmation], ok)] \<and> (r = Inr () \<longrightarrow> ok)))"

definition gateway_body :: "system \<Rightarrow> string \<Rightarrow> string list list \<Rightarrow> string \<Rightarrow> unit tx9" where
  "gateway_body E action cmds name =
     bind_comp (Get E name) (\<lambda>b.
        if AgentState b \<noteq> ''running'' then fail (NotRunning name)
        else bind_comp (attempt (BoxToken E name)) (\<lambda>r.
          case r of
            Inr token \<Rightarrow> hb_each E b token cmds
          | Inl e \<Rightarrow> if action = ''enable'' then fail e else hb_each E b '''' cmds))"

lemma cmdGateway_body:
  "cmdGateway E action confirmed name =
     bind_comp (lift_result (gatewayHBCommands action confirmed)) (\<lambda>cmds.
       withBoxLock E name (gateway_body E action cmds name))"
  by (simp add: cmdGateway_def gateway_body_def)

text \<open>The gateway is enabled only with the explicit confirmation and in a running box, and the enable
  command runs only after the disable command succeeded in the same agent.\<close>

theorem gateway_enable_order:
  assumes cmds: "gatewayHBCommands ''enable'' confirmed = Inr cmds"
    and run: "gateway_body E ''enable'' cmds name w = (r, w')"
  shows "confirmed \<and> (\<exists>pre post. events w' = events w @ pre @ post \<and> (\<forall>x \<in> set pre. reading (fst x)) \<and>
    (post = [] \<and> isl r \<or>
     (\<exists>b token. AgentState b = ''running'' \<and> gateway_enable_tail b token r post)))"
proof -
  have c: "confirmed" "cmds = [[''gateway-disable''],
      [''gateway-enable'', ''--confirm-single-writer'', singleWriterConfirmation]]"
    using cmds by (auto simp: gatewayHBCommands_def split: if_splits)
  obtain q1 w1 where get: "Get E name w = (q1, w1)" by (cases "Get E name w")
  obtain es1 where es1: "events w1 = events w @ es1" "\<And>e. e \<in> set es1 \<Longrightarrow> reading (fst e)"
    using makes_onlyD [OF reads_Get get] by blast
  have stop: ?thesis if "w' = w1" "isl r"
    using that c(1) es1 by (intro conjI exI [of _ es1] exI [of _ "[]"]) auto
  show ?thesis
  proof (cases q1)
    case (Inl e)
    then have "w' = w1" "isl r" using run get by (auto simp: gateway_body_def bind_comp_def)
    then show ?thesis by (rule stop)
  next
    case (Inr b)
    obtain q2 w2 where tok: "BoxToken E name w1 = (q2, w2)" by (cases "BoxToken E name w1")
    obtain es2 where es2: "events w2 = events w @ es2" "\<forall>x \<in> set es2. reading (fst x)"
      by (rule reads_append [OF reads_BoxToken tok es1(1)]) (use es1(2) in blast)
    have rest: "if AgentState b \<noteq> ''running'' then r = Inl (NotRunning name) \<and> w' = w1
        else case q2 of Inl e \<Rightarrow> r = Inl e \<and> w' = w2 | Inr token \<Rightarrow> hb_each E b token cmds w2 = (r, w')"
      using run get Inr tok
      by (auto simp: gateway_body_def bind_comp_def attempt_def fail_def split: sum.splits)
    show ?thesis
    proof (cases "AgentState b \<noteq> ''running'' \<or> isl q2")
      case True
      then have "isl r \<and> (w' = w1 \<or> w' = w2)" using rest by (cases q2) (auto split: if_splits)
      then show ?thesis using stop c(1) es2
        by (elim conjE disjE) (blast, intro conjI exI [of _ es2] exI [of _ "[]"], auto)
    next
      case False
      then obtain token where hb: "hb_each E b token cmds w2 = (r, w')" and running: "AgentState b = ''running''"
        using rest by (cases q2) auto
      show ?thesis
      proof (cases "AgentID b = ''''")
        case True
        then have "w' = w2" "isl r" using hb c(2) by (auto simp: bind_comp_def HB_def fail_def)
        then show ?thesis using c(1) es2 by (intro conjI exI [of _ es2] exI [of _ "[]"]) auto
      next
        case False
        have "hb_each E b token [[''gateway-disable''],
            [''gateway-enable'', ''--confirm-single-writer'', singleWriterConfirmation]] w2 = (r, w')"
          using hb c(2) by simp
        from hb_each_two [OF False this] obtain post
          where "events w' = events w2 @ post" "gateway_enable_tail b token r post"
          unfolding gateway_enable_tail_def by (elim exE conjE)
        then show ?thesis using c(1) es2 running
          by (intro conjI exI [of _ es2] exI [of _ post]) auto
      qed
    qed
  qed
qed

theorem gateway_enable_order_witness:
  "\<exists>cmds w' pre b token ok. gatewayHBCommands ''enable'' True = Inr cmds \<and>
     gateway_body (demo box_daemon) ''enable'' cmds ''a'' token_world = (Inr (), w') \<and>
     events w' = pre @ [(hb_call b token [''gateway-disable''], True),
        (hb_call b token [''gateway-enable'', ''--confirm-single-writer'', singleWriterConfirmation], ok)]"
proof -
  let ?cmds = "[[''gateway-disable''], [''gateway-enable'', ''--confirm-single-writer'', singleWriterConfirmation]]"
  let ?run = "gateway_body (demo box_daemon) ''enable'' ?cmds ''a'' token_world"
  have cmds: "gatewayHBCommands ''enable'' True = Inr ?cmds" by (simp add: gatewayHBCommands_def)
  have "isl (fst ?run) = False" by code_simp
  then obtain w' where run: "?run = (Inr (), w')" using returned by fastforce
  from gateway_enable_order [OF cmds run] obtain pre b token ok where
    "events w' = pre @ [(hb_call b token [''gateway-disable''], True),
        (hb_call b token [''gateway-enable'', ''--confirm-single-writer'', singleWriterConfirmation], ok)]"
    by (auto simp: gateway_enable_tail_def token_world_def)
  then show ?thesis using cmds run by blast
qed

section \<open>Prune\<close>

text \<open>The tags that pruning removes are exactly the \<open>tx9-box:\<close> tags of the images that carry neither
  the current tag nor any tag, or the id, that a container refers to.\<close>

theorem stale_tags_iff:
  "t \<in> set (stale_tags current cs im) \<longleftrightarrow>
     t \<in> set (im_Tags im) \<and> has_prefix t ''tx9-box:'' \<and> current \<notin> set (im_Tags im) \<and>
     list_all (\<lambda>c. cs_ImageID c \<noteq> im_ID im \<and> cs_Image c \<noteq> im_ID im \<and>
        cs_Image c \<notin> set (im_Tags im) \<and> cs_ImageID c \<notin> set (im_Tags im)) cs"
  by (auto simp: stale_tags_def Let_def list_ex_iff list_all_iff image_iff)

lemma present_false:
  "present (api c f) w = (Inr False, w') \<longleftrightarrow> f (events w) = Inl NotFound \<and> w' = logged c False w"
  by (auto simp: present_def bind_comp_def attempt_def api_run fail_def ret_def
      split: sum.splits if_splits)

definition state_unused :: "system \<Rightarrow> string \<Rightarrow> history \<Rightarrow> bool" where
  "state_unused E name h \<longleftrightarrow>
     (\<exists>cs. eng_list (daemon E) h = Inr cs \<and> \<not> list_ex (of_box name) cs) \<and>
     absent_in_turn E (h @ [(ListContainers, True)])
       [InspectVolume (agent_volume name), InspectVolume (executor_volume name),
        InspectNetwork (NetworkName name)]"

lemma boxStateInUse_false:
  assumes "boxStateInUse E name w = (Inr False, w')"
  shows "state_unused E name (events w) \<and> disk w' = disk w"
  using assms
  by (auto simp: boxStateInUse_def bind_comp_Inr_iff Exists_iff present_false state_unused_def
      VolumeInspect_def NetworkInspect_def split: if_splits)

lemma keeps_disk_boxStateInUse [call_rules]: "keeps_disk (boxStateInUse E name)"
  unfolding boxStateInUse_def present_def VolumeInspect_def NetworkInspect_def by (intro call_rules)

lemma keeps_locks_boxStateInUse: "keeps_locks (boxStateInUse E name)"
  unfolding boxStateInUse_def present_def VolumeInspect_def NetworkInspect_def by (intro call_rules)

lemma AcquireLock_ok:
  assumes "AcquireLock E path w = (Inr h, w')"
  shows "holder (locks w') path = Some h \<and> disk w' = disk w \<and> events w' = events w"
  using assms by (auto simp: AcquireLock_def Acquire_def Let_def split: prod.splits if_splits)

text \<open>The removal of a prune runs in the world that the check of the box leaves, and only there.\<close>

lemma prune_with_unused:
  assumes "LockPath (host E) name = Inr lock" and "AcquireLock E lock w = (Inr h, w1)"
    and "boxStateInUse E name w1 = (Inr False, w2)"
  shows "prune_with E name removal w = with_defer removal (ReleaseLock h) w2"
  using assms by (simp add: prune_with_def lift_result_def bind_comp_def with_defer_def)

lemma prune_with_changes:
  assumes "prune_with E name removal w = (r, w')" and "disk w' \<noteq> disk w"
  obtains lock h w1 w2 where "LockPath (host E) name = Inr lock" and "AcquireLock E lock w = (Inr h, w1)"
    and "boxStateInUse E name w1 = (Inr False, w2)"
proof -
  obtain lock where path: "LockPath (host E) name = Inr lock"
    using assms by (cases "LockPath (host E) name") (auto simp: prune_with_def bind_comp_def lift_result_def)
  obtain q w1 where acq: "AcquireLock E lock w = (q, w1)" by (cases "AcquireLock E lock w")
  have w1: "disk w1 = disk w" using acq by (auto simp: AcquireLock_def split: prod.splits)
  have "\<exists>h. q = Inr h"
  proof (cases q)
    case (Inl e)
    then have "w' = w1" using assms(1) path acq
      by (auto simp: prune_with_def bind_comp_def lift_result_def split: tx9_error.splits lock_error.splits)
    then show ?thesis using assms(2) w1 by simp
  qed simp
  then obtain h where h: "q = Inr h" by blast
  obtain u w2 where use: "boxStateInUse E name w1 = (u, w2)" by (cases "boxStateInUse E name w1")
  have "disk w2 = disk w" using keepsD [OF keeps_disk_boxStateInUse use] w1 by simp
  then have "u = Inr False"
    using assms path acq h use
    by (cases u) (auto simp: prune_with_def lift_result_def bind_comp_def with_defer_def ReleaseLock_def
        ret_def split: if_splits)
  then show thesis using that path acq h use by blast
qed

text \<open>C24: pruning changes the disk only by deleting the settings file of the named box: it has taken the
  lock of the box, then the daemon listed no container of it and answered that its volumes and network
  are absent, and the lock is still held by the handle of this run in the world in which the removal
  runs; it is released after the removal.\<close>

theorem pruneStateFile_disk:
  assumes run: "pruneStateFile E name w = (r, w')" and changed: "disk w' \<noteq> disk w"
  shows "\<exists>env lock h w1 w2. r = Inr True \<and> LockPath (host E) name = Inr lock \<and>
    BoxEnvPath (host E) name = Inr env \<and> disk w' = (disk w)(env := None) \<and>
    AcquireLock E lock w = (Inr h, w1) \<and> boxStateInUse E name w1 = (Inr False, w2) \<and>
    state_unused E name (events w) \<and> holder (locks w2) lock = Some h \<and>
    (\<forall>removal. prune_with E name removal w = with_defer removal (ReleaseLock h) w2)"
proof -
  obtain lock h w1 w2 where path: "LockPath (host E) name = Inr lock"
    and acq: "AcquireLock E lock w = (Inr h, w1)" and use: "boxStateInUse E name w1 = (Inr False, w2)"
    using prune_with_changes run changed unfolding pruneStateFile_def by metis
  note with_unused = prune_with_unused [OF path acq use]
  have w1: "holder (locks w1) lock = Some h" "disk w1 = disk w" "events w1 = events w"
    using AcquireLock_ok [OF acq] by simp_all
  then have w2: "holder (locks w2) lock = Some h" "disk w2 = disk w" "state_unused E name (events w)"
    using keepsD [OF keeps_locks_boxStateInUse use] boxStateInUse_false [OF use] by simp_all
  obtain r2 w3 where rm: "remove_state E name w2 = (r2, w3)" by fastforce
  have "r2 = r" "disk w' = disk w3"
    using run rm unfolding pruneStateFile_def with_unused
    by (auto simp: with_defer_def ReleaseLock_def)
  then show ?thesis using changed rm path acq use w2 with_unused
    by (auto simp: remove_state_def split: sum.splits if_splits)
qed

theorem pruneStateFile_disk_witness:
  "\<exists>w' w2 h. pruneStateFile (demo empty_daemon) ''a'' token_world = (Inr True, w') \<and>
     state_unused (demo empty_daemon) ''a'' (events token_world) \<and>
     holder (locks w2) ''/h/.tx9/locks/a.lock'' = Some h \<and>
     with_defer (remove_state (demo empty_daemon) ''a'') (ReleaseLock h) w2 = (Inr True, w')"
proof -
  let ?run = "pruneStateFile (demo empty_daemon) ''a'' token_world"
  let ?path = "''/h/.tx9/boxes/a.env''"
  obtain r w' where run: "?run = (r, w')" by (cases ?run)
  have "(disk (snd ?run) ?path = disk token_world ?path) = False" by code_simp
  then have "disk w' \<noteq> disk token_world" unfolding run by auto
  moreover have "LockPath (host (demo empty_daemon)) ''a'' = Inr ''/h/.tx9/locks/a.lock''" by code_simp
  ultimately show ?thesis
    using pruneStateFile_disk [OF run] run unfolding pruneStateFile_def by fastforce
qed

section \<open>Enter\<close>

definition token_var :: "bool \<Rightarrow> string" where
  "token_var intoExecutor = (if intoExecutor then ''EXECUTOR_MCP_TOKEN'' else ''BOXD_EXECUTOR_TOKEN'')"

definition env_key :: "string \<Rightarrow> string" where
  "env_key entry = fst (cut_on CHR ''='' entry)"

lemma env_key_token: "env_key (token_var x @ ''='' @ tok) = token_var x"
  by (cases x) (simp_all add: env_key_def token_var_def)

text \<open>C23: while new mounts are applied, every \<open>hb\<close> command in a container comes after that container
  has answered, in the same run, that it is active: a quiesced agent is not started again.\<close>

theorem hb_only_after_active:
  "hb_after_active E (length (events w)) (events (snd (applyAgentMounts E b name mounts w)))"
  using applyAgentMounts_quiesced [of E b name mounts w] by (cases "applyAgentMounts E b name mounts w") auto

end
