(* ===== verification/Release.thy ===== *)
theory Release
  imports GoStrings
begin

text \<open>
  Versions, checksum files and the release site (\<open>internal/selfupdate\<close>: \<open>version.go\<close>,
  \<open>checksums.go\<close>, \<open>asset.go\<close>, \<open>site.go\<close>).  The HTTP client is a function from URLs to
  responses.  \<open>strings.ToLower\<close> is modelled on ASCII letters: a digest with any other byte
  is rejected with the same error either way.
\<close>

section \<open>Versions\<close>

definition normalizeVersion :: "string \<Rightarrow> string" where
  "normalizeVersion v = trim_prefix (trim_space v) ''v''"

fun atoi_parts :: "string list \<Rightarrow> int list option" where
  "atoi_parts [] = Some []"
| "atoi_parts (p # ps) =
     (case parse_int p of
        None \<Rightarrow> None
      | Some n \<Rightarrow>
          if n < 0 then None
          else (case atoi_parts ps of None \<Rightarrow> None | Some ns \<Rightarrow> Some (n # ns)))"

definition splitNumeric :: "string \<Rightarrow> int list option" where
  "splitNumeric v = (if v = '''' then None else atoi_parts (split_on CHR ''.'' v))"

text \<open>\<open>strings.Compare\<close>: the order of bytes.\<close>

fun string_compare :: "string \<Rightarrow> string \<Rightarrow> int" where
  "string_compare [] [] = 0"
| "string_compare [] (d # t) = -1"
| "string_compare (c # s) [] = 1"
| "string_compare (c # s) (d # t) =
     (if c = d then string_compare s t
      else if (of_char c :: nat) < of_char d then -1 else 1)"

definition compare_int :: "int \<Rightarrow> int \<Rightarrow> int" where
  "compare_int a b = (if a < b then -1 else 1)"

fun compare_parts :: "int list \<Rightarrow> int list \<Rightarrow> int" where
  "compare_parts [] [] = 0"
| "compare_parts (a # as) [] = (if a \<noteq> 0 then compare_int a 0 else compare_parts as [])"
| "compare_parts [] (b # bs) = (if 0 \<noteq> b then compare_int 0 b else compare_parts [] bs)"
| "compare_parts (a # as) (b # bs) = (if a \<noteq> b then compare_int a b else compare_parts as bs)"

definition CompareVersions :: "string \<Rightarrow> string \<Rightarrow> int" where
  "CompareVersions a b =
     (let na = normalizeVersion a; nb = normalizeVersion b in
      if na = nb then 0
      else case (splitNumeric na, splitNumeric nb) of
        (Some pa, Some pb) \<Rightarrow> compare_parts pa pb
      | _ \<Rightarrow> string_compare na nb)"

definition SameVersion :: "string \<Rightarrow> string \<Rightarrow> bool" where
  "SameVersion a b \<longleftrightarrow> CompareVersions a b = 0"

section \<open>Checksum files\<close>

datatype checksums_error =
    MalformedLine string
  | BadDigest string string
  | EmptyFilename string
  | DuplicateEntry string
  | LineTooLong

definition hex_byte :: "char \<Rightarrow> bool" where
  "hex_byte c \<longleftrightarrow> is_digit c \<or> 97 \<le> (of_char c :: nat) \<and> (of_char c :: nat) \<le> 102"

definition isHex :: "string \<Rightarrow> bool" where
  "isHex s = list_all hex_byte s"

type_synonym checksums = "(string \<times> string) list"

definition checksum_line :: "checksums \<Rightarrow> string \<Rightarrow> checksums_error + checksums" where
  "checksum_line out raw =
     (let line = trim_space raw in
      if line = '''' \<or> has_prefix line ''#'' then Inr out
      else case fields line of
        [f0, f1] \<Rightarrow>
          (let digest = map lower_byte f0; name = trim_prefix f1 ''*'' in
           if length digest \<noteq> 64 \<or> \<not> isHex digest then Inl (BadDigest name f0)
           else if name = '''' then Inl (EmptyFilename line)
           else if map_of out name \<noteq> None then Inl (DuplicateEntry name)
           else Inr (out @ [(name, digest)]))
      | _ \<Rightarrow> Inl (MalformedLine line))"

fun checksum_lines :: "checksums \<Rightarrow> string list \<Rightarrow> checksums_error + checksums" where
  "checksum_lines out [] = Inr out"
| "checksum_lines out (l # ls) = result_bind (checksum_line out l) (\<lambda>out'. checksum_lines out' ls)"

definition ParseChecksums :: "string \<Rightarrow> checksums_error + checksums" where
  "ParseChecksums data =
     (case scan_lines data of (ls, too_long) \<Rightarrow>
        result_bind (checksum_lines [] ls) (\<lambda>out. if too_long then Inl LineTooLong else Inr out))"

definition AssetName :: "string \<Rightarrow> string \<Rightarrow> string" where
  "AssetName goos goarch = ''tx9_'' @ goos @ ''_'' @ goarch"

section \<open>The release site\<close>

definition DefaultOrigin :: string where
  "DefaultOrigin = ''https://tx9.col-agents.com''"

definition ResolveOrigin :: "(string \<Rightarrow> string) \<Rightarrow> string \<Rightarrow> string" where
  "ResolveOrigin getenv override =
     trim_right_slashes
       (if override \<noteq> '''' then override
        else if getenv ''TX9_ORIGIN'' \<noteq> '''' then getenv ''TX9_ORIGIN''
        else DefaultOrigin)"

text \<open>
  A response has a status, a declared length, the bytes that arrive, and whether reading fails
  after them (a broken or stalled connection).
\<close>

record response =
  StatusCode :: int
  ContentLength :: int
  Body :: string
  Broken :: bool

text \<open>\<open>io.ReadAll (io.LimitReader body n)\<close>: reading stops at the limit, before a failure behind it.\<close>

definition read_limited :: "nat \<Rightarrow> response \<Rightarrow> string option" where
  "read_limited n r =
     (if n \<le> length (Body r) then Some (take n (Body r))
      else if Broken r then None else Some (Body r))"

datatype site_error =
    NoRelease
  | RequestFailed string
  | BadStatus string int
  | ReadBodyFailed string
  | ResponseTooLong string
  | UnexpectedVersion string string

definition release_version :: "string \<Rightarrow> bool" where
  "release_version v \<longleftrightarrow>
     (case split_on CHR ''.'' v of
        [a, b, c] \<Rightarrow> a \<noteq> '''' \<and> b \<noteq> '''' \<and> c \<noteq> '''' \<and> list_all is_digit (a @ b @ c)
      | _ \<Rightarrow> False)"

type_synonym http_client = "string \<Rightarrow> response option"

definition fetchLatestVersion :: "http_client \<Rightarrow> string \<Rightarrow> site_error + string" where
  "fetchLatestVersion http origin =
     (let url = origin @ ''/releases/latest'' in
      case http url of
        None \<Rightarrow> Inl (RequestFailed url)
      | Some resp \<Rightarrow>
          if StatusCode resp = 404 then Inl NoRelease
          else if StatusCode resp \<noteq> 200 then Inl (BadStatus url (StatusCode resp))
          else (case read_limited 4097 resp of
              None \<Rightarrow> Inl (ReadBodyFailed url)
            | Some body \<Rightarrow>
                if length body > 4096 then Inl (ResponseTooLong url)
                else let v = trim_space body in
                  if release_version v then Inr v else Inl (UnexpectedVersion url v)))"

definition maxChecksumsBytes :: nat where "maxChecksumsBytes = 1048576"

definition fetchBytes :: "http_client \<Rightarrow> string \<Rightarrow> site_error + string" where
  "fetchBytes http url =
     (case http url of
        None \<Rightarrow> Inl (RequestFailed url)
      | Some resp \<Rightarrow>
          if StatusCode resp \<noteq> 200 then Inl (BadStatus url (StatusCode resp))
          else (case read_limited (maxChecksumsBytes + 1) resp of
              None \<Rightarrow> Inl (ReadBodyFailed url)
            | Some data \<Rightarrow>
                if length data > maxChecksumsBytes then Inl (ResponseTooLong url) else Inr data))"

end
