(* ===== verification/SelfUpdate.thy ===== *)
theory SelfUpdate
  imports Release GoPath
begin

text \<open>
  The self-update (\<open>internal/selfupdate/selfupdate.go\<close> and \<open>cmdUpgradeSelf\<close> of
  \<open>internal/cli/cmd_upgrade.go\<close>).  The file system maps paths to contents and the executable
  bit; each call on the staged file may fail, and \<open>Update\<close> returns the states the file system
  passes through, so that a crash at any moment is one of them.
\<close>

record binary =
  Contents :: string
  Executable :: bool

type_synonym binaries = "string \<Rightarrow> binary option"

datatype stage_call =
    CreateStage | WriteStage | ChmodStage | SyncStage | CloseStage | RenameStage | RemoveStage

record Options =
  CurrentVersion :: string
  Force :: bool
  Origin :: string
  GOOS :: string
  GOARCH :: string
  execPathOverride :: string

text \<open>
  What the update finds: the site, the environment, the platform, the path of the running
  executable (with its links resolved), SHA-256 in hexadecimal, and which calls fail; a failed
  write leaves \<open>partial_stage\<close> in the staged file.
\<close>

record machine =
  http :: http_client
  environment :: "string \<Rightarrow> string"
  runtime_GOOS :: string
  runtime_GOARCH :: string
  running_executable :: "string option"
  sha256_hex :: "string \<Rightarrow> string"
  stage_fails :: "stage_call \<Rightarrow> bool"
  partial_stage :: string
  stage_number :: nat

record Result =
  Applied :: bool
  FromVersion :: string
  ToVersion :: string
  InstalledPath :: string

datatype update_error =
    DevVersion
  | CustomVersion string
  | LatestVersion site_error
  | NoExecutable
  | ChecksumsDownload site_error
  | ChecksumsParse checksums_error
  | NoChecksumEntry string
  | StageCreate
  | AssetDownload site_error
  | WriteFailed
  | ChecksumMismatch string string
  | ChmodFailed
  | SyncFailed
  | CloseFailed
  | InstallFailed string

definition maxAssetBytes :: nat where "maxAssetBytes = 268435456"

text \<open>
  The download of the asset: its digest, or the error and what it left in the staged file.
\<close>

definition downloadToFile :: "machine \<Rightarrow> string \<Rightarrow> (update_error + string) \<times> string" where
  "downloadToFile M url =
     (case http M url of
        None \<Rightarrow> (Inl (AssetDownload (RequestFailed url)), '''')
      | Some resp \<Rightarrow>
          if StatusCode resp \<noteq> 200 then (Inl (AssetDownload (BadStatus url (StatusCode resp))), '''')
          else if ContentLength resp > int maxAssetBytes then
            (Inl (AssetDownload (ResponseTooLong url)), '''')
          else if stage_fails M WriteStage then (Inl WriteFailed, partial_stage M)
          else (case read_limited (maxAssetBytes + 1) resp of
              None \<Rightarrow> (Inl (AssetDownload (ReadBodyFailed url)), Body resp)
            | Some data \<Rightarrow>
                if length data > maxAssetBytes then (Inl (AssetDownload (ResponseTooLong url)), data)
                else (Inr (sha256_hex M data), data)))"

definition stage_path :: "machine \<Rightarrow> string \<Rightarrow> string" where
  "stage_path M realPath =
     Join2 (DirOf realPath) (''.'' @ Base realPath @ ''.update-'' @ show_nat (stage_number M))"

definition remove_stage :: "machine \<Rightarrow> string \<Rightarrow> binaries \<Rightarrow> binaries" where
  "remove_stage M stage fs = (if stage_fails M RemoveStage then fs else fs(stage := None))"

text \<open>
  From the creation of the staged file on: download, compare the digest, then mode, sync, close
  and rename, each only after the one before it; every exit removes the staged file.
\<close>

definition install ::
  "machine \<Rightarrow> string \<Rightarrow> string \<Rightarrow> string \<Rightarrow> binaries \<Rightarrow> (update_error + unit) \<times> binaries list" where
  "install M assetURL wantDigest realPath fs =
     (let stage = stage_path M realPath in
      if stage_fails M CreateStage \<or> fs stage \<noteq> None then (Inl StageCreate, [fs])
      else
        let fs1 = fs(stage \<mapsto> \<lparr>Contents = '''', Executable = False\<rparr>);
            (r, data) = downloadToFile M assetURL;
            fs2 = fs(stage \<mapsto> \<lparr>Contents = data, Executable = False\<rparr>);
            fs3 = fs(stage \<mapsto> \<lparr>Contents = data, Executable = True\<rparr>);
            stop = (\<lambda>e states. (Inl e, states @ [remove_stage M stage (last states)]))
        in case r of
             Inl e \<Rightarrow> stop e [fs, fs1, fs2]
           | Inr gotDigest \<Rightarrow>
               if gotDigest \<noteq> wantDigest then stop (ChecksumMismatch gotDigest wantDigest) [fs, fs1, fs2]
               else if stage_fails M ChmodStage then stop ChmodFailed [fs, fs1, fs2]
               else if stage_fails M SyncStage then stop SyncFailed [fs, fs1, fs2, fs3]
               else if stage_fails M CloseStage then stop CloseFailed [fs, fs1, fs2, fs3]
               else if stage_fails M RenameStage then stop (InstallFailed realPath) [fs, fs1, fs2, fs3]
               else (Inr (), [fs, fs1, fs2, fs3,
                       (fs3(stage := None))(realPath \<mapsto> \<lparr>Contents = data, Executable = True\<rparr>)]))"

definition real_path :: "machine \<Rightarrow> Options \<Rightarrow> update_error + string" where
  "real_path M opts =
     (if execPathOverride opts \<noteq> '''' then Inr (execPathOverride opts)
      else case running_executable M of None \<Rightarrow> Inl NoExecutable | Some p \<Rightarrow> Inr p)"

definition asset_of :: "machine \<Rightarrow> Options \<Rightarrow> string" where
  "asset_of M opts =
     AssetName (if GOOS opts = '''' then runtime_GOOS M else GOOS opts)
       (if GOARCH opts = '''' then runtime_GOARCH M else GOARCH opts)"

definition wanted_digest :: "machine \<Rightarrow> string \<Rightarrow> string \<Rightarrow> update_error + string" where
  "wanted_digest M baseURL assetName =
     result_bind (map_error ChecksumsDownload (fetchBytes (http M) (baseURL @ ''/checksums.txt''))) (\<lambda>data.
     result_bind (map_error ChecksumsParse (ParseChecksums data)) (\<lambda>sums.
     case map_of sums assetName of
       None \<Rightarrow> Inl (NoChecksumEntry assetName)
     | Some digest \<Rightarrow> Inr digest))"

definition Update :: "machine \<Rightarrow> Options \<Rightarrow> binaries \<Rightarrow> (update_error + Result) \<times> binaries list" where
  "Update M opts fs =
     (let current = CurrentVersion opts in
      if (current = '''' \<or> current = ''dev'') \<and> \<not> Force opts then (Inl DevVersion, [fs])
      else if splitNumeric (normalizeVersion current) = None \<and> \<not> Force opts then
        (Inl (CustomVersion current), [fs])
      else
        let origin = ResolveOrigin (environment M) (Origin opts) in
        case fetchLatestVersion (http M) origin of
          Inl e \<Rightarrow> (Inl (LatestVersion e), [fs])
        | Inr latest \<Rightarrow>
            if \<not> Force opts \<and> CompareVersions current latest \<ge> 0 then
              (Inr \<lparr>Applied = False, FromVersion = current, ToVersion = latest, InstalledPath = ''''\<rparr>, [fs])
            else
              let baseURL = origin @ ''/releases/'' @ latest; assetName = asset_of M opts in
              case result_bind (real_path M opts) (\<lambda>realPath.
                     result_bind (wanted_digest M baseURL assetName) (\<lambda>digest. Inr (realPath, digest))) of
                Inl e \<Rightarrow> (Inl e, [fs])
              | Inr (realPath, digest) \<Rightarrow>
                  (case install M (baseURL @ ''/'' @ assetName) digest realPath fs of
                     (Inl e, states) \<Rightarrow> (Inl e, states)
                   | (Inr _, states) \<Rightarrow>
                       (Inr \<lparr>Applied = True, FromVersion = current, ToVersion = latest,
                             InstalledPath = realPath\<rparr>, states)))"

datatype upgrade_error = NoReleasesAt string | UpgradeFailed update_error

text \<open>What \<open>tx9 upgrade\<close> without a box reports: the old and the new version, or up to date.\<close>

definition displayVersion :: "string \<Rightarrow> string" where
  "displayVersion v = (if v = '''' then ''?'' else v)"

definition cmdUpgradeSelf ::
  "machine \<Rightarrow> string \<Rightarrow> bool \<Rightarrow> binaries \<Rightarrow> (upgrade_error + (string \<times> string) option) \<times> binaries list" where
  "cmdUpgradeSelf M version force fs =
     (case Update M \<lparr>CurrentVersion = version, Force = force, Origin = '''', GOOS = '''', GOARCH = '''',
             execPathOverride = ''''\<rparr> fs of
        (Inl e, states) \<Rightarrow>
          (Inl (if e = LatestVersion NoRelease then NoReleasesAt (ResolveOrigin (environment M) '''')
                else UpgradeFailed e), states)
      | (Inr res, states) \<Rightarrow>
          (Inr (if \<not> Applied res then None else Some (displayVersion version, ToVersion res)), states))"

end
