(* ===== verification/ReleaseSafety.thy ===== *)
theory ReleaseSafety
  imports Release
begin

text \<open>
  Versions with numeric components are ordered by the first component that differs; a checksum
  file in the format of \<open>sha256sum\<close> is read back exactly, and only well formed entries are accepted.
\<close>

section \<open>Versions are compared component by component\<close>

definition component :: "int list \<Rightarrow> nat \<Rightarrow> int" where
  "component ns i = (if i < length ns then ns ! i else 0)"

lemma component_simps [simp]:
  "component [] i = 0" "component (n # ns) 0 = n" "component (n # ns) (Suc i) = component ns i"
  by (simp_all add: component_def)

definition first_less :: "int list \<Rightarrow> int list \<Rightarrow> bool" where
  "first_less as bs \<longleftrightarrow> (\<exists>i. (\<forall>j < i. component as j = component bs j) \<and> component as i < component bs i)"

lemma first_less_step:
  "first_less as bs \<longleftrightarrow>
     component as 0 < component bs 0 \<or>
     component as 0 = component bs 0 \<and>
       (\<exists>i. (\<forall>j < i. component as (Suc j) = component bs (Suc j)) \<and> component as (Suc i) < component bs (Suc i))"
  (is "?l \<longleftrightarrow> ?r")
proof
  assume ?l
  then obtain i where i: "\<forall>j < i. component as j = component bs j" "component as i < component bs i"
    by (auto simp: first_less_def)
  then show ?r by (cases i) auto
next
  assume ?r
  then show ?l
  proof (elim disjE conjE exE)
    assume "component as 0 < component bs 0"
    then show ?l unfolding first_less_def by (intro exI [of _ 0]) simp
  next
    fix i assume "component as 0 = component bs 0"
      and "\<forall>j < i. component as (Suc j) = component bs (Suc j)"
      and "component as (Suc i) < component bs (Suc i)"
    then show ?l unfolding first_less_def by (intro exI [of _ "Suc i"]) (auto simp: less_Suc_eq_0_disj)
  qed
qed

lemma first_less_Cons [simp]:
  "first_less (a # as) (b # bs) \<longleftrightarrow> a < b \<or> a = b \<and> first_less as bs"
  "first_less (a # as) [] \<longleftrightarrow> a < 0 \<or> a = 0 \<and> first_less as []"
  "first_less [] (b # bs) \<longleftrightarrow> 0 < b \<or> 0 = b \<and> first_less [] bs"
  by (subst first_less_step; simp add: first_less_def)+

lemma first_less_Nil [simp]: "\<not> first_less [] []"
  by (simp add: first_less_def)

lemma compare_parts_less: "compare_parts as bs = -1 \<longleftrightarrow> first_less as bs"
  by (induction as bs rule: compare_parts.induct) (auto simp: compare_int_def)

lemma compare_parts_swap: "compare_parts bs as = - compare_parts as bs"
  by (induction as bs rule: compare_parts.induct) (auto simp: compare_int_def)

lemma compare_parts_same [simp]: "compare_parts as as = 0"
  by (induction as) auto

text \<open>Two versions with numeric components compare as less exactly when the first component in which
  they differ is less, a missing component counting as zero, as greater exactly in the mirrored case,
  and as equal otherwise.\<close>

theorem CompareVersions_order:
  assumes "splitNumeric (normalizeVersion a) = Some as" and "splitNumeric (normalizeVersion b) = Some bs"
  shows "(CompareVersions a b = -1 \<longleftrightarrow> first_less as bs) \<and>
    (CompareVersions a b = 1 \<longleftrightarrow> first_less bs as) \<and> CompareVersions a b \<in> {-1, 0, 1}"
proof -
  have "compare_parts as bs \<in> {-1, 0, 1}"
    by (induction as bs rule: compare_parts.induct) (auto simp: compare_int_def)
  moreover have "CompareVersions a b = compare_parts as bs"
    using assms by (auto simp: CompareVersions_def Let_def)
  moreover have "compare_parts as bs = 1 \<longleftrightarrow> first_less bs as"
    using compare_parts_less [of bs as] compare_parts_swap [of bs as] by auto
  ultimately show ?thesis using compare_parts_less by simp
qed

theorem CompareVersions_order_witness: "CompareVersions ''v1.2'' ''1.10.1'' = -1 \<longleftrightarrow> first_less [1, 2] [1, 10, 1]"
proof -
  have "splitNumeric (normalizeVersion ''v1.2'') = Some [1, 2]"
    and "splitNumeric (normalizeVersion ''1.10.1'') = Some [1, 10, 1]" by code_simp+
  then show ?thesis using CompareVersions_order by blast
qed

section \<open>Checksum files\<close>

lemma split_terminated:
  "list_all (\<lambda>l. c \<notin> set l) ls \<Longrightarrow> split_on c (concat (map (\<lambda>l. l @ [c]) ls)) = ls @ ['''']"
  by (induction ls) (auto simp: split_on_append_sep)

lemma plain_no_prefix:
  assumes "plain_byte c" and "e \<in> set space_encodings"
  shows "\<not> has_prefix (c # s) e"
proof
  assume "has_prefix (c # s) e"
  moreover have "e \<noteq> []" using assms(2) by (rule space_encodings_nonempty)
  ultimately have "c = hd e" "e \<noteq> []" using has_prefix_hd by fastforce+
  then have "c \<in> set space_bytes" using assms(2) unfolding space_bytes_def by (auto intro: hd_in_set)
  then show False using assms(1) by (simp add: plain_byte_def)
qed

lemma span_word_plain:
  assumes "list_all plain_byte w" and "r = [] \<or> (\<exists>e \<in> set space_encodings. has_prefix r e)"
  shows "span_word (w @ r) = (w, r)"
  using assms(1)
proof (induction w)
  case Nil
  then show ?case using assms(2) by (cases r) (auto simp: find_None_iff)
next
  case (Cons c w)
  then have "find (\<lambda>e. has_prefix (c # w @ r) e) space_encodings = None"
    using plain_no_prefix by (auto simp: find_None_iff)
  then show ?case using Cons by simp
qed

lemma fields_one:
  assumes "list_all plain_byte w" and "w \<noteq> []"
  shows "GoStrings.fields w = [w]"
proof -
  have "trim_left_space w = w" using assms by (intro trim_left_space_plain) (cases w; simp)
  moreover have "GoStrings.fields '''' = []" by (simp add: GoStrings.fields.simps trim_left_space_def strip_front.simps space_encodings_def has_prefix_def)
  ultimately show ?thesis
    using span_word_plain [OF assms(1), of "[]"] assms(2) by (simp add: GoStrings.fields.simps [of w])
qed

lemma trim_left_spaces:
  assumes "list_all plain_byte w" and "w \<noteq> []"
  shows "trim_left_space (CHR '' '' # CHR '' '' # w) = w"
proof -
  have space: "find (\<lambda>e. e \<noteq> [] \<and> has_prefix (CHR '' '' # s) e) space_encodings = Some '' ''" for s
    by (simp add: space_encodings_def has_prefix_def)
  have "strip_front space_encodings w = w"
    using trim_left_space_plain [of w] assms unfolding trim_left_space_def by (cases w) auto
  then show ?thesis
    unfolding trim_left_space_def by (simp add: strip_front.simps [of _ "CHR '' '' # _"] space)
qed

lemma fields_pair:
  assumes "list_all plain_byte d" "d \<noteq> []" and "list_all plain_byte n" "n \<noteq> []"
  shows "GoStrings.fields (d @ ''  '' @ n) = [d, n]"
proof -
  have "trim_left_space (d @ ''  '' @ n) = d @ ''  '' @ n"
    using assms(1,2) by (intro trim_left_space_plain) (cases d; simp)
  moreover have "span_word (d @ ''  '' @ n) = (d, ''  '' @ n)"
    using assms(1) by (intro span_word_plain) (auto simp: space_encodings_def has_prefix_def)
  moreover have "GoStrings.fields (''  '' @ n) = [n]"
    using trim_left_spaces [OF assms(3,4)] fields_one [OF assms(3,4)]
      trim_left_space_plain [of n] assms(3,4)
    by (subst GoStrings.fields.simps) (subst (asm) GoStrings.fields.simps, cases n; simp)
  ultimately show ?thesis using assms(2) by (subst GoStrings.fields.simps) simp
qed

lemma hex_byte_plain: "hex_byte c \<Longrightarrow> plain_byte c"
proof -
  have "list_all (\<lambda>c. \<not> hex_byte c) space_bytes" by code_simp
  then show "hex_byte c \<Longrightarrow> plain_byte c" by (auto simp: list_all_iff plain_byte_def)
qed

lemma lower_hex_byte [simp]: "hex_byte c \<Longrightarrow> lower_byte c = c"
  by (auto simp: lower_byte_def hex_byte_def is_digit_def Let_def)

definition checksum_entry :: "string \<times> string \<Rightarrow> string" where
  "checksum_entry e = (case e of (name, digest) \<Rightarrow> digest @ ''  '' @ name)"

definition checksum_text :: "checksums \<Rightarrow> string" where
  "checksum_text es = concat (map (\<lambda>l. l @ [CHR 0x0A]) (map checksum_entry es))"

definition entry_ok :: "string \<times> string \<Rightarrow> bool" where
  "entry_ok e \<longleftrightarrow> (case e of (name, digest) \<Rightarrow>
     length digest = 64 \<and> isHex digest \<and> name \<noteq> '''' \<and> list_all plain_byte name \<and>
     hd name \<noteq> CHR ''*'' \<and> length name \<le> 65469)"

lemma entry_line:
  assumes "entry_ok (n, d)"
  shows "trim_space (checksum_entry (n, d)) = checksum_entry (n, d)"
    and "GoStrings.fields (checksum_entry (n, d)) = [d, n]"
    and "CHR 0x0A \<notin> set (checksum_entry (n, d))"
    and "trim_suffix (checksum_entry (n, d)) [CHR 0x0D] = checksum_entry (n, d)"
    and "length (checksum_entry (n, d)) \<le> scan_limit"
proof -
  have d: "list_all plain_byte d" "d \<noteq> []" and n: "list_all plain_byte n" "n \<noteq> []"
    using assms by (auto simp: entry_ok_def isHex_def list_all_iff hex_byte_plain)
  show "GoStrings.fields (checksum_entry (n, d)) = [d, n]"
    unfolding checksum_entry_def prod.case using d n by (rule fields_pair)
  have ends: "plain_byte (hd d)" "plain_byte (last n)" using d n by (auto simp: list_all_iff)
  show "trim_space (checksum_entry (n, d)) = checksum_entry (n, d)"
    by (rule trim_space_plain) (use ends d n in \<open>auto simp: checksum_entry_def hd_append\<close>)
  have "\<not> plain_byte (CHR 0x0A)" "\<not> plain_byte (CHR 0x0D)" by code_simp+
  then have "last n \<noteq> CHR 0x0D" and "CHR 0x0A \<notin> set d \<union> set n"
    using d n ends(2) by (metis, auto simp: list_all_iff)
  then show "CHR 0x0A \<notin> set (checksum_entry (n, d))"
    and "trim_suffix (checksum_entry (n, d)) [CHR 0x0D] = checksum_entry (n, d)"
    using n by (auto simp: checksum_entry_def intro!: trim_suffix_snoc_neq)
  show "length (checksum_entry (n, d)) \<le> scan_limit"
    using assms by (simp add: checksum_entry_def entry_ok_def scan_limit_def)
qed

lemma checksum_line_entry:
  assumes "entry_ok (n, d)" and "n \<notin> fst ` set out"
  shows "checksum_line out (checksum_entry (n, d)) = Inr (out @ [(n, d)])"
proof -
  have d: "list_all hex_byte d" "length d = 64" and n: "n \<noteq> []" "hd n \<noteq> CHR ''*''"
    using assms(1) by (auto simp: entry_ok_def isHex_def)
  have "map lower_byte d = d" using d(1) by (induction d) auto
  moreover have "trim_prefix n ''*'' = n"
    using n by (cases n) (auto simp: trim_prefix_def has_prefix_def)
  moreover have "\<not> has_prefix (checksum_entry (n, d)) ''#''" "checksum_entry (n, d) \<noteq> ''''"
    using d by (cases d; auto simp: checksum_entry_def has_prefix_def hex_byte_def is_digit_def)+
  moreover have "map_of out n = None" using assms(2) by (simp add: map_of_eq_None_iff)
  ultimately show ?thesis
    using entry_line(1,2) [OF assms(1)] d n by (simp add: checksum_line_def isHex_def)
qed

lemma checksum_lines_entries:
  "list_all entry_ok es \<Longrightarrow> distinct (map fst (out @ es)) \<Longrightarrow>
     checksum_lines out (map checksum_entry es) = Inr (out @ es)"
proof (induction es arbitrary: out)
  case (Cons e es)
  obtain n d where e: "e = (n, d)" by fastforce
  have "checksum_line out (checksum_entry e) = Inr (out @ [e])"
    unfolding e using Cons.prems by (intro checksum_line_entry) (auto simp: e)
  then show ?case using Cons by simp
qed simp

lemma scan_lines_terminated:
  assumes "\<And>l. l \<in> set ls \<Longrightarrow> CHR 0x0A \<notin> set l \<and> length l \<le> scan_limit \<and> trim_suffix l [CHR 0x0D] = l"
  shows "scan_lines (concat (map (\<lambda>l. l @ [CHR 0x0A]) ls)) = (ls, False)"
proof -
  have "raw_lines (concat (map (\<lambda>l. l @ [CHR 0x0A]) ls)) = ls"
    using assms by (simp add: raw_lines_def split_terminated list_all_iff)
  moreover have "takeWhile (\<lambda>l. length l \<le> scan_limit) ls = ls" using assms by (simp add: takeWhile_eq_all_conv)
  moreover have "map (\<lambda>l. trim_suffix l [CHR 0x0D]) ls = ls" using assms by (simp add: map_idI)
  ultimately show ?thesis by (simp only: scan_lines_def Let_def less_irrefl)
qed

lemma ParseChecksums_text:
  assumes "list_all entry_ok es" and "distinct (map fst es)"
  shows "ParseChecksums (checksum_text es) = Inr es"
proof -
  have "scan_lines (checksum_text es) = (map checksum_entry es, False)"
    unfolding checksum_text_def
    by (rule scan_lines_terminated) (use assms(1) entry_line in \<open>fastforce simp: list_all_iff\<close>)
  then show ?thesis
    using checksum_lines_entries [of es "[]"] assms by (simp add: ParseChecksums_def)
qed

text \<open>Whatever file is accepted, its digests are well formed and its names distinct.\<close>

definition sums_ok :: "checksums \<Rightarrow> bool" where
  "sums_ok out \<longleftrightarrow> distinct (map fst out) \<and> list_all (\<lambda>(n, d). n \<noteq> '''' \<and> length d = 64 \<and> isHex d) out"

lemma checksum_line_ok: "checksum_line out l = Inr out' \<Longrightarrow> sums_ok out \<Longrightarrow> sums_ok out'"
  by (auto simp: checksum_line_def sums_ok_def Let_def map_of_eq_None_iff split: if_splits list.splits)

lemma checksum_lines_ok: "checksum_lines out ls = Inr out' \<Longrightarrow> sums_ok out \<Longrightarrow> sums_ok out'"
  by (induction ls arbitrary: out) (auto simp: result_bind_Inr_iff dest: checksum_line_ok)

lemma ParseChecksums_ok: "ParseChecksums data = Inr out \<Longrightarrow> sums_ok out"
  by (auto simp: ParseChecksums_def result_bind_Inr_iff sums_ok_def split: prod.splits if_splits
      dest: checksum_lines_ok)

text \<open>A file in the format of \<open>sha256sum\<close> parses to exactly its entries, in order, and whatever file is
  accepted has distinct, non-empty names, each with a digest of 64 lower-case hexadecimal digits.\<close>

theorem checksums_read_back:
  assumes "list_all entry_ok es" and "distinct (map fst es)"
  shows "ParseChecksums (checksum_text es) = Inr es \<and> (\<forall>data out. ParseChecksums data = Inr out \<longrightarrow> sums_ok out)"
  using ParseChecksums_text [OF assms] ParseChecksums_ok by blast

theorem checksums_read_back_witness:
  "ParseChecksums (checksum_text [(''tx9_l_a'', replicate 64 CHR ''a'')]) = Inr [(''tx9_l_a'', replicate 64 CHR ''a'')]"
proof -
  have "isHex (replicate 64 CHR ''a'')" "list_all plain_byte ''tx9_l_a''" by code_simp+
  then have "list_all entry_ok [(''tx9_l_a'', replicate 64 CHR ''a'')]" by (simp add: entry_ok_def)
  moreover have "distinct (map fst [(''tx9_l_a'', replicate 64 CHR ''a'')])" by simp
  ultimately show ?thesis using checksums_read_back by blast
qed

end
