(* ===== verification/SelfUpdateSafety.thy ===== *)
theory SelfUpdateSafety
  imports SelfUpdate ReleaseSafety
begin

text \<open>
  The running binary is never touched before the new one is verified, and a replacement is always
  the asset of the latest release that the checksums of that release name.
\<close>

definition only_stage_changed :: "string \<Rightarrow> binaries \<Rightarrow> binaries \<Rightarrow> bool" where
  "only_stage_changed stage fs s \<longleftrightarrow> (\<forall>p. p \<noteq> stage \<longrightarrow> s p = fs p)"

definition replaced :: "string \<Rightarrow> string \<Rightarrow> string \<Rightarrow> binaries \<Rightarrow> binaries \<Rightarrow> bool" where
  "replaced stage path data fs s \<longleftrightarrow>
     s path = Some \<lparr>Contents = data, Executable = True\<rparr> \<and>
     (\<forall>p. p \<noteq> stage \<and> p \<noteq> path \<longrightarrow> s p = fs p)"

lemma only_stage_simps [simp]:
  "only_stage_changed stage fs fs" "only_stage_changed stage fs (fs(stage \<mapsto> b))"
  "only_stage_changed stage fs (remove_stage M stage fs)"
  "only_stage_changed stage fs (remove_stage M stage (fs(stage \<mapsto> b)))"
  by (auto simp: only_stage_changed_def remove_stage_def)

text \<open>A download that gives a digest gives that of the bytes in the staged file, the whole body.\<close>

lemma downloadToFile_ok:
  assumes "downloadToFile M url = (Inr digest, data)"
  shows "digest = sha256_hex M data \<and> length data \<le> maxAssetBytes \<and>
    (\<exists>resp. http M url = Some resp \<and> StatusCode resp = 200 \<and> Body resp = data \<and> \<not> Broken resp)"
  using assms by (auto simp: downloadToFile_def read_limited_def split: option.splits if_splits)

text \<open>The states of an installation: all but the last leave every path but the staged one alone.\<close>

definition staged_only :: "machine \<Rightarrow> string \<Rightarrow> binaries \<Rightarrow> binaries list \<Rightarrow> bool" where
  "staged_only M path fs states \<longleftrightarrow> list_all (only_stage_changed (stage_path M path) fs) states"

lemma install_states:
  "case install M url digest path fs of
     (Inl e, states) \<Rightarrow> states \<noteq> [] \<and> staged_only M path fs states \<and>
       (stage_fails M RemoveStage \<or> last states (stage_path M path) = fs (stage_path M path))
   | (Inr _, states) \<Rightarrow> states \<noteq> [] \<and> staged_only M path fs (butlast states) \<and>
       (\<exists>data resp. replaced (stage_path M path) path data fs (last states) \<and> sha256_hex M data = digest \<and>
          http M url = Some resp \<and> StatusCode resp = 200 \<and> Body resp = data \<and> \<not> Broken resp)"
proof -
  obtain r data where dl: "downloadToFile M url = (r, data)" by fastforce
  have ok: "r = Inr d \<Longrightarrow> d = sha256_hex M data \<and> (\<exists>resp. http M url = Some resp \<and>
      StatusCode resp = 200 \<and> Body resp = data \<and> \<not> Broken resp)" for d
    using downloadToFile_ok [of M url d data] dl by blast
  show ?thesis
    unfolding install_def Let_def dl
    by (cases r) (auto simp: staged_only_def replaced_def remove_stage_def only_stage_changed_def dest: ok)
qed

lemma install_failed:
  assumes "install M url digest path fs = (Inl e, states)"
  shows "states \<noteq> []" and "staged_only M path fs states"
    and "stage_fails M RemoveStage \<or> last states (stage_path M path) = fs (stage_path M path)"
  using install_states [where M = M and url = url and digest = digest and path = path and fs = fs] assms by simp_all

lemma install_done:
  assumes "install M url digest path fs = (Inr u, states)"
  shows "states \<noteq> [] \<and> staged_only M path fs (butlast states) \<and>
    (\<exists>data resp. replaced (stage_path M path) path data fs (last states) \<and> sha256_hex M data = digest \<and>
       http M url = Some resp \<and> StatusCode resp = 200 \<and> Body resp = data \<and> \<not> Broken resp)"
  using install_states [where M = M and url = url and digest = digest and path = path and fs = fs] assms by simp

lemma Update_cases:
  assumes "Update M opts fs = (r, states)"
  obtains (stopped) "states = [fs]" and "\<forall>res. r = Inr res \<longrightarrow> \<not> Applied res"
  | (installing) latest path digest r' where
      "fetchLatestVersion (http M) (ResolveOrigin (environment M) (Origin opts)) = Inr latest"
      "Force opts \<or> splitNumeric (normalizeVersion (CurrentVersion opts)) \<noteq> None \<and>
         CompareVersions (CurrentVersion opts) latest < 0"
      "real_path M opts = Inr path"
      "wanted_digest M (ResolveOrigin (environment M) (Origin opts) @ ''/releases/'' @ latest)
         (asset_of M opts) = Inr digest"
      "install M (ResolveOrigin (environment M) (Origin opts) @ ''/releases/'' @ latest @ ''/'' @ asset_of M opts)
         digest path fs = (r', states)"
      "r = map_sum id (\<lambda>_. \<lparr>Applied = True, FromVersion = CurrentVersion opts, ToVersion = latest,
         InstalledPath = path\<rparr>) r'"
  using assms
  by (auto simp: Update_def Let_def result_bind_Inr_iff split: if_splits sum.splits prod.splits)

lemma wanted_digest_Inr:
  "wanted_digest M base asset = Inr d \<longleftrightarrow>
     (\<exists>text sums. fetchBytes (http M) (base @ ''/checksums.txt'') = Inr text \<and>
        ParseChecksums text = Inr sums \<and> map_of sums asset = Some d)"
proof -
  have "(case map_of sums asset of None \<Rightarrow> Inl (NoChecksumEntry asset) | Some digest \<Rightarrow> Inr digest) = Inr d \<longleftrightarrow>
      map_of sums asset = Some d" for sums
    by (simp split: option.split)
  then show ?thesis by (auto simp: wanted_digest_def result_bind_Inr_iff)
qed


section \<open>A site with one release\<close>

definition demo_digest :: string where "demo_digest = replicate 64 CHR ''a''"

definition ok_response :: "string \<Rightarrow> response" where
  "ok_response body = \<lparr>StatusCode = 200, ContentLength = int (length body), Body = body, Broken = False\<rparr>"

definition demo_site :: http_client where
  "demo_site url =
     (if url = ''h/releases/latest'' then Some (ok_response ''1.2.0'')
      else if url = ''h/releases/1.2.0/checksums.txt'' then
        Some (ok_response (checksum_text [(''tx9_l_a'', demo_digest)]))
      else if url = ''h/releases/1.2.0/tx9_l_a'' then Some (ok_response ''new'')
      else None)"

definition demo_machine :: machine where
  "demo_machine =
     \<lparr>http = demo_site, environment = \<lambda>k. if k = ''TX9_ORIGIN'' then ''h/'' else '''', runtime_GOOS = ''l'',
      runtime_GOARCH = ''a'', running_executable = Some ''/b/tx9'', sha256_hex = \<lambda>d. demo_digest,
      stage_fails = \<lambda>c. False, partial_stage = '''', stage_number = 7\<rparr>"

definition demo_options :: Options where
  "demo_options = \<lparr>CurrentVersion = ''1.1.9'', Force = False, Origin = '''', GOOS = '''', GOARCH = '''',
     execPathOverride = ''''\<rparr>"

lemma demo_latest: "fetchLatestVersion demo_site ''h'' = Inr ''1.2.0''"
proof -
  have "trim_space ''1.2.0'' = ''1.2.0''" by code_simp
  moreover have "release_version ''1.2.0''" by code_simp
  ultimately show ?thesis
    by (simp add: fetchLatestVersion_def demo_site_def ok_response_def read_limited_def)
qed

lemma demo_wanted: "wanted_digest demo_machine ''h/releases/1.2.0'' ''tx9_l_a'' = Inr demo_digest"
proof -
  let ?es = "[(''tx9_l_a'', demo_digest)]"
  have "isHex demo_digest" "list_all plain_byte ''tx9_l_a''" by code_simp+
  then have "list_all entry_ok ?es" by (simp add: entry_ok_def) (simp add: demo_digest_def)
  then have "ParseChecksums (checksum_text ?es) = Inr ?es" by (intro ParseChecksums_text) auto
  moreover have "fetchBytes demo_site ''h/releases/1.2.0/checksums.txt'' = Inr (checksum_text ?es)"
    by (simp add: fetchBytes_def demo_site_def ok_response_def read_limited_def maxChecksumsBytes_def
        checksum_text_def checksum_entry_def demo_digest_def)
  ultimately show ?thesis by (simp add: wanted_digest_Inr demo_machine_def)
qed

lemma demo_update:
  "\<exists>res states. Update demo_machine demo_options Map.empty = (Inr res, states) \<and> Applied res \<and>
     InstalledPath res = ''/b/tx9''"
proof -
  have "ResolveOrigin (environment demo_machine) '''' = ''h''" by code_simp
  moreover have "splitNumeric (normalizeVersion ''1.1.9'') \<noteq> None" by code_simp
  moreover have "CompareVersions ''1.1.9'' ''1.2.0'' = -1" by code_simp
  moreover have "asset_of demo_machine demo_options = ''tx9_l_a''" by code_simp
  moreover have "real_path demo_machine demo_options = Inr ''/b/tx9''" by code_simp
  moreover have "http demo_machine = demo_site" by (simp add: demo_machine_def)
  moreover have "downloadToFile demo_machine ''h/releases/1.2.0/tx9_l_a'' = (Inr demo_digest, ''new'')"
    by (simp add: downloadToFile_def demo_machine_def demo_site_def ok_response_def read_limited_def
        maxAssetBytes_def)
  then have "\<exists>states. install demo_machine ''h/releases/1.2.0/tx9_l_a'' demo_digest ''/b/tx9'' Map.empty =
      (Inr (), states)"
    by (simp add: install_def Let_def) (simp add: demo_machine_def)
  moreover have "CurrentVersion demo_options = ''1.1.9''" "Origin demo_options = ''''"
    "\<not> Force demo_options" by (simp_all add: demo_options_def)
  ultimately show ?thesis
    using demo_latest demo_wanted by (auto simp: Update_def Let_def)
qed

section \<open>What the running executable becomes\<close>

text \<open>A verified replacement: the whole body of the platform's asset of the release that the origin names
  as its latest, with the SHA-256 that the checksum file of that release lists for the asset.\<close>

definition verified_release :: "machine \<Rightarrow> Options \<Rightarrow> Result \<Rightarrow> string \<Rightarrow> bool" where
  "verified_release M opts res data \<longleftrightarrow>
     (let origin = ResolveOrigin (environment M) (Origin opts);
          base = origin @ ''/releases/'' @ ToVersion res in
      fetchLatestVersion (http M) origin = Inr (ToVersion res) \<and>
      (\<exists>text sums. fetchBytes (http M) (base @ ''/checksums.txt'') = Inr text \<and>
         ParseChecksums text = Inr sums \<and> map_of sums (asset_of M opts) = Some (sha256_hex M data)) \<and>
      (\<exists>resp. http M (base @ ''/'' @ asset_of M opts) = Some resp \<and> StatusCode resp = 200 \<and>
         Body resp = data \<and> \<not> Broken resp))"

lemma applied_update:
  assumes "Update M opts fs = (Inr res, states)" and "Applied res"
  shows "\<exists>data. last states (InstalledPath res) = Some \<lparr>Contents = data, Executable = True\<rparr> \<and>
    verified_release M opts res data \<and>
    (Force opts \<or> splitNumeric (normalizeVersion (CurrentVersion opts)) \<noteq> None \<and>
       CompareVersions (CurrentVersion opts) (ToVersion res) < 0)"
  using assms(1)
proof (cases rule: Update_cases)
  case stopped
  then show ?thesis using assms(2) by simp
next
  case (installing latest path digest r')
  have res: "ToVersion res = latest" "InstalledPath res = path" and r': "r' = Inr ()"
    using installing(6) by (cases r'; auto)+
  obtain data resp where
    "replaced (stage_path M path) path data fs (last states)" and "sha256_hex M data = digest" and
    "http M (ResolveOrigin (environment M) (Origin opts) @ ''/releases/'' @ latest @ ''/'' @ asset_of M opts) =
       Some resp" "StatusCode resp = 200" "Body resp = data" "\<not> Broken resp"
    using install_done [OF installing(5) [unfolded r']] by metis
  then show ?thesis
    using installing(1,2,4) unfolding verified_release_def Let_def res wanted_digest_Inr
    by (auto simp: replaced_def)
qed

text \<open>The states that leave the running binary alone: no file but the staged one differs from before.\<close>

definition untouched :: "machine \<Rightarrow> string \<Rightarrow> binaries \<Rightarrow> binaries \<Rightarrow> bool" where
  "untouched M path fs s \<longleftrightarrow> s path = fs path \<and> only_stage_changed (stage_path M path) fs s"

text \<open>The files in every state of an update: before the last one, and in all of them when nothing was
  applied, the old binary; in the last state of an applied update the complete verified asset at the
  path that is reported, and no other file changed.\<close>

definition old_or_verified ::
  "machine \<Rightarrow> Options \<Rightarrow> string \<Rightarrow> binaries \<Rightarrow> update_error + Result \<Rightarrow> binaries list \<Rightarrow> bool" where
  "old_or_verified M opts path fs r states \<longleftrightarrow>
     states \<noteq> [] \<and> list_all (untouched M path fs) (butlast states) \<and>
     (case r of
        Inl e \<Rightarrow> untouched M path fs (last states)
      | Inr res \<Rightarrow>
          if Applied res then
            InstalledPath res = path \<and>
            (\<exists>data. replaced (stage_path M path) path data fs (last states) \<and>
               verified_release M opts res data)
          else last states = fs)"

lemma untouched_staged:
  "path \<noteq> stage_path M path \<Longrightarrow> untouched M path fs s \<longleftrightarrow> only_stage_changed (stage_path M path) fs s"
  by (auto simp: untouched_def only_stage_changed_def)

text \<open>C10: in every state of the file system that a self-update passes through, whichever of its calls fail,
  the binary at the path of the running executable is the old one and no file but the staged one has
  changed, except in the last state of an update that reports success: there the path, which is the
  one reported, holds an executable file with the whole body of the platform's asset of the latest
  release, of the checksum that the release lists for it, and no file but these two has changed. An
  update that has nothing to apply leaves every file as it was.\<close>

theorem Update_safe:
  assumes "real_path M opts = Inr path" and "path \<noteq> stage_path M path"
  shows "case Update M opts fs of (r, states) \<Rightarrow> old_or_verified M opts path fs r states"
proof -
  note untouched_staged [OF assms(2), simp]
  obtain r states where run: "Update M opts fs = (r, states)" by fastforce
  from run show ?thesis
  proof (cases rule: Update_cases)
    case stopped
    then show ?thesis unfolding run by (auto simp: old_or_verified_def split: sum.splits)
  next
    case (installing latest p digest r')
    have p: "p = path" using assms(1) installing(3) by simp
    show ?thesis
    proof (cases r')
      case (Inl e)
      have "staged_only M path fs states" "states \<noteq> []"
        using install_failed installing(5) p Inl by metis+
      then show ?thesis
        unfolding run using installing(6) Inl
        by (auto simp: old_or_verified_def staged_only_def list_all_iff dest: in_set_butlastD)
    next
      case (Inr u)
      obtain data where data: "staged_only M path fs (butlast states)" "states \<noteq> []"
        "replaced (stage_path M path) path data fs (last states)"
        using install_done installing(5) p Inr by metis
      obtain res where res: "r = Inr res" "Applied res" "InstalledPath res = path"
        using installing(6) Inr p by auto
      have "verified_release M opts res data"
        using applied_update [of M opts fs res states] run res data(3) by (auto simp: replaced_def)
      then show ?thesis
        unfolding run using data res by (auto simp: old_or_verified_def staged_only_def list_all_iff)
    qed
  qed
qed

theorem Update_safe_witness:
  "\<exists>res states. Update demo_machine demo_options Map.empty = (Inr res, states) \<and>
     old_or_verified demo_machine demo_options ''/b/tx9'' Map.empty (Inr res) states \<and>
     (\<exists>data. verified_release demo_machine demo_options res data)"
proof -
  have "real_path demo_machine demo_options = Inr ''/b/tx9''" by code_simp
  moreover have "''/b/tx9'' \<noteq> stage_path demo_machine ''/b/tx9''" by code_simp
  ultimately have "case Update demo_machine demo_options Map.empty of (r, states) \<Rightarrow>
      old_or_verified demo_machine demo_options ''/b/tx9'' Map.empty r states"
    by (rule Update_safe)
  moreover obtain res states where run: "Update demo_machine demo_options Map.empty = (Inr res, states)"
    and "Applied res" using demo_update by blast
  ultimately have "old_or_verified demo_machine demo_options ''/b/tx9'' Map.empty (Inr res) states" by simp
  moreover from this \<open>Applied res\<close> have "\<exists>data. verified_release demo_machine demo_options res data"
    by (auto simp: old_or_verified_def)
  ultimately show ?thesis using run by blast
qed

text \<open>C11: when a self-update is applied, the installed binary is the whole body of the platform's asset of
  the latest release, its SHA-256 is the one the checksum file of that release lists for it, and,
  unless forced, the running version was numeric and strictly older.\<close>

theorem Update_applied:
  assumes "Update M opts fs = (Inr res, states)" and "Applied res"
  shows "\<exists>data. last states (InstalledPath res) = Some \<lparr>Contents = data, Executable = True\<rparr> \<and>
    verified_release M opts res data \<and>
    (Force opts \<or> splitNumeric (normalizeVersion (CurrentVersion opts)) \<noteq> None \<and>
       CompareVersions (CurrentVersion opts) (ToVersion res) < 0)"
  using assms by (rule applied_update)

theorem Update_applied_witness:
  "\<exists>res data. InstalledPath res = ''/b/tx9'' \<and> verified_release demo_machine demo_options res data"
proof -
  obtain res states where "Update demo_machine demo_options Map.empty = (Inr res, states)"
    and "Applied res" and "InstalledPath res = ''/b/tx9''"
    using demo_update by blast
  then show ?thesis using Update_applied by blast
qed

end
