(* ===== verification/Format.thy ===== *)
theory Format
  imports LocalFiles ArchiveValidator
begin

text \<open>
  The container format of backups (\<open>internal/archive/format.go\<close>).  The packages
  \<open>archive/tar\<close> and \<open>encoding/json\<close> are a record of functions: writing regular members,
  reading a file as members up to a clean or a broken end, and the two directions of the metadata.
\<close>

record Metadata =
  BoxName :: string
  CreatedAt :: string
  CLIVersion :: string
  ImageVersion :: string
  Encrypted :: bool
  format_version :: int

text \<open>
  A member as the reader delivers it: \<open>m_Size\<close> is declared in its header, \<open>m_Data\<close> what can be
  read, and \<open>m_Broken\<close> says that reading fails after that.
\<close>

record member =
  m_Name :: string
  m_Typeflag :: char
  m_Size :: int
  m_Data :: string
  m_Broken :: bool

record container_lib =
  tar_write :: "(string \<times> string) list \<Rightarrow> string"
  tar_read :: "string \<Rightarrow> member list \<times> stream_end"
  marshal_meta :: "Metadata \<Rightarrow> string option"
  unmarshal_meta :: "string \<Rightarrow> Metadata option"

definition FormatVersion :: int where "FormatVersion = 1"
definition metadataMember :: string where "metadataMember = ''metadata.json''"
definition dataMemberPlain :: string where "dataMemberPlain = ''data.tar.gz''"
definition dataMemberEncrypt :: string where "dataMemberEncrypt = ''data.tar.gz.gpg''"
definition maxMetadataBytes :: int where "maxMetadataBytes = 65536"

definition dataMemberName :: "bool \<Rightarrow> string" where
  "dataMemberName enc = (if enc then dataMemberEncrypt else dataMemberPlain)"

text \<open>
  \<open>WriteTx9\<close> gives what reaches the writer: all of the container, or, when it fails, the part
  written by then; \<open>writer_part\<close> is that part when the writer itself fails.
\<close>

definition WriteTx9 ::
  "container_lib \<Rightarrow> (file_op \<Rightarrow> bool) \<Rightarrow> string option \<Rightarrow> Metadata \<Rightarrow> string \<Rightarrow> files
     \<Rightarrow> (local_error + unit) \<times> string" where
  "WriteTx9 T fails writer_part meta0 dataFile fs =
     (let meta = meta0\<lparr>format_version := FormatVersion\<rparr> in
      case marshal_meta T meta of
        None \<Rightarrow> (Inl MetadataUnprintable, '''')
      | Some metaBytes \<Rightarrow>
          (case open_read fails dataFile fs of
             Inl e \<Rightarrow> (Inl e, '''')
           | Inr payload \<Rightarrow>
               (case writer_part of
                  Some part \<Rightarrow> (Inl WriterFailed, part)
                | None \<Rightarrow>
                    (Inr (), tar_write T
                       [(metadataMember, metaBytes), (dataMemberName (Encrypted meta), payload)]))))"

definition readMetadataMember ::
  "container_lib \<Rightarrow> member list \<times> stream_end \<Rightarrow> local_error + (Metadata \<times> member list \<times> stream_end)" where
  "readMetadataMember T stream =
     (case stream of
        ([], _) \<Rightarrow> Inl NotContainer
      | (hdr # rest, end) \<Rightarrow>
          if m_Name hdr \<noteq> metadataMember then Inl NotContainer
          else if m_Typeflag hdr \<noteq> TypeReg \<or> m_Size hdr > maxMetadataBytes then Inl MetadataNotRegular
          else if m_Broken hdr then Inl MetadataUnreadable
          else (case unmarshal_meta T (m_Data hdr) of
              None \<Rightarrow> Inl MetadataInvalid
            | Some meta \<Rightarrow>
                if format_version meta < 1 then Inl FormatNotPositive
                else if format_version meta > FormatVersion then Inl (FormatTooNew (format_version meta))
                else Inr (meta, rest, end)))"

definition ReadMetadata ::
  "container_lib \<Rightarrow> (file_op \<Rightarrow> bool) \<Rightarrow> string \<Rightarrow> files \<Rightarrow> local_error + Metadata" where
  "ReadMetadata T fails path fs =
     result_bind (open_read fails path fs) (\<lambda>contents.
     result_bind (readMetadataMember T (tar_read T contents)) (\<lambda>(meta, _). Inr meta))"

text \<open>The checks of the data member, and then what copying it gives and what follows it.\<close>

definition data_member ::
  "container_lib \<Rightarrow> string \<Rightarrow> local_error + (Metadata \<times> member \<times> member list \<times> stream_end)" where
  "data_member T contents =
     result_bind (readMetadataMember T (tar_read T contents)) (\<lambda>(meta, rest, end).
       case rest of
         [] \<Rightarrow> Inl NoDataMember
       | hdr # after \<Rightarrow>
           if m_Name hdr \<noteq> dataMemberName (Encrypted meta) then
             Inl (WrongDataMember (dataMemberName (Encrypted meta)) (m_Name hdr))
           else if m_Typeflag hdr \<noteq> TypeReg then Inl DataNotRegular
           else Inr (meta, hdr, after, end))"

definition copy_data :: "Metadata \<Rightarrow> member \<Rightarrow> member list \<Rightarrow> stream_end \<Rightarrow> (local_error + Metadata) \<times> string" where
  "copy_data meta hdr after end =
     (if m_Broken hdr then (Inl DataUnreadable, m_Data hdr)
      else if after \<noteq> [] then (Inl ExtraMember, m_Data hdr)
      else if end \<noteq> CleanEnd then (Inl BadTrailer, m_Data hdr)
      else (Inr meta, m_Data hdr))"

definition ExtractData ::
  "container_lib \<Rightarrow> (file_op \<Rightarrow> bool) \<Rightarrow> string \<Rightarrow> string \<Rightarrow> files \<Rightarrow> (local_error + Metadata) \<times> files" where
  "ExtractData T fails path destFile fs =
     (case result_bind (open_read fails path fs) (data_member T) of
        Inl e \<Rightarrow> (Inl e, fs)
      | Inr (meta, hdr, after, end) \<Rightarrow> write_new fails False destFile (copy_data meta hdr after end) fs)"

section \<open>What a container holds is what was put into it\<close>

text \<open>The documented behaviour of the two packages, as far as a container needs it.\<close>

definition reads_back :: "container_lib \<Rightarrow> bool" where
  "reads_back T \<longleftrightarrow>
     (\<forall>ms. tar_read T (tar_write T ms) =
        (map (\<lambda>(n, d). \<lparr>m_Name = n, m_Typeflag = TypeReg, m_Size = int (length d), m_Data = d,
           m_Broken = False\<rparr>) ms, CleanEnd)) \<and>
     (\<forall>meta s. marshal_meta T meta = Some s \<longrightarrow> unmarshal_meta T s = Some meta)"

definition container_of :: "container_lib \<Rightarrow> Metadata \<Rightarrow> string \<Rightarrow> string \<Rightarrow> bool" where
  "container_of T meta payload contents \<longleftrightarrow>
     (\<exists>metaBytes. marshal_meta T (meta\<lparr>format_version := FormatVersion\<rparr>) = Some metaBytes \<and>
        contents = tar_write T [(metadataMember, metaBytes), (dataMemberName (Encrypted meta), payload)])"

lemma WriteTx9_ok:
  "WriteTx9 T fails part meta dataFile fs = (Inr (), out) \<longleftrightarrow>
     part = None \<and> (\<exists>payload. open_read fails dataFile fs = Inr payload \<and> container_of T meta payload out)"
  by (auto simp: WriteTx9_def container_of_def Let_def split: option.splits sum.splits)

lemma readMetadataMember_container:
  assumes "reads_back T" and "marshal_meta T (meta\<lparr>format_version := FormatVersion\<rparr>) = Some s"
    and "int (length s) \<le> maxMetadataBytes"
  shows "readMetadataMember T (tar_read T (tar_write T ((metadataMember, s) # ms))) =
    Inr (meta\<lparr>format_version := FormatVersion\<rparr>,
      map (\<lambda>(n, d). \<lparr>m_Name = n, m_Typeflag = TypeReg, m_Size = int (length d), m_Data = d,
        m_Broken = False\<rparr>) ms, CleanEnd)"
  using assms by (auto simp: reads_back_def readMetadataMember_def FormatVersion_def)

definition meta_fits :: "container_lib \<Rightarrow> Metadata \<Rightarrow> bool" where
  "meta_fits T meta \<longleftrightarrow>
     (\<forall>s. marshal_meta T (meta\<lparr>format_version := FormatVersion\<rparr>) = Some s \<longrightarrow>
        int (length s) \<le> maxMetadataBytes)"

lemma data_member_container:
  assumes "reads_back T" and "meta_fits T meta" and "container_of T meta payload contents"
  shows "data_member T contents =
    Inr (meta\<lparr>format_version := FormatVersion\<rparr>,
      \<lparr>m_Name = dataMemberName (Encrypted meta), m_Typeflag = TypeReg, m_Size = int (length payload),
       m_Data = payload, m_Broken = False\<rparr>, [], CleanEnd)"
  using assms readMetadataMember_container [OF assms(1)]
  by (auto simp: container_of_def meta_fits_def data_member_def)

text \<open>Reading a written container: its metadata, and its data as a new file.\<close>

lemma container_read:
  assumes "reads_back T" and "meta_fits T meta" and "container_of T meta payload contents"
    and "open_read fails path fs = Inr contents"
  shows "ReadMetadata T fails path fs = Inr (meta\<lparr>format_version := FormatVersion\<rparr>)"
    and "fs dest = None \<Longrightarrow> \<not> fails (CreateExcl dest) \<Longrightarrow> \<not> fails (CloseFile dest) \<Longrightarrow>
      ExtractData T fails path dest fs = (Inr (meta\<lparr>format_version := FormatVersion\<rparr>), fs(dest \<mapsto> payload))"
proof -
  note data = data_member_container [OF assms(1-3)]
  obtain rest where "readMetadataMember T (tar_read T contents) =
      Inr (meta\<lparr>format_version := FormatVersion\<rparr>, rest)"
    using readMetadataMember_container [OF assms(1)] assms(2,3)
    by (auto simp: container_of_def meta_fits_def)
  then show "ReadMetadata T fails path fs = Inr (meta\<lparr>format_version := FormatVersion\<rparr>)"
    using assms(4) by (auto simp: ReadMetadata_def)
  show "ExtractData T fails path dest fs = (Inr (meta\<lparr>format_version := FormatVersion\<rparr>), fs(dest \<mapsto> payload))"
    if "fs dest = None" "\<not> fails (CreateExcl dest)" "\<not> fails (CloseFile dest)"
    using that assms(4) data by (simp add: ExtractData_def copy_data_def write_new_def)
qed

text \<open>Extraction never overwrites a file, and leaves none behind when it fails.\<close>

lemma ExtractData_other:
  "ExtractData T fails path dest fs = (r, fs') \<Longrightarrow> q \<noteq> dest \<Longrightarrow> fs' q = fs q"
  by (auto simp: ExtractData_def split: sum.splits prod.splits dest: write_new_other)

lemma ExtractData_error:
  assumes "ExtractData T fails path dest fs = (Inl e, fs')"
  shows "fs dest \<noteq> None \<Longrightarrow> fs' = fs" and "\<not> fails (RemoveFile dest) \<Longrightarrow> fs' = fs"
proof -
  have "(fs dest \<noteq> None \<longrightarrow> fs' = fs) \<and> (\<not> fails (RemoveFile dest) \<longrightarrow> fs' = fs)"
  proof (cases "result_bind (open_read fails path fs) (data_member T)")
    case (Inr x)
    obtain meta hdr aft fin where x: "x = (meta, hdr, aft, fin)" by (cases x)
    then have "write_new fails False dest (copy_data meta hdr aft fin) fs = (Inl e, fs')"
      using assms Inr by (simp add: ExtractData_def)
    from write_new_error [OF this] show ?thesis by blast
  qed (use assms in \<open>auto simp: ExtractData_def\<close>)
  then show "fs dest \<noteq> None \<Longrightarrow> fs' = fs" and "\<not> fails (RemoveFile dest) \<Longrightarrow> fs' = fs" by blast+
qed

lemma ExtractData_ok:
  "ExtractData T fails path dest fs = (Inr meta, fs') \<Longrightarrow>
     fs dest = None \<and> (\<exists>contents hdr. open_read fails path fs = Inr contents \<and>
       data_member T contents = Inr (meta, hdr, [], CleanEnd) \<and> \<not> m_Broken hdr \<and> fs' = fs(dest \<mapsto> m_Data hdr))"
  by (auto simp: ExtractData_def copy_data_def write_new_ok result_bind_Inr_iff
      split: sum.splits prod.splits if_splits)

end
