(* ===== verification/Encryption.thy ===== *)
theory Encryption
  imports LocalFiles ArchiveValidator
begin

text \<open>
  Encrypting backups with gpg (\<open>internal/archive/gpg.go\<close>).  The gpg program is a function of its
  arguments, its environment, what it reads on file descriptor 3 and its input; it gives its output
  and whether it exited with 0.  Reading a decrypted stream as a compressed tar is the parameter
  \<open>as_tar_gz\<close>, as for the validator.
\<close>

record gpg_tool =
  gpg_in_path :: bool
  pipe_works :: bool
  gpg_starts :: bool
  passphrase_taken :: bool
  inherited_env :: "string list"
  gpg_program :: "string list \<Rightarrow> string list \<Rightarrow> string \<Rightarrow> string \<Rightarrow> string \<times> bool"

definition passphrase_breakers :: "char list" where
  "passphrase_breakers = [CHR 0x00, CHR 0x0D, CHR 0x0A]"

definition gpg_env :: "gpg_tool \<Rightarrow> string list" where
  "gpg_env G = filter (\<lambda>entry. \<not> has_prefix entry ''TX9_PASSWORD='') (inherited_env G)"

definition runGPG ::
  "gpg_tool \<Rightarrow> string \<Rightarrow> string list \<Rightarrow> string \<Rightarrow> (local_error + unit) \<times> string" where
  "runGPG G passphrase args stdin =
     (if list_ex (\<lambda>c. c \<in> set passphrase_breakers) passphrase then (Inl BadPassphrase, '''')
      else if \<not> gpg_in_path G then (Inl NoGPG, '''')
      else if \<not> pipe_works G then (Inl GPGPipe, '''')
      else if \<not> gpg_starts G then (Inl GPGStart, '''')
      else case gpg_program G args (gpg_env G) (passphrase @ [CHR 0x0A]) stdin of (out, ok) \<Rightarrow>
        if \<not> passphrase_taken G then (Inl GPGPassphraseWrite, out)
        else if \<not> ok then (Inl GPGFailed, out)
        else (Inr (), out))"

definition gpgArgsEncrypt :: "string list" where
  "gpgArgsEncrypt =
     [''--batch'', ''--yes'', ''--pinentry-mode'', ''loopback'', ''--passphrase-fd'', ''3'',
      ''--symmetric'', ''--cipher-algo'', ''AES256'', ''-o'', ''-'']"

definition gpgArgsDecrypt :: "string \<Rightarrow> string list" where
  "gpgArgsDecrypt src =
     [''--batch'', ''--yes'', ''--pinentry-mode'', ''loopback'', ''--passphrase-fd'', ''3'', ''-d'', src]"

definition Encrypt ::
  "gpg_tool \<Rightarrow> (file_op \<Rightarrow> bool) \<Rightarrow> string \<Rightarrow> string \<Rightarrow> string \<Rightarrow> files \<Rightarrow> (local_error + unit) \<times> files" where
  "Encrypt G fails src dst passphrase fs =
     (case open_read fails src fs of
        Inl e \<Rightarrow> (Inl e, fs)
      | Inr contents \<Rightarrow> write_new fails False dst (runGPG G passphrase gpgArgsEncrypt contents) fs)"

text \<open>Decryption names the file as an argument; what gpg reads from it is its input here.\<close>

definition DecryptStream :: "gpg_tool \<Rightarrow> string \<Rightarrow> string \<Rightarrow> files \<Rightarrow> (local_error + unit) \<times> string" where
  "DecryptStream G src passphrase fs =
     runGPG G passphrase (gpgArgsDecrypt src) (case fs src of None \<Rightarrow> '''' | Some contents \<Rightarrow> contents)"

definition Decrypt ::
  "gpg_tool \<Rightarrow> (file_op \<Rightarrow> bool) \<Rightarrow> string \<Rightarrow> string \<Rightarrow> string \<Rightarrow> files \<Rightarrow> (local_error + unit) \<times> files" where
  "Decrypt G fails src dst passphrase fs =
     write_new fails False dst (DecryptStream G src passphrase fs) fs"

definition IsGPG :: "(file_op \<Rightarrow> bool) \<Rightarrow> string \<Rightarrow> files \<Rightarrow> bool" where
  "IsGPG fails path fs =
     (case open_read fails path fs of
        Inr (c # _) \<Rightarrow> 128 \<le> (of_char c :: nat)
      | _ \<Rightarrow> False)"

definition listTarGz :: "data_stream \<Rightarrow> local_error + unit" where
  "listTarGz r =
     (if \<not> gzip_opens r then Inl NotTarGz
      else if tar_end r \<noteq> CleanEnd then Inl NotTarGz
      else if \<not> gzip_drains r then Inl NotTarGz
      else if \<not> gzip_closes r then Inl NotTarGz
      else Inr ())"

definition VerifyEncrypted ::
  "gpg_tool \<Rightarrow> (string \<Rightarrow> data_stream) \<Rightarrow> string \<Rightarrow> string \<Rightarrow> files \<Rightarrow> local_error + unit" where
  "VerifyEncrypted G as_tar_gz encPath passphrase fs =
     (case DecryptStream G encPath passphrase fs of
        (Inl e, _) \<Rightarrow> Inl e
      | (Inr _, out) \<Rightarrow> listTarGz (as_tar_gz out))"

section \<open>The passphrase\<close>

text \<open>
  gpg takes the first line of descriptor 3: because of the guard that is the whole passphrase.
  Its arguments do not depend on the passphrase, and the variable that may hold it is not passed on.
\<close>

definition first_line :: "string \<Rightarrow> string" where
  "first_line s = fst (cut_on CHR 0x0A s)"

lemma runGPG_call:
  assumes "runGPG G passphrase args stdin = (Inr (), out)"
  shows "gpg_program G args (gpg_env G) (passphrase @ [CHR 0x0A]) stdin = (out, True) \<and>
    first_line (passphrase @ [CHR 0x0A]) = passphrase"
proof -
  have "list_ex (\<lambda>c. c \<in> set passphrase_breakers) passphrase = False"
    using assms by (auto simp: runGPG_def split: if_splits)
  then have "CHR 0x0A \<notin> set passphrase" by (auto simp: list_ex_iff passphrase_breakers_def)
  then show ?thesis
    using assms by (auto simp: runGPG_def first_line_def cut_on_append split: if_splits prod.splits)
qed

lemma gpg_env_hides: "entry \<in> set (gpg_env G) \<Longrightarrow> \<not> has_prefix entry ''TX9_PASSWORD=''"
  by (simp add: gpg_env_def)

lemma Encrypt_ok:
  "Encrypt G fails src dst passphrase fs = (Inr (), fs') \<Longrightarrow>
     \<exists>contents out. open_read fails src fs = Inr contents \<and> fs dst = None \<and> fs' = fs(dst \<mapsto> out) \<and>
       gpg_program G gpgArgsEncrypt (gpg_env G) (passphrase @ [CHR 0x0A]) contents = (out, True)"
  by (cases "runGPG G passphrase gpgArgsEncrypt (the (fs src))")
    (auto simp: Encrypt_def open_read_def write_new_ok split: option.splits sum.splits if_splits
      dest!: runGPG_call)

lemma Decrypt_ok:
  "Decrypt G fails src dst passphrase fs = (Inr (), fs') \<Longrightarrow>
     \<exists>out. DecryptStream G src passphrase fs = (Inr (), out) \<and> fs dst = None \<and> fs' = fs(dst \<mapsto> out)"
  by (cases "DecryptStream G src passphrase fs") (auto simp: Decrypt_def write_new_ok)

lemma VerifyEncrypted_ok:
  "VerifyEncrypted G as_tar_gz encPath passphrase fs = Inr () \<longleftrightarrow>
     (\<exists>out. DecryptStream G encPath passphrase fs = (Inr (), out) \<and> listTarGz (as_tar_gz out) = Inr ())"
  by (auto simp: VerifyEncrypted_def split: prod.splits sum.splits)

lemma crypt_other:
  "Encrypt G fails src dst passphrase fs = (r, fs') \<Longrightarrow> q \<noteq> dst \<Longrightarrow> fs' q = fs q"
  "Decrypt G fails src dst passphrase fs = (r, fs') \<Longrightarrow> q \<noteq> dst \<Longrightarrow> fs' q = fs q"
  by (auto simp: Encrypt_def Decrypt_def split: sum.splits dest: write_new_other)

end
