(* ===== verification/Backup.thy ===== *)
theory Backup
  imports Commands Format Encryption
begin

text \<open>
  Backup and import of boxes (\<open>internal/cli/cmd_backup.go\<close>, \<open>internal/cli/cmd_import.go\<close>).
  Local file operations work on the disk of the world; what they need from outside - the container
  library, gpg, the reading of a compressed tar, temporary directories, the terminal and the clock -
  is a record \<open>tools\<close>.  The stream of the archive out of the agent is one \<open>RunExec\<close> request whose
  standard output goes to the file; progress lines are not modelled.
\<close>

section \<open>The scripts\<close>

definition tarExclusions :: "string list" where
  "tarExclusions =
     [''./home/agent/.config/hermes-box/quiesced'',
      ''./home/agent/.codex/tmp'',
      ''./home/agent/.hermes/tmp'',
      ''./home/agent/.local/bin/claude'',
      ''./home/agent/.local/bin/codex'',
      ''*/node_modules'',
      ''*/.venv'',
      ''*/venv'',
      ''*/__pycache__'',
      ''*/.cache'',
      ''*.pyc'',
      ''*.pyo'',
      ''*/.hermes/*.db-wal'',
      ''*/.hermes/*.db-shm'',
      ''*/.hermes/*.db-journal'',
      ''*/gateway.pid'',
      ''*/cron.pid'',
      ''*/gateway.lock'',
      ''*/processes.json'']"

definition buildTarScript :: string where
  \<open>buildTarScript =
     ''set -euo pipefail; umask 077; sync'' @ [CHR 0x0A] @ ''tar czf - -C /data'' @
     concat (map (\<lambda>ex. '' --exclude="'' @ ex @ ''"'') tarExclusions) @ '' .''\<close>

definition restoreStageScript :: string where
  \<open>restoreStageScript =
     concat (map (\<lambda>l. l @ [CHR 0x0A])
     [''set -euo pipefail'',
      ''find /data -mindepth 1 -delete'',
      ''stage=/data/.hb-restore-stage'',
      ''mkdir -m 0700 "$stage"'',
      ''tar xzf - --no-same-owner -C "$stage"'',
      ''test -d "$stage/home/agent"'',
      ''chown root:root "$stage" "$stage/home"'',
      ''chmod 0711 "$stage" "$stage/home"'',
      ''chown -R agent:agent "$stage/home/agent" "$stage/logs" 2>/dev/null || true'',
      ''mkdir -p "$stage/home/agent/.config/hermes-box"'',
      ''touch "$stage/home/agent/.config/hermes-box/quiesced" '' @ [CHR 0x5C],
      ''      "$stage/home/agent/.config/hermes-box/gateway-disabled" '' @ [CHR 0x5C],
      ''      "$stage/home/agent/.config/hermes-box/gateway-policy-initialized"'',
      ''chown -R agent:agent "$stage/home/agent/.config/hermes-box"'',
      ''runuser -u agent -- env HOME=/data/home/agent '' @ [CHR 0x5C],
      ''  /opt/hermes-box/bin/hermes-state verify --home "$stage/home/agent/.hermes" >/dev/null'',
      ''shopt -s dotglob'',
      ''mv "$stage"/* /data/'',
      ''rmdir "$stage"'',
      ''chown root:root /data && chmod 0711 /data''])\<close>

section \<open>Local steps\<close>

record tools =
  containers :: container_lib
  gpg :: gpg_tool
  as_tar_gz :: "string \<Rightarrow> data_stream"
  file_fails :: "history \<Rightarrow> file_op \<Rightarrow> bool"
  temp_dir :: "history \<Rightarrow> string option"
  writer_part :: "history \<Rightarrow> string option"
  tty_answer :: "nat \<Rightarrow> string option"
  time_stamp :: string
  created_at :: string
  process_id :: nat

definition local_step ::
  "tools \<Rightarrow> ((file_op \<Rightarrow> bool) \<Rightarrow> files \<Rightarrow> (local_error + 'a) \<times> files) \<Rightarrow> 'a tx9" where
  "local_step L f w =
     (case f (file_fails L (events w)) (disk w) of
        (r, fs) \<Rightarrow> (map_error LocalErr r, w\<lparr>disk := fs\<rparr>))"

definition local_check ::
  "tools \<Rightarrow> ((file_op \<Rightarrow> bool) \<Rightarrow> files \<Rightarrow> local_error + 'a) \<Rightarrow> 'a tx9" where
  "local_check L f w = (map_error LocalErr (f (file_fails L (events w)) (disk w)), w)"

definition make_temp :: "tools \<Rightarrow> string tx9" where
  "make_temp L w =
     (case temp_dir L (events w) of
        None \<Rightarrow> (Inl (LocalErr (FileOp MkdirTemp)), w)
      | Some dir \<Rightarrow> (Inr dir, w))"

definition below :: "string \<Rightarrow> string \<Rightarrow> bool" where
  "below dir p \<longleftrightarrow> has_prefix p (dir @ ''/'')"

text \<open>The deferred \<open>os.RemoveAll\<close> of a temporary directory; its error is ignored.\<close>

definition remove_all :: "tools \<Rightarrow> string \<Rightarrow> world \<Rightarrow> world" where
  "remove_all L dir w =
     (if file_fails L (events w) (RemoveFile dir) then w
      else w\<lparr>disk := (\<lambda>p. if below dir p then None else disk w p)\<rparr>)"

definition remove_one :: "tools \<Rightarrow> string \<Rightarrow> world \<Rightarrow> world" where
  "remove_one L path w = w\<lparr>disk := remove_file (file_fails L (events w)) path (disk w)\<rparr>"

definition validateFileAsDataTar ::
  "tools \<Rightarrow> string \<Rightarrow> (file_op \<Rightarrow> bool) \<Rightarrow> files \<Rightarrow> local_error + unit" where
  "validateFileAsDataTar L path fails fs =
     result_bind (open_read fails path fs) (\<lambda>contents.
     map_error (\<lambda>_. UnsafeArchive) (ValidateDataTar maxArchiveMembers (as_tar_gz L contents)))"

definition readPassword :: "tools \<Rightarrow> nat \<Rightarrow> local_error + string" where
  "readPassword L n = (case tty_answer L n of None \<Rightarrow> Inl NoTerminal | Some pw \<Rightarrow> Inr pw)"

definition resolvePassword ::
  "(string \<Rightarrow> string) \<Rightarrow> tools \<Rightarrow> string \<Rightarrow> bool \<Rightarrow> local_error + string" where
  "resolvePassword env L flagVal confirm =
     (if flagVal \<noteq> '''' then Inr flagVal
      else if env ''TX9_PASSWORD'' \<noteq> '''' then Inr (env ''TX9_PASSWORD'')
      else result_bind (readPassword L 0) (\<lambda>pw.
        if pw = '''' then Inl EmptyPassphrase
        else if confirm then
          result_bind (readPassword L 1) (\<lambda>pw2. if pw2 \<noteq> pw then Inl PassphraseMismatch else Inr pw)
        else Inr pw))"

section \<open>Backup\<close>

definition quiesceForBackup :: "system \<Rightarrow> Box \<Rightarrow> string \<Rightarrow> (bool \<times> (tx9_error + unit)) tx9" where
  "quiesceForBackup E b tok =
     bind_comp (attempt (HB E b tok [''is-paused''])) (\<lambda>paused.
       case paused of
         Inr _ \<Rightarrow> ret (False, Inr ())
       | Inl _ \<Rightarrow> bind_comp (attempt (HB E b tok [''pause''])) (\<lambda>r. ret (True, r)))"

definition create_raw :: "string \<Rightarrow> (file_op \<Rightarrow> bool) \<Rightarrow> files \<Rightarrow> (local_error + unit) \<times> files" where
  "create_raw raw fails fs =
     (if fs raw \<noteq> None \<or> fails (CreateExcl raw) then (Inl (FileOp (CreateExcl raw)), fs)
      else (Inr (), fs(raw \<mapsto> '''')))"

definition close_raw ::
  "string \<Rightarrow> string \<Rightarrow> (file_op \<Rightarrow> bool) \<Rightarrow> files \<Rightarrow> (local_error + unit) \<times> files" where
  "close_raw raw out fails fs =
     (if fails (CloseFile raw) then (Inl (FileOp (CloseFile raw)), fs(raw \<mapsto> out))
      else (Inr (), fs(raw \<mapsto> out)))"

definition capture :: "system \<Rightarrow> tools \<Rightarrow> Box \<Rightarrow> string \<Rightarrow> unit tx9" where
  "capture E L b raw =
     bind_comp (local_step L (create_raw raw)) (\<lambda>_.
     bind_comp (Exec E (AgentID b) [''bash'', ''-c'', buildTarScript] '''') (\<lambda>res.
     bind_comp (local_step L (close_raw raw (Stdout res))) (\<lambda>_.
     if ExitCode res \<noteq> 0 then fail (TarExited (ExitCode res)) else ret ())))"

definition writeTx9Staged ::
  "tools \<Rightarrow> string option \<Rightarrow> string \<Rightarrow> Metadata \<Rightarrow> string \<Rightarrow> (file_op \<Rightarrow> bool) \<Rightarrow> files
     \<Rightarrow> (local_error + unit) \<times> files" where
  "writeTx9Staged L part stagingPath meta dataFile fails fs =
     write_new fails True stagingPath (WriteTx9 (containers L) fails part meta dataFile fs) fs"

text \<open>\<open>os.Link\<close> to the final name, which fails when that name exists; the staged name goes either way.\<close>

definition link_final ::
  "string \<Rightarrow> string \<Rightarrow> (file_op \<Rightarrow> bool) \<Rightarrow> files \<Rightarrow> (local_error + unit) \<times> files" where
  "link_final stagingPath finalPath fails fs =
     (if fs finalPath \<noteq> None \<or> fs stagingPath = None \<or> fails (LinkFile finalPath) then
        (Inl (FileOp (LinkFile finalPath)), remove_file fails stagingPath fs)
      else (Inr (), remove_file fails stagingPath (fs(finalPath := fs stagingPath))))"

definition final_name :: "tools \<Rightarrow> string \<Rightarrow> string" where
  "final_name L name = name @ ''-'' @ time_stamp L @ ''.tx9''"

definition staging_path :: "tools \<Rightarrow> string \<Rightarrow> string \<Rightarrow> string" where
  "staging_path L destDir name =
     Join2 destDir (''.'' @ final_name L name @ ''.staging-'' @ show_nat (process_id L))"

definition final_path :: "tools \<Rightarrow> string \<Rightarrow> string \<Rightarrow> string" where
  "final_path L destDir name = Join2 destDir (final_name L name)"

definition backup_meta :: "system \<Rightarrow> tools \<Rightarrow> Box \<Rightarrow> string \<Rightarrow> bool \<Rightarrow> Metadata" where
  "backup_meta E L b name enc =
     \<lparr>BoxName = name, CreatedAt = created_at L, CLIVersion = Version E, ImageVersion = b_Version b,
      Encrypted = enc, format_version = 0\<rparr>"

definition place :: "system \<Rightarrow> tools \<Rightarrow> Box \<Rightarrow> string \<Rightarrow> string \<Rightarrow> bool \<Rightarrow> string \<Rightarrow> string tx9" where
  "place E L b name destDir enc dataFile =
     bind_comp (\<lambda>w. local_step L (writeTx9Staged L (writer_part L (events w)) (staging_path L destDir name)
       (backup_meta E L b name enc) dataFile) w) (\<lambda>_.
     bind_comp (local_step L (link_final (staging_path L destDir name) (final_path L destDir name))) (\<lambda>_.
     ret (final_path L destDir name)))"

definition encrypt_raw :: "tools \<Rightarrow> string \<Rightarrow> string \<Rightarrow> string \<Rightarrow> unit tx9" where
  "encrypt_raw L raw encPath passphrase =
     bind_comp (local_step L (\<lambda>fails. Encrypt (gpg L) fails raw encPath passphrase)) (\<lambda>_.
     local_check L (\<lambda>fails. VerifyEncrypted (gpg L) (as_tar_gz L) encPath passphrase))"

definition backup_archive ::
  "system \<Rightarrow> tools \<Rightarrow> Box \<Rightarrow> string \<Rightarrow> string \<Rightarrow> bool \<Rightarrow> string \<Rightarrow> string \<Rightarrow> string tx9" where
  "backup_archive E L b name destDir enc passphrase raw =
     bind_comp (capture E L b raw) (\<lambda>_.
     bind_comp (local_check L (validateFileAsDataTar L raw)) (\<lambda>_.
     if enc then
       with_defer
         (bind_comp (encrypt_raw L raw (raw @ ''.gpg'') passphrase) (\<lambda>_.
          place E L b name destDir enc (raw @ ''.gpg'')))
         (remove_one L (raw @ ''.gpg''))
     else place E L b name destDir enc raw))"

definition backup_snapshot ::
  "system \<Rightarrow> tools \<Rightarrow> Box \<Rightarrow> string \<Rightarrow> string \<Rightarrow> string \<Rightarrow> bool \<Rightarrow> string \<Rightarrow> string tx9" where
  "backup_snapshot E L b tok name destDir enc passphrase =
     bind_comp (HB E b tok [''verify-state'', ''--checkpoint'']) (\<lambda>_.
     bind_comp (HB E b tok [''write-manifest'']) (\<lambda>_.
     bind_comp (make_temp L) (\<lambda>tmp.
     with_defer (backup_archive E L b name destDir enc passphrase (Join2 tmp ''data.tar.gz''))
       (remove_all L tmp))))"

definition resume :: "system \<Rightarrow> Box \<Rightarrow> string \<Rightarrow> world \<Rightarrow> world" where
  "resume E b tok w = snd (HB E b tok [''resume''] w)"

definition backup_body ::
  "system \<Rightarrow> tools \<Rightarrow> string \<Rightarrow> string \<Rightarrow> bool \<Rightarrow> string \<Rightarrow> string tx9" where
  "backup_body E L name destDir enc passphrase =
     bind_comp (Get E name) (\<lambda>b.
     if AgentID b = '''' then fail (MissingContainer name)
     else bind_comp (BoxToken E name) (\<lambda>tok.
     bind_comp (quiesceForBackup E b tok) (\<lambda>(weQuiesced, r).
     let rest = bind_comp (lift_result r) (\<lambda>_. backup_snapshot E L b tok name destDir enc passphrase) in
     if weQuiesced then with_defer rest (resume E b tok) else rest)))"

definition backup_dest :: "system \<Rightarrow> string \<Rightarrow> tx9_error + string" where
  "backup_dest E path =
     result_bind
       (if path \<noteq> '''' then Inr path
        else case home_dir (host E) of
          None \<Rightarrow> Inl (EnvErr NoHome)
        | Some home \<Rightarrow> Inr (Join2 home ''Downloads''))
       (\<lambda>dir. if mkdir_ok (host E) dir then Inr dir else Inl (EnvErr (MkdirFailed dir)))"

definition cmdBackup :: "system \<Rightarrow> tools \<Rightarrow> string \<Rightarrow> string \<Rightarrow> bool \<Rightarrow> string \<Rightarrow> string tx9" where
  "cmdBackup E L path password noEncrypt name =
     bind_comp (lift_result (backup_dest E path)) (\<lambda>destDir.
     bind_comp (lift_result (if noEncrypt then Inr ''''
       else map_error LocalErr (resolvePassword (getenv E) L password True))) (\<lambda>passphrase.
     withBoxLock E name (backup_body E L name destDir (\<not> noEncrypt) passphrase)))"

section \<open>Import\<close>

text \<open>\<open>box.Destroy\<close> with its error ignored, then the error that led there.\<close>

definition destroy_then :: "system \<Rightarrow> string \<Rightarrow> tx9_error \<Rightarrow> 'a tx9" where
  "destroy_then E name err = bind_comp (attempt (Destroy E name)) (\<lambda>_ :: tx9_error + unit. fail err)"

definition import_payload :: "tools \<Rightarrow> string \<Rightarrow> bool \<Rightarrow> string \<Rightarrow> string \<Rightarrow> string tx9" where
  "import_payload L archivePath enc passphrase tmp =
     (let raw = tmp @ ''/data.payload''; dec = tmp @ ''/data.tar.gz'' in
      bind_comp (local_step L (\<lambda>fails. ExtractData (containers L) fails archivePath raw)) (\<lambda>_.
      bind_comp (if enc then
          bind_comp (local_step L (\<lambda>fails. Decrypt (gpg L) fails raw dec passphrase)) (\<lambda>_. ret dec)
        else ret raw) (\<lambda>dataPath.
      bind_comp (local_check L (validateFileAsDataTar L dataPath)) (\<lambda>_. ret dataPath))))"

definition import_restore :: "system \<Rightarrow> tools \<Rightarrow> string \<Rightarrow> string \<Rightarrow> string \<Rightarrow> Box \<Rightarrow> unit tx9" where
  "import_restore E L name dataPath tok b =
     bind_comp (attempt (local_check L (\<lambda>fails. open_read fails dataPath))) (\<lambda>r.
     case r of
       Inl err \<Rightarrow> destroy_then E name err
     | Inr contents \<Rightarrow>
     bind_comp (attempt (Ephemeral E (image_tag E) [''bash''] [''-c'', restoreStageScript]
       [] [agent_volume name @ '':/data''] (Some contents))) (\<lambda>r.
     case r of
       Inl err \<Rightarrow> destroy_then E name err
     | Inr (exitCode, _) \<Rightarrow>
     if exitCode \<noteq> 0 then destroy_then E name (RestoreExited exitCode)
     else
     bind_comp (attempt (Start E b)) (\<lambda>r.
     case r of
       Inl err \<Rightarrow> destroy_then E name err
     | Inr _ \<Rightarrow> bind_comp (attempt (HB E b tok [''verify-state''])) (\<lambda>_ :: tx9_error + unit. ret ()))))"

definition import_create ::
  "system \<Rightarrow> tools \<Rightarrow> ExecutorConfig \<Rightarrow> Resources \<Rightarrow> string \<Rightarrow> string \<Rightarrow> unit tx9" where
  "import_create E L cfg res name dataPath =
     bind_comp (MintToken E) (\<lambda>tok.
     bind_comp (SaveExecutorConfig E name tok cfg) (\<lambda>_.
     bind_comp (SaveAgentMounts E name []) (\<lambda>_.
     bind_comp (SaveResources E name res) (\<lambda>_.
     bind_comp (ensureBoxImage E (image_tag E)) (\<lambda>_.
     bind_comp (attempt (Create E
       \<lparr>opt_Name = name, opt_Image = image_tag E, opt_Token = tok, opt_Executor = cfg,
        opt_Resources = res, opt_AgentMounts = [], opt_NoStart = True\<rparr>)) (\<lambda>r.
     case r of
       Inl err \<Rightarrow> destroy_then E name err
     | Inr b \<Rightarrow> import_restore E L name dataPath tok b))))))"

definition import_body ::
  "system \<Rightarrow> tools \<Rightarrow> ExecutorConfig \<Rightarrow> Resources \<Rightarrow> string \<Rightarrow> bool \<Rightarrow> string \<Rightarrow> string \<Rightarrow> unit tx9" where
  "import_body E L cfg res archivePath enc passphrase name =
     bind_comp (Exists E name) (\<lambda>exists.
     if exists then fail (BoxExists name) else
     bind_comp (PreflightFreshObjects E name) (\<lambda>_.
     bind_comp (make_temp L) (\<lambda>tmp.
     with_defer
       (bind_comp (import_payload L archivePath enc passphrase tmp) (import_create E L cfg res name))
       (remove_all L tmp))))"

definition cmdImport ::
  "system \<Rightarrow> tools \<Rightarrow> executorConfigFlags \<Rightarrow> (Resources \<Rightarrow> resource_error + Resources) \<Rightarrow> string \<Rightarrow> string
     \<Rightarrow> string \<Rightarrow> unit tx9" where
  "cmdImport E L exec_flags res_flags nameOverride password archivePath =
     bind_comp (local_check L (\<lambda>fails. ReadMetadata (containers L) fails archivePath)) (\<lambda>meta.
     let name = (if nameOverride = '''' then BoxName meta else nameOverride) in
     bind_comp (lift_result (map_error NameErr (Validate name))) (\<lambda>_.
     bind_comp (lift_result (map_error ConfErr (resolve_flags exec_flags True))) (\<lambda>ov.
     bind_comp (LoadExecutorConfig E name ov) (\<lambda>cfg.
     bind_comp (lift_result (map_error ResErr (res_flags DefaultResources))) (\<lambda>res.
     bind_comp (lift_result (if Encrypted meta
       then map_error LocalErr (resolvePassword (getenv E) L password False) else Inr '''')) (\<lambda>passphrase.
     withBoxLock E name (import_body E L cfg res archivePath (Encrypted meta) passphrase name)))))))"

end
