(* ===== verification/BackupSafety.thy ===== *)
theory BackupSafety
  imports Backup MaintenanceSafety "HOL-Library.Code_Target_Nat"
begin

text \<open>
  A backup resumes the box exactly if it paused it, never changes a file that was there before, and
  what it leaves at the final name is a container of a validated archive.
\<close>

section \<open>Local steps make no calls\<close>

lemma local_events:
  "events (snd (local_step L f w)) = events w" "events (snd (local_check L g w)) = events w"
  "events (snd (make_temp L w)) = events w" "events (remove_all L d w) = events w"
  "events (remove_one L p w) = events w"
  by (auto simp: local_step_def local_check_def make_temp_def remove_all_def remove_one_def
      split: prod.splits option.splits)

lemma local_locks:
  "locks (snd (local_step L f w)) = locks w" "locks (snd (local_check L g w)) = locks w"
  "locks (snd (make_temp L w)) = locks w" "locks (remove_all L d w) = locks w"
  "locks (remove_one L p w) = locks w"
  by (auto simp: local_step_def local_check_def make_temp_def remove_all_def remove_one_def
      split: prod.splits option.splits)

lemma makes_only_quiet:
  "(\<And>w. events (snd (m w)) = events w) \<Longrightarrow> makes_only P m"
  by (auto simp: makes_only_def)

lemma makes_only_local [call_rules]:
  "makes_only P (local_step L f)" "makes_only P (local_check L g)" "makes_only P (make_temp L)"
  "makes_only P (\<lambda>w. local_step L (f' w) w)"
  by (auto intro!: makes_only_quiet simp: local_events)

lemma makes_only_defer:
  assumes "makes_only P m" and "\<And>w. events (d w) = events w"
  shows "makes_only P (with_defer m d)"
  using assms by (auto simp: makes_only_def with_defer_def split: prod.splits) (metis snd_conv)

lemma makes_only_defer_remove [call_rules]:
  "makes_only P m \<Longrightarrow> makes_only P (with_defer m (remove_all L d))"
  "makes_only P m \<Longrightarrow> makes_only P (with_defer m (remove_one L p))"
  by (rule makes_only_defer; simp add: local_events)+

lemma keeps_locks_local [call_rules]:
  "keeps_locks (local_step L f)" "keeps_locks (local_check L g)" "keeps_locks (make_temp L)"
  "keeps_locks (\<lambda>w. local_step L (f' w) w)"
  by (auto simp: keeps_def local_locks)

lemma keeps_locks_defer [call_rules]:
  assumes "keeps_locks m"
  shows "keeps_locks (with_defer m (remove_all L d))" and "keeps_locks (with_defer m (remove_one L p))"
  using assms by (auto simp: keeps_def with_defer_def local_locks split: prod.splits) (metis snd_conv)+

section \<open>Pausing and resuming\<close>

definition is_hb :: "string list \<Rightarrow> call \<Rightarrow> bool" where
  "is_hb args c \<longleftrightarrow> (\<exists>i tok. c = RunExec i (hb_cmd tok args) '''')"

definition neither :: "call \<Rightarrow> bool" where
  "neither c \<longleftrightarrow> \<not> is_hb [''pause''] c \<and> \<not> is_hb [''resume''] c"

lemma hb_cmd_inject: "hb_cmd tok args = hb_cmd tok' args' \<Longrightarrow> args = args'"
  by (simp add: hb_cmd_def hb_prefix_def)

lemma neither_hb: "args \<notin> {[''pause''], [''resume'']} \<Longrightarrow> neither (RunExec i (hb_cmd tok args) '''')"
  by (auto simp: neither_def is_hb_def dest: hb_cmd_inject)

lemma HB_only:
  assumes "args \<notin> {[''pause''], [''resume'']}"
  shows "makes_only neither (HB E b tok args)"
  unfolding HB_def Exec_def
  by (intro call_rules) (use neither_hb [OF assms] in \<open>simp add: hb_cmd_def\<close>)

lemma reading_neither: "reading c \<Longrightarrow> neither c"
  by (cases c) (auto simp: neither_def is_hb_def)

lemma capture_neither: "makes_only neither (capture E L b raw)"
proof -
  have "neither (RunExec i [''bash'', ''-c'', buildTarScript] '''')" for i
    by (simp add: neither_def is_hb_def hb_cmd_def hb_prefix_def)
  then show ?thesis unfolding capture_def Exec_def by (intro call_rules)
qed

lemma place_quiet: "makes_only P (place E L b name destDir enc dataFile)"
  unfolding place_def by (intro call_rules)

lemma backup_snapshot_neither:
  "makes_only neither (backup_snapshot E L b tok name destDir enc passphrase)"
  unfolding backup_snapshot_def backup_archive_def encrypt_raw_def
  by (intro call_rules capture_neither place_quiet HB_only) simp_all

definition resumed_if_paused :: "history \<Rightarrow> bool" where
  "resumed_if_paused es \<longleftrightarrow>
     list_all (\<lambda>e. neither (fst e)) es \<or>
     (\<exists>b tok pre mid ok ok'. es = pre @ [(hb_call b tok [''pause''], ok)] @ mid @ [(hb_call b tok [''resume''], ok')] \<and>
        list_all (\<lambda>e. neither (fst e)) (pre @ mid))"

lemma quiesceForBackup_run:
  assumes "AgentID b \<noteq> ''''" and "quiesceForBackup E b tok w = (r, w')"
  shows "\<exists>ok. r = Inr (False, Inr ()) \<and> w' = logged (hb_call b tok [''is-paused'']) ok w \<or>
    (\<exists>q ok'. r = Inr (True, q) \<and>
       w' = logged (hb_call b tok [''pause'']) ok' (logged (hb_call b tok [''is-paused'']) ok w))"
proof -
  obtain r1 w1 where h1: "HB E b tok [''is-paused''] w = (r1, w1)" by fastforce
  obtain ok where w1: "w1 = logged (hb_call b tok [''is-paused'']) ok w"
    using HB_calls [OF assms(1) h1] by blast
  show ?thesis
  proof (cases r1)
    case (Inr u)
    then show ?thesis using assms(2) h1 w1
      by (auto simp: quiesceForBackup_def bind_comp_def attempt_def ret_def)
  next
    case (Inl e)
    obtain r2 w2 where h2: "HB E b tok [''pause''] w1 = (r2, w2)" by fastforce
    obtain ok' where "w2 = logged (hb_call b tok [''pause'']) ok' w1"
      using HB_calls [OF assms(1) h2] by blast
    then show ?thesis using assms(2) h1 h2 w1 Inl
      by (auto simp: quiesceForBackup_def bind_comp_def attempt_def ret_def)
  qed
qed

lemma resumed_if_paused_prefix:
  assumes "list_all (\<lambda>e. neither (fst e)) pre" and "resumed_if_paused es"
  shows "resumed_if_paused (pre @ es)"
  using assms(2) unfolding resumed_if_paused_def
proof (elim disjE exE conjE)
  fix b tok pre' mid ok ok'
  assume "es = pre' @ [(hb_call b tok [''pause''], ok)] @ mid @ [(hb_call b tok [''resume''], ok')]"
    and "list_all (\<lambda>e. neither (fst e)) (pre' @ mid)"
  then show "list_all (\<lambda>e. neither (fst e)) (pre @ es) \<or>
     (\<exists>b tok pre1 mid ok ok'. pre @ es =
        pre1 @ [(hb_call b tok [''pause''], ok)] @ mid @ [(hb_call b tok [''resume''], ok')] \<and>
        list_all (\<lambda>e. neither (fst e)) (pre1 @ mid))"
    using assms(1)
    by (intro disjI2 exI [of _ b] exI [of _ tok] exI [of _ "pre @ pre'"] exI [of _ mid]
        exI [of _ ok] exI [of _ ok']) simp
qed (use assms(1) in simp)

lemma neither_is_paused: "neither (hb_call b tok [''is-paused''])"
  using neither_hb [of "[''is-paused'']" "AgentID b" tok]
  by (simp add: hb_call_def hb_cmd_def)

definition quiesced_run :: "system \<Rightarrow> Box \<Rightarrow> string \<Rightarrow> 'a tx9 \<Rightarrow> 'a tx9" where
  "quiesced_run E b tok S = bind_comp (quiesceForBackup E b tok) (\<lambda>(weQuiesced, r).
     let rest = bind_comp (lift_result r) (\<lambda>_. S) in
     if weQuiesced then with_defer rest (resume E b tok) else rest)"

lemma quiesced_run_resumes:
  assumes "AgentID b \<noteq> ''''" and "makes_only neither S"
  shows "\<exists>es. events (snd (quiesced_run E b tok S w)) = events w @ es \<and> resumed_if_paused es"
proof -
  obtain r w1 where q: "quiesceForBackup E b tok w = (r, w1)" by fastforce
  have rest: "makes_only neither (bind_comp (lift_result r') (\<lambda>_. S))" for r' :: "tx9_error + unit"
    using assms(2) by (intro call_rules)
  from quiesceForBackup_run [OF assms(1) q] show ?thesis
  proof (elim exE disjE conjE)
    fix ok
    assume r: "r = Inr (False, Inr ())" and w1: "w1 = logged (hb_call b tok [''is-paused'']) ok w"
    obtain es where "events (snd (S w1)) = events w1 @ es" "\<forall>e \<in> set es. neither (fst e)"
      using assms(2) by (auto simp: makes_only_def)
    then show ?thesis using q r w1 neither_is_paused
      by (intro exI [of _ "(hb_call b tok [''is-paused''], ok) # es"])
        (auto simp: quiesced_run_def resumed_if_paused_def list_all_iff bind_comp_def lift_result_def logged_def)
  next
    fix ok p ok'
    assume r: "r = Inr (True, p)"
      and w1: "w1 = logged (hb_call b tok [''pause'']) ok' (logged (hb_call b tok [''is-paused'']) ok w)"
    obtain r2 w2 where run: "bind_comp (lift_result p) (\<lambda>_. S) w1 = (r2, w2)" by fastforce
    obtain es where es: "events w2 = events w1 @ es" "list_all (\<lambda>e. neither (fst e)) es"
      using makes_onlyD [OF rest run] by (metis list_all_iff)
    obtain r3 w3 where hb: "HB E b tok [''resume''] w2 = (r3, w3)" by fastforce
    obtain ok2 where "w3 = logged (hb_call b tok [''resume'']) ok2 w2"
      using HB_calls [OF assms(1) hb] by blast
    then have "events (snd (quiesced_run E b tok S w)) = events w @ [(hb_call b tok [''is-paused''], ok)] @
        [(hb_call b tok [''pause''], ok')] @ es @ [(hb_call b tok [''resume''], ok2)]"
      using q r run hb es w1
      by (simp add: quiesced_run_def bind_comp_def with_defer_def resume_def logged_def)
    then show ?thesis using es(2) neither_is_paused [of b tok]
      unfolding resumed_if_paused_def
      by (intro exI [of _ "[(hb_call b tok [''is-paused''], ok)] @
        [(hb_call b tok [''pause''], ok')] @ es @ [(hb_call b tok [''resume''], ok2)]"] conjI disjI2
          exI [of _ b] exI [of _ tok] exI [of _ "[(hb_call b tok [''is-paused''], ok)]"] exI [of _ es]
          exI [of _ ok'] exI [of _ ok2]) simp_all
  qed
qed

lemma backup_body_runs:
  "backup_body E L name destDir enc passphrase =
     bind_comp (Get E name) (\<lambda>b. if AgentID b = '''' then fail (MissingContainer name)
       else bind_comp (BoxToken E name) (\<lambda>tok.
         quiesced_run E b tok (backup_snapshot E L b tok name destDir enc passphrase)))"
  unfolding backup_body_def quiesced_run_def by (rule refl)

lemma resumes_bind:
  assumes "makes_only reading m"
    and "\<And>x w. \<exists>es. events (snd (f x w)) = events w @ es \<and> resumed_if_paused es"
  shows "\<exists>es. events (snd (bind_comp m f w)) = events w @ es \<and> resumed_if_paused es"
proof -
  obtain r w1 where run: "m w = (r, w1)" by fastforce
  obtain pre where pre: "events w1 = events w @ pre" "list_all (\<lambda>e. neither (fst e)) pre"
    using makes_onlyD [OF assms(1) run] reading_neither by (metis list_all_iff)
  show ?thesis
  proof (cases r)
    case (Inl e)
    then show ?thesis using run pre by (auto simp: bind_comp_def resumed_if_paused_def)
  next
    case (Inr x)
    obtain es where "events (snd (f x w1)) = events w1 @ es" "resumed_if_paused es"
      using assms(2) by blast
    then show ?thesis using run pre Inr resumed_if_paused_prefix [OF pre(2)]
      by (intro exI [of _ "pre @ es"]) (auto simp: bind_comp_def)
  qed
qed

text \<open>a backup that pauses the box asks the same box to resume as its last call, on every
  path, errors included; a backup that did not pause it does not resume it.\<close>

text \<open>C6: a backup that pauses the box asks the same box to resume as its last call, on every
  path, errors included; a backup that did not pause it does not resume it.\<close>

theorem backup_resumes:
  "\<exists>es. events (snd (backup_body E L name destDir enc passphrase w)) = events w @ es \<and>
     resumed_if_paused es"
proof -
  have quiet: "\<exists>es. events (snd ((fail e :: string tx9) w)) = events w @ es \<and> resumed_if_paused es" for e w
    by (simp add: fail_def resumed_if_paused_def)
  show ?thesis unfolding backup_body_runs
    by (intro resumes_bind reads_Get)
      (auto intro!: quiet resumes_bind reads_BoxToken quiesced_run_resumes backup_snapshot_neither)
qed

section \<open>What was there stays\<close>

definition keeps_file :: "string \<Rightarrow> 'a tx9 \<Rightarrow> bool" where
  "keeps_file q m \<longleftrightarrow> (\<forall>w. disk w q \<noteq> None \<longrightarrow> disk (snd (m w)) q = disk w q)"

definition keeps_at :: "string \<Rightarrow> ((file_op \<Rightarrow> bool) \<Rightarrow> files \<Rightarrow> (local_error + 'a) \<times> files) \<Rightarrow> bool" where
  "keeps_at q f \<longleftrightarrow> (\<forall>fails fs. fs q \<noteq> None \<longrightarrow> snd (f fails fs) q = fs q)"

named_theorems file_rules \<open>which files a computation leaves alone\<close>

lemma keeps_file_disk [file_rules]: "keeps_disk m \<Longrightarrow> keeps_file q m"
  by (simp add: keeps_def keeps_file_def)

lemma keeps_file_bind [file_rules]:
  "keeps_file q m \<Longrightarrow> (\<And>x. keeps_file q (f x)) \<Longrightarrow> keeps_file q (bind_comp m f)"
  unfolding keeps_file_def bind_comp_def by (auto split: prod.splits sum.splits)

lemma keeps_file_split [file_rules]:
  "(b \<Longrightarrow> keeps_file q m) \<Longrightarrow> (\<not> b \<Longrightarrow> keeps_file q m') \<Longrightarrow> keeps_file q (if b then m else m')"
  "(\<And>x y. p = (x, y) \<Longrightarrow> keeps_file q (fp x y)) \<Longrightarrow> keeps_file q (case p of (x, y) \<Rightarrow> fp x y)"
  by (auto split: prod.splits)

lemma keeps_file_local [file_rules]:
  "keeps_at q f \<Longrightarrow> keeps_file q (local_step L f)" "keeps_file q (local_check L g)" "keeps_file q (make_temp L)"
  "(\<And>w. keeps_at q (h w)) \<Longrightarrow> keeps_file q (\<lambda>w. local_step L (h w) w)"
  by (auto simp: keeps_file_def keeps_at_def local_step_def local_check_def make_temp_def
      split: prod.splits option.splits) (metis snd_conv)+

lemma keeps_file_defer [file_rules]:
  "keeps_file q m \<Longrightarrow> \<not> below d q \<Longrightarrow> keeps_file q (with_defer m (remove_all L d))"
  "keeps_file q m \<Longrightarrow> q \<noteq> p \<Longrightarrow> keeps_file q (with_defer m (remove_one L p))"
  by (auto simp: keeps_file_def with_defer_def remove_all_def remove_one_def remove_file_def split: prod.splits)

lemma keeps_at_new [file_rules]:
  "keeps_at q (\<lambda>fails fs. write_new fails s p (g fails fs) fs)" "keeps_at q (create_raw raw)"
  "q \<noteq> raw \<Longrightarrow> keeps_at q (close_raw raw out)"
  by (auto simp: keeps_at_def write_new_def create_raw_def close_raw_def remove_file_def Let_def
      split: prod.splits sum.splits)

lemma keeps_at_Encrypt [file_rules]:
  "keeps_at q (\<lambda>fails. Encrypt G fails src dst pw)" "keeps_at q (\<lambda>fails. Decrypt G fails src dst pw)"
  "keeps_at q (\<lambda>fails. ExtractData T fails path dst)"
  by (auto simp: keeps_at_def Encrypt_def Decrypt_def ExtractData_def write_new_def remove_file_def Let_def
      split: prod.splits sum.splits)

lemma keeps_disk_HB [call_rules]: "keeps_disk (HB E b tok args)" "keeps_disk (Exec E i cmd user)"
  "keeps_disk (BoxToken E name)"
  unfolding HB_def Exec_def BoxToken_def Let_def by (intro call_rules)+

lemma keeps_file_place: "keeps_file q (place E L b name destDir enc dataFile)"
proof (cases "q = staging_path L destDir name")
  case True
  then show ?thesis
    by (auto simp: keeps_file_def place_def bind_comp_def local_step_def writeTx9Staged_def write_new_def ret_def
        split: prod.splits sum.splits)
next
  case False
  then have "keeps_at q (link_final (staging_path L destDir name) p)" for p
    by (auto simp: keeps_at_def link_final_def remove_file_def)
  then show ?thesis unfolding place_def writeTx9Staged_def by (intro file_rules call_rules)
qed

definition temp_file :: "string \<Rightarrow> string \<Rightarrow> bool" where
  "temp_file tmp q \<longleftrightarrow> below tmp q \<or> q = Join2 tmp ''data.tar.gz'' \<or> q = Join2 tmp ''data.tar.gz'' @ ''.gpg''"

definition in_temp :: "tools \<Rightarrow> string \<Rightarrow> bool" where
  "in_temp L q \<longleftrightarrow> (\<exists>h tmp. temp_dir L h = Some tmp \<and> temp_file tmp q)"

lemma keeps_file_make_temp:
  "(\<And>h tmp. temp_dir L h = Some tmp \<Longrightarrow> keeps_file q (f tmp)) \<Longrightarrow> keeps_file q (bind_comp (make_temp L) f)"
  by (auto simp: keeps_file_def bind_comp_def make_temp_def split: option.splits)

lemma keeps_file_archive:
  assumes "q \<noteq> raw" and "q \<noteq> raw @ ''.gpg''"
  shows "keeps_file q (backup_archive E L b name destDir enc passphrase raw)"
  unfolding backup_archive_def capture_def encrypt_raw_def
  by (intro file_rules keeps_file_place call_rules assms)

lemma keeps_file_snapshot:
  "\<not> in_temp L q \<Longrightarrow> keeps_file q (backup_snapshot E L b tok name destDir enc passphrase)"
  unfolding backup_snapshot_def
  by (intro file_rules keeps_file_make_temp keeps_file_archive call_rules) (auto simp: in_temp_def temp_file_def)

lemma keeps_disk_quiesce: "keeps_disk (quiesceForBackup E b tok)"
  unfolding quiesceForBackup_def by (intro call_rules)

lemma keeps_file_resume:
  "keeps_file q m \<Longrightarrow> keeps_file q (with_defer m (resume E b tok))"
  using keeps_disk_HB(1) [of E b tok "[''resume'']"]
  by (auto simp: keeps_file_def with_defer_def resume_def keeps_def split: prod.splits)

lemma keeps_file_quiesced:
  assumes "keeps_file q S"
  shows "keeps_file q (quiesced_run E b tok S)"
  unfolding quiesced_run_def Let_def
  by (intro keeps_file_bind keeps_file_split keeps_file_resume assms
      keeps_file_disk [OF keeps_disk_quiesce] keeps_file_disk [OF keeps_pure(3)])

text \<open>Every file that was there outside the temporary directories is as before.\<close>

definition files_kept :: "tools \<Rightarrow> world \<Rightarrow> world \<Rightarrow> bool" where
  "files_kept L w w' \<longleftrightarrow> (\<forall>q. disk w q \<noteq> None \<and> \<not> in_temp L q \<longrightarrow> disk w' q = disk w q)"

text \<open>no file that was there before a backup is changed or removed by it, on any path, outside
  the temporary directory; an older backup of the same name stays.\<close>

text \<open>C7: no file that was there before a backup is changed or removed by it, on any path, outside
  the temporary directory; an older backup of the same name stays.\<close>

theorem backup_keeps_files:
  "files_kept L w (snd (backup_body E L name destDir enc passphrase w))"
proof -
  have "keeps_file q (backup_body E L name destDir enc passphrase)" if "\<not> in_temp L q" for q
    unfolding backup_body_runs
    by (intro file_rules keeps_file_quiesced keeps_file_snapshot that call_rules keeps_disk_reads)
  then show ?thesis by (auto simp: keeps_file_def files_kept_def)
qed

section \<open>A concrete machine\<close>

definition demo_format :: container_lib where
  "demo_format =
     \<lparr>tar_write = \<lambda>ms. concat (map snd ms),
      tar_read = \<lambda>s. ([\<lparr>m_Name = metadataMember, m_Typeflag = TypeReg, m_Size = 0, m_Data = '''', m_Broken = False\<rparr>,
        \<lparr>m_Name = dataMemberPlain, m_Typeflag = TypeReg, m_Size = 1, m_Data = s, m_Broken = False\<rparr>], CleanEnd),
      marshal_meta = \<lambda>m. Some '''',
      unmarshal_meta = \<lambda>s. Some \<lparr>BoxName = ''b'', CreatedAt = '''', CLIVersion = ''1'', ImageVersion = ''1'',
        Encrypted = False, format_version = 1\<rparr>\<rparr>"

definition demo_gpg :: gpg_tool where
  "demo_gpg = \<lparr>gpg_in_path = True, pipe_works = True, gpg_starts = True, passphrase_taken = True,
     inherited_env = [], gpg_program = \<lambda>args vars pw s. (s, True)\<rparr>"

definition demo_stream :: data_stream where
  "demo_stream = \<lparr>gzip_opens = True,
     tar_headers =
       [\<lparr>hdr_Name = ''home/'', hdr_Linkname = '''', hdr_Typeflag = TypeDir\<rparr>,
        \<lparr>hdr_Name = ''home/agent/'', hdr_Linkname = '''', hdr_Typeflag = TypeDir\<rparr>],
     tar_end = CleanEnd, gzip_drains = True, gzip_closes = True\<rparr>"

definition demo_tools :: tools where
  "demo_tools = \<lparr>containers = demo_format, gpg = demo_gpg, as_tar_gz = \<lambda>s. demo_stream,
     file_fails = \<lambda>h c. False, temp_dir = \<lambda>h. Some ''/tmp/t'', writer_part = \<lambda>h. None,
     tty_answer = \<lambda>n. Some ''pw'', time_stamp = ''1'', created_at = ''now'', process_id = 7\<rparr>"

section \<open>What is saved\<close>

definition tar_output :: "system \<Rightarrow> Box \<Rightarrow> string \<Rightarrow> bool" where
  "tar_output E b raw \<longleftrightarrow> (\<exists>h res.
     eng_exec (daemon E) h (AgentID b) [''bash'', ''-c'', buildTarScript] '''' = Inr res \<and>
     ExitCode res = 0 \<and> Stdout res = raw)"

definition sealed :: "tools \<Rightarrow> string \<Rightarrow> string \<Rightarrow> string \<Rightarrow> bool" where
  "sealed L passphrase raw payload \<longleftrightarrow>
     gpg_program (gpg L) gpgArgsEncrypt (gpg_env (gpg L)) (passphrase @ [CHR 0x0A]) raw = (payload, True) \<and>
     (\<exists>encPath out. gpg_program (gpg L) (gpgArgsDecrypt encPath) (gpg_env (gpg L))
          (passphrase @ [CHR 0x0A]) payload = (out, True) \<and>
        listTarGz (as_tar_gz L out) = Inr ())"

definition saved_backup :: "system \<Rightarrow> tools \<Rightarrow> string \<Rightarrow> bool \<Rightarrow> string \<Rightarrow> string \<Rightarrow> bool" where
  "saved_backup E L name enc passphrase contents \<longleftrightarrow> (\<exists>b raw payload.
     tar_output E b raw \<and> ValidateDataTar maxArchiveMembers (as_tar_gz L raw) = Inr () \<and>
     (if enc then sealed L passphrase raw payload else payload = raw) \<and>
     container_of (containers L) (backup_meta E L b name enc) payload contents)"

lemma local_iffs:
  "local_step L f w = (Inr x, w') \<longleftrightarrow>
     (\<exists>fs. f (file_fails L (events w)) (disk w) = (Inr x, fs) \<and> w' = w\<lparr>disk := fs\<rparr>)"
  "local_check L g w = (Inr x, w') \<longleftrightarrow> g (file_fails L (events w)) (disk w) = Inr x \<and> w' = w"
  by (auto simp: local_step_def local_check_def split: prod.splits)

lemma with_defer_iff: "with_defer m d w = (r, w') \<longleftrightarrow> (\<exists>w1. m w = (r, w1) \<and> w' = d w1)"
  by (auto simp: with_defer_def split: prod.splits)

lemma make_temp_iff: "make_temp L w = (Inr tmp, w') \<longleftrightarrow> temp_dir L (events w) = Some tmp \<and> w' = w"
  by (auto simp: make_temp_def split: option.splits)

lemma open_read_Inr: "open_read fails path fs = Inr c \<longleftrightarrow> fs path = Some c \<and> \<not> fails (OpenFile path)"
  by (auto simp: open_read_def split: option.splits)

lemma capture_ok:
  "capture E L b raw w = (Inr (), w') \<Longrightarrow> \<exists>out. tar_output E b out \<and> disk w' raw = Some out"
  unfolding tar_output_def
  by (auto simp: capture_def Exec_def bind_iffs api_iffs local_iffs close_raw_def create_raw_def split: if_splits)

lemma place_ok:
  assumes "place E L b name destDir enc dataFile w = (Inr p, w')"
  shows "p = final_path L destDir name \<and> disk w p = None \<and>
     (\<exists>payload contents. disk w dataFile = Some payload \<and> disk w' p = Some contents \<and>
        container_of (containers L) (backup_meta E L b name enc) payload contents)"
proof -
  let ?staging = "staging_path L destDir name" and ?final = "final_path L destDir name"
  obtain fs1 where staged: "writeTx9Staged L (writer_part L (events w)) ?staging (backup_meta E L b name enc)
      dataFile (file_fails L (events w)) (disk w) = (Inr (), fs1)"
    and linked: "link_final ?staging ?final (file_fails L (events w)) fs1 = (Inr (), disk w')"
    and p: "p = ?final"
    using assms by (auto simp: place_def bind_iffs local_iffs)
  obtain out where out: "WriteTx9 (containers L) (file_fails L (events w)) (writer_part L (events w))
      (backup_meta E L b name enc) dataFile (disk w) = (Inr (), out)" "fs1 = (disk w)(?staging \<mapsto> out)"
    using staged
    by (cases "WriteTx9 (containers L) (file_fails L (events w)) (writer_part L (events w))
      (backup_meta E L b name enc) dataFile (disk w)") (auto simp: writeTx9Staged_def write_new_ok)
  then show ?thesis using linked p
    by (auto simp: WriteTx9_ok open_read_Inr link_final_def remove_file_def split: if_splits
        dest!: sym [where t = "disk w'"])
qed

lemma validated:
  "validateFileAsDataTar L path fails fs = Inr () \<longleftrightarrow>
     (\<exists>c. open_read fails path fs = Inr c \<and> ValidateDataTar maxArchiveMembers (as_tar_gz L c) = Inr ())"
  by (auto simp: validateFileAsDataTar_def result_bind_Inr_iff)

lemma encrypt_raw_ok:
  assumes "encrypt_raw L raw encPath passphrase w = (Inr (), w')"
  shows "\<exists>c out. disk w raw = Some c \<and> disk w' encPath = Some out \<and> sealed L passphrase c out"
proof -
  obtain fs1 where enc: "Encrypt (gpg L) (file_fails L (events w)) raw encPath passphrase (disk w) = (Inr (), fs1)"
    and ver: "VerifyEncrypted (gpg L) (as_tar_gz L) encPath passphrase fs1 = Inr ()" and w': "disk w' = fs1"
    using assms by (auto simp: encrypt_raw_def bind_iffs local_iffs)
  obtain c out where c: "disk w raw = Some c" and out: "fs1 = (disk w)(encPath \<mapsto> out)"
    "gpg_program (gpg L) gpgArgsEncrypt (gpg_env (gpg L)) (passphrase @ [CHR 0x0A]) c = (out, True)"
    using Encrypt_ok [OF enc] by (auto simp: open_read_Inr)
  obtain dec where "DecryptStream (gpg L) encPath passphrase fs1 = (Inr (), dec)"
    and "listTarGz (as_tar_gz L dec) = Inr ()"
    using ver by (auto simp: VerifyEncrypted_ok)
  then have "sealed L passphrase c out"
    using out by (auto simp: sealed_def DecryptStream_def dest!: runGPG_call)
  then show ?thesis using c out w' by auto
qed

lemma backup_archive_ok:
  assumes run: "backup_archive E L b name destDir enc passphrase raw w = (Inr p, w')"
    and "final_path L destDir name \<noteq> raw @ ''.gpg''" and "final_path L destDir name \<noteq> raw"
  shows "p = final_path L destDir name \<and>
    (\<exists>contents. disk w' p = Some contents \<and> saved_backup E L name enc passphrase contents)"
proof -
  obtain w1 where cap: "capture E L b raw w = (Inr (), w1)"
    and val: "validateFileAsDataTar L raw (file_fails L (events w1)) (disk w1) = Inr ()"
    and rest: "(if enc then with_defer (bind_comp (encrypt_raw L raw (raw @ ''.gpg'') passphrase)
        (\<lambda>_. place E L b name destDir enc (raw @ ''.gpg''))) (remove_one L (raw @ ''.gpg''))
      else place E L b name destDir enc raw) w1 = (Inr p, w')"
    using run by (auto simp: backup_archive_def bind_iffs local_iffs)
  obtain out where out: "tar_output E b out" "disk w1 raw = Some out"
    "ValidateDataTar maxArchiveMembers (as_tar_gz L out) = Inr ()"
    using capture_ok [OF cap] val by (auto simp: validated open_read_Inr)
  show ?thesis
  proof (cases enc)
    case False
    then have "place E L b name destDir False raw w1 = (Inr p, w')" using rest by simp
    from place_ok [OF this] show ?thesis using out False unfolding saved_backup_def by auto
  next
    case True
    obtain w2 w3 where enc: "encrypt_raw L raw (raw @ ''.gpg'') passphrase w1 = (Inr (), w2)"
      and pl: "place E L b name destDir True (raw @ ''.gpg'') w2 = (Inr p, w3)"
      and w': "w' = remove_one L (raw @ ''.gpg'') w3"
      using rest True by (auto simp: with_defer_def bind_iffs split: prod.splits)
    obtain payload where payload: "disk w2 (raw @ ''.gpg'') = Some payload" "sealed L passphrase out payload"
      using encrypt_raw_ok [OF enc] out by auto
    obtain contents where p: "p = final_path L destDir name" "disk w3 p = Some contents"
      "container_of (containers L) (backup_meta E L b name True) payload contents"
      using place_ok [OF pl] payload by auto
    have "disk w' p = Some contents"
      using p assms(2) w' by (simp add: remove_one_def remove_file_def)
    then show ?thesis using p out payload True unfolding saved_backup_def by auto
  qed
qed

lemma backup_snapshot_ok:
  assumes run: "backup_snapshot E L b tok name destDir enc passphrase w = (Inr p, w')"
    and temp: "\<not> in_temp L (final_path L destDir name)"
  shows "p = final_path L destDir name \<and>
    (\<exists>contents. disk w' p = Some contents \<and> saved_backup E L name enc passphrase contents)"
proof -
  obtain tmp w1 w2 h where ar: "backup_archive E L b name destDir enc passphrase (Join2 tmp ''data.tar.gz'') w1 = (Inr p, w2)"
    and tmp: "temp_dir L h = Some tmp" and w': "w' = remove_all L tmp w2"
    using run by (auto simp: backup_snapshot_def bind_iffs with_defer_iff make_temp_iff)
  have far: "\<not> temp_file tmp (final_path L destDir name)" using temp tmp by (auto simp: in_temp_def)
  then show ?thesis using backup_archive_ok [OF ar] w'
    by (auto simp: temp_file_def remove_all_def)
qed

lemma quiesced_run_ok:
  assumes "quiesced_run E b tok S w = (Inr p, w')"
  obtains w1 w2 where "S w1 = (Inr p, w2)" and "disk w' = disk w2"
  using assms keeps_disk_HB(1) [of E b tok "[''resume'']"]
  by (auto simp: quiesced_run_def bind_iffs with_defer_iff resume_def keeps_def Let_def split: prod.splits if_splits)

text \<open>a backup that succeeds leaves at the final name a container of what the tar in the
  agent printed when it exited with 0; that data passed the validator, and an encrypted payload is
  what gpg made of it and was decrypted again to a readable archive.\<close>

text \<open>C5: a backup that succeeds leaves at the final name a container of what the tar in the
  agent printed when it exited with 0; that data passed the validator, and an encrypted payload is
  what gpg made of it and was decrypted again to a readable archive.\<close>

theorem backup_saved:
  assumes "backup_body E L name destDir enc passphrase w = (Inr p, w')"
    and "\<not> in_temp L (final_path L destDir name)"
  shows "p = final_path L destDir name \<and>
    (\<exists>contents. disk w' p = Some contents \<and> saved_backup E L name enc passphrase contents)"
proof -
  obtain b tok w1 where "quiesced_run E b tok (backup_snapshot E L b tok name destDir enc passphrase) w1 = (Inr p, w')"
    using assms(1) by (auto simp: backup_body_runs bind_iffs split: if_splits)
  then obtain w2 w3 where "backup_snapshot E L b tok name destDir enc passphrase w2 = (Inr p, w3)"
    and "disk w' = disk w3"
    by (rule quiesced_run_ok)
  then show ?thesis using backup_snapshot_ok assms(2) by metis
qed

theorem backup_saved_witness:
  "\<exists>contents. saved_backup (demo box_daemon) demo_tools ''a'' True ''pw'' contents"
proof -
  let ?run = "backup_body (demo box_daemon) demo_tools ''a'' ''/d'' True ''pw'' token_world"
  have "isl (fst ?run) = False" by code_simp
  then obtain p w' where run: "?run = (Inr p, w')" using returned by blast
  have "final_path demo_tools ''/d'' ''a'' = ''/d/a-1.tx9''" by code_simp
  moreover have "\<not> temp_file ''/tmp/t'' ''/d/a-1.tx9''" by code_simp
  ultimately have "\<not> in_temp demo_tools (final_path demo_tools ''/d'' ''a'')"
    by (simp add: in_temp_def demo_tools_def)
  from backup_saved [OF run this] show ?thesis by blast
qed

end
