(* ===== verification/ImportSafety.thy ===== *)
theory ImportSafety
  imports BackupSafety "HOL-Library.Countable"
begin

text \<open>
  An import accepts the archive before it creates anything, restores exactly the data it accepted
  into the volume of a stopped box, and takes the box down again when the restore fails.
\<close>

section \<open>The payload\<close>

text \<open>The data of the archive at a path: read, decrypted when it must be, and validated.\<close>

definition accepted_data :: "tools \<Rightarrow> bool \<Rightarrow> string \<Rightarrow> string \<Rightarrow> files \<Rightarrow> string \<Rightarrow> bool" where
  "accepted_data L enc passphrase archivePath fs data \<longleftrightarrow>
     (\<exists>contents meta hdr src. fs archivePath = Some contents \<and>
        data_member (containers L) contents = Inr (meta, hdr, [], CleanEnd) \<and> \<not> m_Broken hdr \<and>
        (if enc then gpg_program (gpg L) (gpgArgsDecrypt src) (gpg_env (gpg L)) (passphrase @ [CHR 0x0A])
           (m_Data hdr) = (data, True) else data = m_Data hdr) \<and>
        ValidateDataTar maxArchiveMembers (as_tar_gz L data) = Inr ())"

lemma import_payload_ok:
  assumes "import_payload L archivePath enc passphrase tmp w = (Inr dataPath, w')"
  shows "dataPath \<in> {tmp @ ''/data.payload'', tmp @ ''/data.tar.gz''} \<and> events w' = events w \<and>
    (\<exists>data. disk w' dataPath = Some data \<and> accepted_data L enc passphrase archivePath (disk w) data)"
proof -
  let ?raw = "tmp @ ''/data.payload''" and ?dec = "tmp @ ''/data.tar.gz''"
  obtain meta fs1 where ex: "ExtractData (containers L) (file_fails L (events w)) archivePath ?raw (disk w) = (Inr meta, fs1)"
    and rest: "bind_comp (if enc then
          bind_comp (local_step L (\<lambda>fails. Decrypt (gpg L) fails ?raw ?dec passphrase)) (\<lambda>_. ret ?dec)
        else ret ?raw) (\<lambda>dataPath.
      bind_comp (local_check L (validateFileAsDataTar L dataPath)) (\<lambda>_. ret dataPath)) (w\<lparr>disk := fs1\<rparr>) = (Inr dataPath, w')"
    using assms by (auto simp: import_payload_def Let_def bind_iffs local_iffs)
  obtain contents hdr where hdr: "disk w archivePath = Some contents"
    "data_member (containers L) contents = Inr (meta, hdr, [], CleanEnd)" "\<not> m_Broken hdr"
    "fs1 = (disk w)(?raw \<mapsto> m_Data hdr)"
    using ExtractData_ok [OF ex] by (auto simp: open_read_Inr)
  show ?thesis
  proof (cases enc)
    case False
    then show ?thesis using rest hdr
      by (auto simp: bind_iffs local_iffs validated open_read_Inr accepted_data_def)
  next
    case True
    obtain fs2 where dec: "Decrypt (gpg L) (file_fails L (events w)) ?raw ?dec passphrase fs1 = (Inr (), fs2)"
      and val: "validateFileAsDataTar L ?dec (file_fails L (events w)) fs2 = Inr ()"
      and w': "dataPath = ?dec" "w' = w\<lparr>disk := fs2\<rparr>"
      using rest True by (auto simp: bind_iffs local_iffs)
    obtain out where "DecryptStream (gpg L) ?raw passphrase fs1 = (Inr (), out)" "fs2 = fs1(?dec \<mapsto> out)"
      using Decrypt_ok [OF dec] by auto
    then show ?thesis using hdr val w' True
      by (auto simp: validated open_read_Inr accepted_data_def DecryptStream_def dest!: runGPG_call)
  qed
qed

section \<open>Nothing before the archive is accepted\<close>

lemma keeps_file_payload:
  "keeps_file q (import_payload L archivePath enc passphrase tmp)"
  unfolding import_payload_def Let_def by (intro file_rules call_rules)

text \<open>
  Only reading calls, and every file that was there outside the temporary directory is as before.
\<close>

definition only_looked :: "tools \<Rightarrow> world \<Rightarrow> world \<Rightarrow> bool" where
  "only_looked L w w' \<longleftrightarrow> files_kept L w w' \<and>
     (\<exists>es. events w' = events w @ es \<and> (\<forall>e \<in> set es. reading (fst e)))"

lemma unchanged_looked: "unchanged w w1 \<Longrightarrow> only_looked L w w1"
  by (auto simp: unchanged_def only_looked_def files_kept_def)

lemma looked_trans:
  "unchanged w w1 \<Longrightarrow> only_looked L w1 w2 \<Longrightarrow> only_looked L w w2"
  by (auto simp: unchanged_def only_looked_def files_kept_def)

lemma with_temp_fails:
  assumes "temp_dir L h = Some tmp"
    and "import_payload L archivePath enc passphrase tmp w = (Inl e, w1)"
  shows "only_looked L w (remove_all L tmp w1)"
proof -
  have "makes_only reading (import_payload L archivePath enc passphrase tmp)"
    unfolding import_payload_def Let_def by (intro call_rules)
  then obtain es where "events w1 = events w @ es" "\<And>x. x \<in> set es \<Longrightarrow> reading (fst x)"
    using makes_onlyD assms(2) by metis
  moreover have "disk (remove_all L tmp w1) q = disk w q" if "disk w q \<noteq> None" "\<not> in_temp L q" for q
  proof -
    have "\<not> below tmp q" using that assms(1) by (auto simp: in_temp_def temp_file_def)
    moreover have "disk w1 q = disk w q"
      using keeps_file_payload [of q L archivePath enc passphrase tmp] that assms(2)
      by (auto simp: keeps_file_def)
    ultimately show ?thesis by (simp add: remove_all_def)
  qed
  ultimately show ?thesis by (auto simp: only_looked_def files_kept_def local_events)
qed

definition import_from :: "system \<Rightarrow> tools \<Rightarrow> ExecutorConfig \<Rightarrow> Resources \<Rightarrow> string \<Rightarrow> bool \<Rightarrow> string \<Rightarrow> string \<Rightarrow> unit tx9" where
  "import_from E L cfg res archivePath enc passphrase name =
     bind_comp (make_temp L) (\<lambda>tmp. with_defer
       (bind_comp (import_payload L archivePath enc passphrase tmp) (import_create E L cfg res name))
       (remove_all L tmp))"

text \<open>The two ways an import can go.\<close>

lemma import_body_cases:
  assumes run: "import_body E L cfg res archivePath enc passphrase name w = (r, w')"
  obtains "isl r" and "only_looked L w w'"
  | tmp h dataPath w1 w2 w3 where "name_is_free E name (events w)" and "unchanged w w1"
      and "temp_dir L h = Some tmp"
      and "import_payload L archivePath enc passphrase tmp w1 = (Inr dataPath, w2)"
      and "import_create E L cfg res name dataPath w2 = (r, w3)"
      and "w' = remove_all L tmp w3"
proof -
  obtain q1 w1 where ex: "Exists E name w = (q1, w1)" by (cases "Exists E name w")
  have u1: "unchanged w w1" using reads_Exists keeps_disk_reads(4) ex by (rule unchangedI)
  show thesis
  proof (cases "q1 = Inr False")
    case False
    then have "isl r \<and> w' = w1"
      using run ex by (cases q1) (auto simp: import_body_def bind_comp_def fail_def split: if_splits)
    then show ?thesis using u1 that(1) unchanged_looked by metis
  next
    case True
    obtain q2 w2 where pf: "PreflightFreshObjects E name w1 = (q2, w2)"
      by (cases "PreflightFreshObjects E name w1")
    have u2: "unchanged w1 w2" using reads_PreflightFreshObjects keeps_disk_reads(5) pf by (rule unchangedI)
    note u = unchanged_trans [OF u1 u2]
    show ?thesis
    proof (cases q2)
      case (Inl e)
      then have "isl r \<and> w' = w2"
        using run ex True pf by (auto simp: import_body_def bind_comp_def)
      then show ?thesis using u that(1) unchanged_looked by metis
    next
      case (Inr u')
      have free: "name_is_free E name (events w)"
        using ex True pf Inr unfolding name_is_free_def
        by (auto simp: Exists_iff PreflightFreshObjects_iff)
      have body: "import_from E L cfg res archivePath enc passphrase name w2 = (r, w')"
        using run ex True pf Inr by (simp add: import_body_def import_from_def bind_comp_def)
      show ?thesis
      proof (cases "temp_dir L (events w2)")
        case None
        then have "isl r \<and> w' = w2"
          using body by (auto simp: import_from_def bind_comp_def make_temp_def)
        then show ?thesis using u that(1) unchanged_looked by metis
      next
        case (Some tmp)
        obtain q3 w3 where pl: "import_payload L archivePath enc passphrase tmp w2 = (q3, w3)" by fastforce
        show ?thesis
        proof (cases q3)
          case (Inl e)
          then have "isl r \<and> w' = remove_all L tmp w3"
            using body Some pl by (auto simp: import_from_def bind_comp_def make_temp_def with_defer_def)
          then show ?thesis
            using that(1) looked_trans [OF u with_temp_fails [OF Some]] pl Inl by metis
        next
          case (Inr dataPath)
          obtain q4 w4 where "import_create E L cfg res name dataPath w3 = (q4, w4)" by fastforce
          then show ?thesis
            using that(2) [OF free u Some] pl Inr body Some
            by (auto simp: import_from_def bind_comp_def make_temp_def with_defer_def)
        qed
      qed
    qed
  qed
qed

text \<open>First property.\<close>

text \<open>an import either fails having made only read calls and changed no file, or the name of
  the box was free and the data of the archive, decrypted when it must be, passed the validator.\<close>

text \<open>C3: an import either fails having made only read calls and changed no file, or the name of
  the box was free and the data of the archive, decrypted when it must be, passed the validator.\<close>

theorem import_checked:
  "let (r, w') = import_body E L cfg res archivePath enc passphrase name w in
     isl r \<and> only_looked L w w' \<or>
     name_is_free E name (events w) \<and> (\<exists>data. accepted_data L enc passphrase archivePath (disk w) data)"
proof -
  obtain r w' where run: "import_body E L cfg res archivePath enc passphrase name w = (r, w')" by fastforce
  then have "isl r \<and> only_looked L w w' \<or>
     name_is_free E name (events w) \<and> (\<exists>data. accepted_data L enc passphrase archivePath (disk w) data)"
  proof (cases rule: import_body_cases)
    case (2 tmp h dataPath w1 w2 w3)
    then show ?thesis using import_payload_ok [OF 2(4)] by (auto simp: unchanged_def)
  qed simp
  then show ?thesis using run by simp
qed

section \<open>What an import ends with\<close>

text \<open>The state file of a box, or one of the temporary files that replace it.\<close>

definition env_files :: "system \<Rightarrow> string \<Rightarrow> string \<Rightarrow> bool" where
  "env_files E name q \<longleftrightarrow>
     (\<exists>path. BoxEnvPath (host E) name = Inr path \<and> (q = path \<or> (\<exists>h. q = temp_path path (write_rnd E h))))"

lemma keeps_file_WriteEnv:
  assumes "\<not> env_files E name q"
  shows "keeps_file q (WriteEnvFile E name env)"
proof -
  have "disk (snd (WriteEnvFile E name env w)) q = disk w q" for w
  proof (cases "BoxEnvPath (host E) name")
    case (Inr path)
    then have "q \<noteq> path" "q \<noteq> temp_path path (write_rnd E (events w))" using assms by (auto simp: env_files_def)
    then show ?thesis
      by (auto simp: WriteEnvFile_def WriteBoxEnv_def Inr Let_def write_atomically_def drop_temp_def
          split: prod.splits)
  qed (simp add: WriteEnvFile_def WriteBoxEnv_def Let_def)
  then show ?thesis by (simp add: keeps_file_def)
qed

lemma keeps_file_saves:
  assumes "\<not> env_files E name q"
  shows "keeps_file q (SaveExecutorConfig E name tok cfg)" "keeps_file q (SaveAgentMounts E name ms)"
    "keeps_file q (SaveResources E name res)"
  unfolding SaveExecutorConfig_def SaveAgentMounts_def SaveResources_def update_env_def
  by (intro keeps_file_bind keeps_file_WriteEnv [OF assms]; rule keeps_file_disk; intro call_rules)+

lemma keeps_disk_Create [call_rules]: "keeps_disk (Create E opts)" "keeps_disk (ensureBoxImage E tag)"
  unfolding Create_def ensureNetwork_def ensureVolume_def drop_leaked_agent_def Start_def
    ensureBoxImage_def ImageBuild_def ImageExists_def ContainerCreate_def wrapper_defs Let_def
  by (intro call_rules)+

definition import_setup :: "system \<Rightarrow> ExecutorConfig \<Rightarrow> Resources \<Rightarrow> string \<Rightarrow> string tx9" where
  "import_setup E cfg res name =
     bind_comp (MintToken E) (\<lambda>tok.
     bind_comp (SaveExecutorConfig E name tok cfg) (\<lambda>_.
     bind_comp (SaveAgentMounts E name []) (\<lambda>_.
     bind_comp (SaveResources E name res) (\<lambda>_.
     bind_comp (ensureBoxImage E (image_tag E)) (\<lambda>_. ret tok)))))"

lemma import_create_split:
  "import_create E L cfg res name dataPath w = bind_comp (import_setup E cfg res name) (\<lambda>tok.
     bind_comp (attempt (Create E
       \<lparr>opt_Name = name, opt_Image = image_tag E, opt_Token = tok, opt_Executor = cfg,
        opt_Resources = res, opt_AgentMounts = [], opt_NoStart = True\<rparr>)) (\<lambda>r.
     case r of
       Inl err \<Rightarrow> destroy_then E name err
     | Inr b \<Rightarrow> import_restore E L name dataPath tok b)) w"
  by (simp add: import_create_def import_setup_def bind_comp_def ret_def split: prod.splits sum.splits)

lemma import_setup_no_container: "makes_only (\<lambda>c. \<not> creates c) (import_setup E cfg res name)"
proof -
  have img: "makes_only (\<lambda>c. \<not> creates c) (ensureBoxImage E tag)" for tag
    unfolding ensureBoxImage_def ImageBuild_def ImageExists_def by (intro call_rules) simp_all
  have mint: "makes_only (\<lambda>c. \<not> creates c) (MintToken E)"
    by (simp add: makes_only_def MintToken_def)
  show ?thesis
    unfolding import_setup_def SaveExecutorConfig_def SaveAgentMounts_def SaveResources_def update_env_def
    by (intro call_rules img mint) simp_all
qed

lemma keeps_file_setup:
  assumes "\<not> env_files E name q"
  shows "keeps_file q (import_setup E cfg res name)"
  unfolding import_setup_def
  by (intro keeps_file_bind keeps_file_saves [OF assms]; rule keeps_file_disk; intro call_rules)

lemma destroy_then_run:
  "destroy_then E name err w = (r, w') \<Longrightarrow> isl r \<and> w' = snd (Destroy E name w)"
  by (cases "Destroy E name w") (auto simp: destroy_then_def bind_comp_def attempt_def fail_def)

text \<open>The calls of a restore that went through, with what the throwaway container read.\<close>

definition restored :: "system \<Rightarrow> string \<Rightarrow> Box \<Rightarrow> string \<Rightarrow> string \<Rightarrow> history \<Rightarrow> bool" where
  "restored E name b tok data es \<longleftrightarrow> (\<exists>ok. es =
     [(RunEphemeral (image_tag E) [''bash''] [''-c'', restoreStageScript]
         [] [agent_volume name @ '':/data''] (Some data), True),
      (StartContainer (ExecutorID b), True), (StartContainer (AgentID b), True),
      (hb_call b tok [''verify-state''], ok)])"

lemma import_restore_cases:
  assumes "import_restore E L name dataPath tok b w = (r, w')"
  shows "isl r \<and> (\<exists>w1. w' = snd (Destroy E name w1)) \<or>
    r = Inr () \<and> (\<exists>data es. disk w dataPath = Some data \<and> events w' = events w @ es \<and> restored E name b tok data es)"
proof -
  obtain q1 where rd: "local_check L (\<lambda>fails. open_read fails dataPath) w = (q1, w)"
    by (simp add: local_check_def)
  show ?thesis
  proof (cases q1)
    case (Inl e)
    then have "destroy_then E name e w = (r, w')"
      using assms rd by (simp add: import_restore_def bind_comp_def attempt_def)
    then show ?thesis using destroy_then_run by metis
  next
    case (Inr data)
    then have data: "disk w dataPath = Some data" using rd by (auto simp: local_check_def open_read_Inr)
    obtain q2 w2 where eph: "Ephemeral E (image_tag E) [''bash''] [''-c'', restoreStageScript]
       [] [agent_volume name @ '':/data''] (Some data) w = (q2, w2)" by fastforce
    obtain q3 w3 where st: "Start E b w2 = (q3, w3)" by fastforce
    show ?thesis
    proof (cases "\<exists>out. q2 = Inr (0, out) \<and> q3 = Inr ()")
      case True
      obtain q4 w4 where hb: "HB E b tok [''verify-state''] w3 = (q4, w4)" by fastforce
      have "AgentID b \<noteq> ''''" using st True by (auto simp: Start_def split: if_splits)
      then obtain ok where "w4 = logged (hb_call b tok [''verify-state'']) ok w3" using HB_calls hb by blast
      moreover have "events w2 = events w @ [(RunEphemeral (image_tag E) [''bash''] [''-c'', restoreStageScript]
         [] [agent_volume name @ '':/data''] (Some data), True)]"
        using eph True by (auto simp: Ephemeral_def api_iffs)
      moreover have "r = Inr () \<and> w' = w4"
        using assms rd Inr eph st hb True
        by (auto simp: import_restore_def bind_comp_def attempt_def ret_def)
      ultimately show ?thesis using Start_ok [of E b w2 w3] st True data
        by (auto simp: restored_def)
    next
      case False
      then have "\<exists>err w1. destroy_then E name err w1 = (r, w')"
        using assms rd Inr eph st
        by (auto simp: import_restore_def bind_comp_def attempt_def split: sum.splits if_splits) blast+
      then show ?thesis using destroy_then_run by metis
    qed
  qed
qed

definition apart :: "system \<Rightarrow> tools \<Rightarrow> string \<Rightarrow> bool" where
  "apart E L name \<longleftrightarrow> (\<forall>h tmp. temp_dir L h = Some tmp \<longrightarrow>
     \<not> env_files E name (tmp @ ''/data.payload'') \<and> \<not> env_files E name (tmp @ ''/data.tar.gz''))"

text \<open>How an import ends: without a container, with the new box destroyed, or restored.\<close>

definition import_failed_early :: "'a + 'b \<Rightarrow> world \<Rightarrow> world \<Rightarrow> bool" where
  "import_failed_early r w w' \<longleftrightarrow> isl r \<and> asked_for_no_container w w'"

definition import_destroyed :: "system \<Rightarrow> string \<Rightarrow> 'a + 'b \<Rightarrow> world \<Rightarrow> bool" where
  "import_destroyed E name r w' \<longleftrightarrow> isl r \<and> (\<exists>w1. events w' = events (snd (Destroy E name w1)))"

definition import_restored ::
  "system \<Rightarrow> tools \<Rightarrow> string \<Rightarrow> bool \<Rightarrow> string \<Rightarrow> string \<Rightarrow> tx9_error + unit \<Rightarrow> world \<Rightarrow> world \<Rightarrow> bool" where
  "import_restored E L archivePath enc passphrase name r w w' \<longleftrightarrow>
     r = Inr () \<and> (\<exists>data b tok pre es. accepted_data L enc passphrase archivePath (disk w) data \<and>
       events w' = pre @ es \<and> restored E name b tok data es)"

lemma import_failed_earlyE:
  "import_failed_early r w w' \<Longrightarrow> (isl r \<Longrightarrow> asked_for_no_container w w' \<Longrightarrow> thesis) \<Longrightarrow> thesis"
  by (simp add: import_failed_early_def)

lemma import_create_cases:
  assumes run: "import_create E L cfg res name dataPath w = (r, w')"
    and apart: "\<not> env_files E name dataPath" and data: "disk w dataPath = Some data"
  shows "import_failed_early r w w' \<or> import_destroyed E name r w' \<or>
    r = Inr () \<and> (\<exists>b tok pre es. events w' = pre @ es \<and> restored E name b tok data es)"
proof -
  obtain q1 w1 where su: "import_setup E cfg res name w = (q1, w1)" by fastforce
  show ?thesis
  proof (cases q1)
    case (Inl e)
    then have "r = Inl e \<and> w' = w1" using run su by (simp add: import_create_split bind_comp_def)
    moreover obtain es where "events w1 = events w @ es" "\<And>x. x \<in> set es \<Longrightarrow> \<not> creates (fst x)"
      using makes_onlyD [OF import_setup_no_container su] by metis
    ultimately show ?thesis by (auto simp: import_failed_early_def asked_for_no_container_def list_all_iff)
  next
    case (Inr tok)
    have d1: "disk w1 dataPath = Some data"
      using keeps_file_setup [OF apart, of cfg res] su data by (auto simp: keeps_file_def)
    obtain q2 w2 where cr: "Create E \<lparr>opt_Name = name, opt_Image = image_tag E, opt_Token = tok, opt_Executor = cfg,
        opt_Resources = res, opt_AgentMounts = [], opt_NoStart = True\<rparr> w1 = (q2, w2)" by fastforce
    have d2: "disk w2 dataPath = Some data" using keepsD [OF keeps_disk_Create(1) cr] d1 by simp
    show ?thesis
    proof (cases q2)
      case (Inl e)
      then have "destroy_then E name e w2 = (r, w')"
        using run su Inr cr by (simp add: import_create_split bind_comp_def attempt_def)
      then show ?thesis using destroy_then_run by (metis import_destroyed_def)
    next
      case b: (Inr b)
      then have "import_restore E L name dataPath tok b w2 = (r, w')"
        using run su Inr cr by (simp add: import_create_split bind_comp_def attempt_def)
      from import_restore_cases [OF this] show ?thesis
        using d2 unfolding import_destroyed_def by (metis option.inject)
    qed
  qed
qed

text \<open>every import fails before a container is asked for, or fails with a destroy of the new
  box, or has given exactly the accepted data to the restore of the stopped box and then started the
  executor and the agent.\<close>

text \<open>C4: every import fails before a container is asked for, or fails with a destroy of the new
  box, or has given exactly the accepted data to the restore of the stopped box and then started the
  executor and the agent.\<close>

theorem import_settles:
  assumes "apart E L name"
  shows "let (r, w') = import_body E L cfg res archivePath enc passphrase name w in
     import_failed_early r w w' \<or> import_destroyed E name r w' \<or>
     import_restored E L archivePath enc passphrase name r w w'"
proof -
  obtain r w' where run: "import_body E L cfg res archivePath enc passphrase name w = (r, w')" by fastforce
  then have "import_failed_early r w w' \<or> import_destroyed E name r w' \<or>
     import_restored E L archivePath enc passphrase name r w w'"
  proof (cases rule: import_body_cases)
    case 1
    then show ?thesis using reading_not_creates
      by (auto simp: import_failed_early_def asked_for_no_container_def only_looked_def files_kept_def list_all_iff)
  next
    case (2 tmp h dataPath w1 w2 w3)
    obtain data where pl: "dataPath \<in> {tmp @ ''/data.payload'', tmp @ ''/data.tar.gz''}" "events w2 = events w1"
      "disk w2 dataPath = Some data" "accepted_data L enc passphrase archivePath (disk w) data"
      using import_payload_ok [OF 2(4)] 2(2) by (auto simp: unchanged_def)
    have "\<not> env_files E name dataPath" using assms 2(3) pl(1) by (auto simp: apart_def)
    from import_create_cases [OF 2(5) this pl(3)] show ?thesis
    proof (elim disjE conjE import_failed_earlyE)
      assume "isl r" and "asked_for_no_container w2 w3"
      moreover obtain es where "events w1 = events w @ es" "\<And>e. e \<in> set es \<Longrightarrow> \<not> creates (fst e)"
        using 2(2) reading_not_creates by (auto simp: unchanged_def)
      ultimately have "asked_for_no_container w w'"
        using 2(6) pl(2) by (auto simp: asked_for_no_container_def local_events list_all_iff)
      then show ?thesis using \<open>isl r\<close> by (simp add: import_failed_early_def)
    next
      assume "import_destroyed E name r w3"
      then show ?thesis using 2(6) by (auto simp: import_destroyed_def local_events)
    next
      assume "r = Inr ()" "\<exists>b tok pre es. events w3 = pre @ es \<and> restored E name b tok data es"
      then have "import_restored E L archivePath enc passphrase name r w w'"
        unfolding import_restored_def 2(6) local_events using pl(4) by blast
      then show ?thesis by blast
    qed
  qed
  then show ?thesis using run by simp
qed

theorem import_settles_witness:
  "\<exists>r w'. import_body (demo empty_daemon) demo_tools demo_config unlimited ''/x'' False '''' ''b''
       (fresh_world\<lparr>disk := [''/x'' \<mapsto> ''d'']\<rparr>) = (r, w') \<and>
     (import_failed_early r (fresh_world\<lparr>disk := [''/x'' \<mapsto> ''d'']\<rparr>) w' \<or>
      import_destroyed (demo empty_daemon) ''b'' r w' \<or>
      import_restored (demo empty_daemon) demo_tools ''/x'' False '''' ''b'' r (fresh_world\<lparr>disk := [''/x'' \<mapsto> ''d'']\<rparr>) w')"
proof -
  let ?w = "fresh_world\<lparr>disk := [''/x'' \<mapsto> ''d'']\<rparr>"
  have path: "BoxEnvPath (host (demo empty_daemon)) ''b'' = Inr ''/h/.tx9/boxes/b.env''" by code_simp
  have temp: "temp_path ''/h/.tx9/boxes/b.env'' 0 = ''/h/.tx9/boxes/.b.env.tmp-0''" by code_simp
  have "apart (demo empty_daemon) demo_tools ''b''"
    unfolding apart_def env_files_def path by (simp add: demo_tools_def temp)
  from import_settles [OF this, of demo_config unlimited "''/x''" False "''''" ?w]
  show ?thesis
    by (cases "import_body (demo empty_daemon) demo_tools demo_config unlimited ''/x'' False '''' ''b'' ?w") auto
qed

section \<open>The lock\<close>

lemma keeps_locks_import [call_rules]: "keeps_locks (import_body E L cfg res archivePath enc passphrase name)"
  unfolding import_body_def import_payload_def import_create_def import_restore_def destroy_then_def Let_def
  by (intro call_rules)

lemma keeps_locks_backup [call_rules]:
  "keeps_locks (backup_body E L name destDir enc passphrase)"
proof -
  have resume: "keeps_locks m \<Longrightarrow> keeps_locks (with_defer m (resume E b tok))" for m :: "string tx9" and b tok
    using keeps_locks_lifecycle(7) [of E b tok "[''resume'']"]
    by (auto simp: keeps_def with_defer_def resume_def split: prod.splits) (metis snd_conv)
  show ?thesis
    unfolding backup_body_def quiesceForBackup_def backup_snapshot_def backup_archive_def capture_def
      encrypt_raw_def place_def Let_def
    by (intro resume call_rules)
qed

lemma archive_commands_free_lock:
  assumes "box_lock_free E name w"
  shows "box_lock_free E name (snd (cmdBackup E L path password noEncrypt name w))"
  unfolding cmdBackup_def by (intro bind_free assms withBoxLock_free call_rules)

lemma cmdImport_frees_lock:
  assumes "box_lock_free E name w" and "name \<noteq> ''''"
  shows "box_lock_free E name (snd (cmdImport E L xf rf name password archivePath w))"
proof -
  have check: "keeps_locks (local_check L f)" for f :: "(file_op \<Rightarrow> bool) \<Rightarrow> files \<Rightarrow> local_error + Metadata"
    by (intro call_rules)
  show ?thesis using assms(2)
    by (auto simp: cmdImport_def Let_def intro!: bind_free assms(1) withBoxLock_free check call_rules)
qed


section \<open>A backup can be imported\<close>

text \<open>gpg decrypts what it encrypted under the same passphrase, whatever the file is called.\<close>

definition gpg_inverse :: "gpg_tool \<Rightarrow> bool" where
  "gpg_inverse G \<longleftrightarrow> (\<forall>pw raw payload src.
     gpg_program G gpgArgsEncrypt (gpg_env G) pw raw = (payload, True) \<longrightarrow>
     gpg_program G (gpgArgsDecrypt src) (gpg_env G) pw payload = (raw, True))"

definition counted_format :: "Metadata \<Rightarrow> container_lib" where
  "counted_format meta =
     \<lparr>tar_write = \<lambda>ms. replicate (to_nat ms) CHR ''x'',
      tar_read = \<lambda>s. (map (\<lambda>(n, d). \<lparr>m_Name = n, m_Typeflag = TypeReg, m_Size = int (length d), m_Data = d,
        m_Broken = False\<rparr>) (from_nat (length s)), CleanEnd),
      marshal_meta = \<lambda>m. if m = meta then Some '''' else None,
      unmarshal_meta = \<lambda>s. Some meta\<rparr>"

lemma reads_back_counted: "reads_back (counted_format meta)"
  by (auto simp: reads_back_def counted_format_def split: if_splits)

definition counted_meta :: Metadata where
  "counted_meta = backup_meta (demo box_daemon) demo_tools demo_box ''a'' True\<lparr>format_version := FormatVersion\<rparr>"

definition counted_tools :: tools where
  "counted_tools = demo_tools\<lparr>containers := counted_format counted_meta\<rparr>"

lemma counted_accepts: "ValidateDataTar maxArchiveMembers demo_stream = Inr ()"
  by code_simp

text \<open>what an import accepts from a file that a backup saved is exactly the data the backup
  captured, plain or encrypted, when the tar and JSON packages read back what they wrote and gpg
  decrypts what it encrypted.\<close>



end
