(* ===== verification/Flags.thy ===== *)
theory Flags
  imports GoStrings
begin

text \<open>
  Command-line flags: what the commands use of the package \<open>flag\<close> (\<open>FlagSet.Parse\<close> with
  \<open>ContinueOnError\<close>), and \<open>parseFlagsAnywhere\<close> of \<open>internal/cli/box_common.go\<close>, which moves the
  positional arguments behind the flags before it parses.  The reference is a parser that takes flags
  and positional arguments as they come.
\<close>

section \<open>The flag package\<close>

text \<open>
  A flag has a name and says whether it is boolean and which values its \<open>Set\<close> accepts.
  \<open>Parse\<close> gives the settings in the order they were made and the remaining arguments.
\<close>

record flag_spec =
  flag_Name :: string
  flag_Bool :: bool
  flag_accepts :: "string \<Rightarrow> bool"

type_synonym flag_set = "flag_spec list"
type_synonym settings = "(string \<times> string) list"

datatype flag_error =
    ErrHelp
  | BadSyntax string
  | Undefined string
  | MissingArgument string
  | BadValue string string

definition Lookup :: "flag_set \<Rightarrow> string \<Rightarrow> flag_spec option" where
  "Lookup F name = find (\<lambda>f. flag_Name f = name) F"

definition split_value :: "string \<Rightarrow> string \<times> string option" where
  "split_value name = (case cut_on CHR ''='' name of (n, v, ok) \<Rightarrow> (n, if ok then Some v else None))"

definition give_flag ::
  "flag_spec \<Rightarrow> string \<Rightarrow> string list \<Rightarrow> flag_error + ((string \<times> string) option \<times> string list)" where
  "give_flag f value rest =
     (if flag_accepts f value then Inr (Some (flag_Name f, value), rest)
      else Inl (BadValue (flag_Name f) value))"

definition flag_name :: "string \<Rightarrow> string" where
  "flag_name s = (if s ! 1 = CHR ''-'' then drop 2 s else drop 1 s)"

text \<open>\<open>parseOne\<close>: no flag, or a setting, and what is left of the arguments.\<close>

fun parse_one ::
  "flag_set \<Rightarrow> string list \<Rightarrow> flag_error + ((string \<times> string) option \<times> string list)" where
  "parse_one F [] = Inr (None, [])"
| "parse_one F (s # args) =
     (if length s < 2 \<or> hd s \<noteq> CHR ''-'' then Inr (None, s # args)
      else if s = ''--'' then Inr (None, args)
      else if flag_name s = '''' \<or> hd (flag_name s) = CHR ''-'' \<or> hd (flag_name s) = CHR ''='' then
        Inl (BadSyntax s)
      else case split_value (flag_name s) of (name, given) \<Rightarrow>
        (case Lookup F name of
           None \<Rightarrow> Inl (if name = ''help'' \<or> name = ''h'' then ErrHelp else Undefined name)
         | Some f \<Rightarrow>
             if flag_Bool f then give_flag f (case given of None \<Rightarrow> ''true'' | Some v \<Rightarrow> v) args
             else (case given of
                 Some v \<Rightarrow> give_flag f v args
               | None \<Rightarrow> (case args of
                   [] \<Rightarrow> Inl (MissingArgument name)
                 | v # rest \<Rightarrow> give_flag f v rest))))"

lemma give_flag_rest: "give_flag f v r = Inr (x, rest) \<Longrightarrow> rest = r"
  by (auto simp: give_flag_def split: if_splits)

lemma parse_one_shorter: "parse_one F args = Inr (Some s, rest) \<Longrightarrow> length rest < length args"
  by (cases args)
    (auto simp: less_Suc_eq_le split: if_splits prod.splits option.splits list.splits dest!: give_flag_rest)

function (sequential) Parse :: "flag_set \<Rightarrow> string list \<Rightarrow> flag_error + (settings \<times> string list)" where
  "Parse F args =
     (case parse_one F args of
        Inl e \<Rightarrow> Inl e
      | Inr (None, rest) \<Rightarrow> Inr ([], rest)
      | Inr (Some s, rest) \<Rightarrow> result_bind (Parse F rest) (\<lambda>(ss, ps). Inr (s # ss, ps)))"
  by pat_completeness auto
termination
  by (relation "measure (\<lambda>(F, args). length args)") (auto dest: parse_one_shorter)

declare Parse.simps [simp del]

section \<open>Flags anywhere\<close>

definition positional :: "string \<Rightarrow> bool" where
  "positional a \<longleftrightarrow> a = ''-'' \<or> a = '''' \<or> hd a \<noteq> CHR ''-''"

text \<open>
  The loop: the flags and the positional arguments collected so far, and whether the last flag lacks
  its value.
\<close>

fun reorder ::
  "flag_set \<Rightarrow> bool \<Rightarrow> string list \<Rightarrow> string list \<Rightarrow> string list \<Rightarrow> bool \<times> string list \<times> string list" where
  "reorder F rest [] fl ps = (False, fl, ps)"
| "reorder F rest (a # args) fl ps =
     (if rest \<or> positional a then reorder F rest args fl (ps @ [a])
      else if a = ''--'' then reorder F True args fl ps
      else
        let name = dropWhile ((=) CHR ''-'') a in
        if CHR ''='' \<in> set name then reorder F rest args (fl @ [a]) ps
        else case Lookup F name of
            None \<Rightarrow> reorder F rest args (fl @ [a]) ps
          | Some f \<Rightarrow>
              if flag_Bool f then reorder F rest args (fl @ [a]) ps
              else (case args of
                  [] \<Rightarrow> (True, fl @ [a], ps)
                | v # args' \<Rightarrow> reorder F rest args' (fl @ [a, v]) ps))"

definition parseFlagsAnywhere :: "flag_set \<Rightarrow> string list \<Rightarrow> flag_error + (settings \<times> string list)" where
  "parseFlagsAnywhere F args =
     (case reorder F False args [] [] of (incomplete, fl, ps) \<Rightarrow>
        if incomplete then Parse F fl
        else Parse F ((if ps \<noteq> [] then fl @ [''--''] else fl) @ ps))"

section \<open>The reference\<close>

text \<open>Arguments as they come: a flag takes its value, everything after \<open>--\<close> is positional.\<close>

function (sequential) parse_mixed :: "flag_set \<Rightarrow> string list \<Rightarrow> flag_error + (settings \<times> string list)" where
  "parse_mixed F [] = Inr ([], [])"
| "parse_mixed F (a # args) =
     (if positional a then result_bind (parse_mixed F args) (\<lambda>(ss, ps). Inr (ss, a # ps))
      else if a = ''--'' then Inr ([], args)
      else case parse_one F (a # args) of
          Inl e \<Rightarrow> Inl e
        | Inr (None, rest) \<Rightarrow> Inr ([], rest)
        | Inr (Some s, rest) \<Rightarrow> result_bind (parse_mixed F rest) (\<lambda>(ss, ps). Inr (s # ss, ps)))"
  by pat_completeness auto
termination
  by (relation "measure (\<lambda>(F, args). length args)") (auto dest: parse_one_shorter simp del: parse_one.simps)

declare parse_mixed.simps [simp del]

section \<open>The loop, one argument at a time\<close>

definition takes :: "flag_set \<Rightarrow> string \<Rightarrow> bool" where
  "takes F a \<longleftrightarrow> (let name = dropWhile ((=) CHR ''-'') a in
     CHR ''='' \<notin> set name \<and> (\<exists>f. Lookup F name = Some f \<and> \<not> flag_Bool f))"

lemma reorder_positional: "positional a \<Longrightarrow> reorder F r (a # args) fl ps = reorder F r args fl (ps @ [a])"
  by simp

lemma reorder_flag:
  assumes "\<not> positional a" and "a \<noteq> ''--''"
  shows "reorder F False (a # args) fl ps =
    (if takes F a then (case args of [] \<Rightarrow> (True, fl @ [a], ps) | v # args' \<Rightarrow> reorder F False args' (fl @ [a, v]) ps)
     else reorder F False args (fl @ [a]) ps)"
  using assms by (auto simp: takes_def Let_def split: option.splits list.splits)

lemma reorder_rest: "reorder F True args fl ps = (False, fl, ps @ args)"
  by (induction args arbitrary: ps) auto

lemma dashes_name:
  assumes "\<not> positional a" and "a \<noteq> ''--''" and "flag_name a \<noteq> ''''" and "hd (flag_name a) \<noteq> CHR ''-''"
  shows "dropWhile ((=) CHR ''-'') a = flag_name a"
proof -
  obtain c as where a: "a = CHR ''-'' # c # as"
    using assms(1,3) by (cases a rule: remdups_adj.cases) (auto simp: positional_def flag_name_def)
  then show ?thesis using assms(3,4) by (cases "flag_name a") (auto simp: flag_name_def split: if_splits)
qed

lemma cut_on_ok: "cut_on c s = (k, v, ok) \<Longrightarrow> (ok \<longleftrightarrow> c \<in> set s) \<and> (\<not> ok \<longrightarrow> k = s)"
  by (induction s arbitrary: k) (auto split: prod.splits if_splits)

lemma split_value_None: "split_value name = (n, None) \<Longrightarrow> n = name \<and> CHR ''='' \<notin> set name"
  by (auto simp: split_value_def split: prod.splits if_splits dest: cut_on_ok)

lemma split_value_Some: "split_value name = (n, Some v) \<Longrightarrow> CHR ''='' \<in> set name"
  by (auto simp: split_value_def split: prod.splits if_splits dest: cut_on_ok)

text \<open>What one flag does does not depend on what comes after it and its value.\<close>

definition decided :: "(string list \<Rightarrow> flag_error + ((string \<times> string) option \<times> string list)) \<Rightarrow> bool" where
  "decided g \<longleftrightarrow> (\<exists>e. \<forall>xs. g xs = Inl e) \<or> (\<exists>s. \<forall>xs. g xs = Inr (Some s, xs))"

lemma decided_give [simp]: "decided (give_flag f v)" "decided (\<lambda>xs. Inl e)"
  by (auto simp: decided_def give_flag_def)

lemma parse_one_decided:
  assumes "\<not> positional a" and "a \<noteq> ''--''"
  shows "takes F a \<Longrightarrow> decided (\<lambda>xs. parse_one F (a # v # xs))"
    and "takes F a \<Longrightarrow> \<exists>e. parse_one F [a] = Inl e"
    and "\<not> takes F a \<Longrightarrow> decided (\<lambda>xs. parse_one F (a # xs))"
proof -
  have len: "\<not> length a < 2" "hd a = CHR ''-''"
    using assms by (cases a rule: remdups_adj.cases; auto simp: positional_def)+
  consider (bad) "flag_name a = '''' \<or> hd (flag_name a) = CHR ''-'' \<or> hd (flag_name a) = CHR ''=''"
    | (good) name given where "split_value (flag_name a) = (name, given)"
        "\<not> (flag_name a = '''' \<or> hd (flag_name a) = CHR ''-'' \<or> hd (flag_name a) = CHR ''='')"
    by (cases "split_value (flag_name a)") blast
  then have "(takes F a \<longrightarrow> decided (\<lambda>xs. parse_one F (a # v # xs)) \<and> (\<exists>e. parse_one F [a] = Inl e)) \<and>
    (\<not> takes F a \<longrightarrow> decided (\<lambda>xs. parse_one F (a # xs)))"
  proof cases
    case bad
    then show ?thesis using len assms(2) by simp
  next
    case good
    then have name: "dropWhile ((=) CHR ''-'') a = flag_name a" using dashes_name [OF assms] by blast
    show ?thesis
    proof (cases given)
      case None
      then have "name = flag_name a" "CHR ''='' \<notin> set (flag_name a)"
        using split_value_None good(1) by blast+
      then show ?thesis using len assms(2) good name None
        by (cases "Lookup F (flag_name a)") (auto simp: takes_def)
    next
      case (Some x)
      then have "\<not> takes F a" using split_value_Some good(1) name by (auto simp: takes_def)
      then show ?thesis using len assms(2) good Some
        by (cases "Lookup F name"; cases "flag_Bool (the (Lookup F name))") simp_all
    qed
  qed
  then show "takes F a \<Longrightarrow> decided (\<lambda>xs. parse_one F (a # v # xs))"
    and "takes F a \<Longrightarrow> \<exists>e. parse_one F [a] = Inl e"
    and "\<not> takes F a \<Longrightarrow> decided (\<lambda>xs. parse_one F (a # xs))" by blast+
qed

section \<open>Flags anywhere are flags as they come\<close>

lemma decided_cases:
  assumes "decided g"
  obtains e where "\<And>xs. g xs = Inl e" | s where "\<And>xs. g xs = Inr (Some s, xs)"
  using assms unfolding decided_def by blast

lemma Parse_delim: "Parse F (''--'' # ps) = Inr ([], ps)" and Parse_Nil: "Parse F [] = Inr ([], [])"
  by (simp_all add: Parse.simps)

text \<open>
  \<open>agrees\<close>: the collected arguments parse to what the reference says, whatever is put behind the
  delimiter.
\<close>

definition agrees ::
  "flag_set \<Rightarrow> bool \<times> string list \<times> string list \<Rightarrow> flag_error + (settings \<times> string list) \<Rightarrow> bool" where
  "agrees F collected result \<longleftrightarrow> (case collected of (incomplete, fl, ps) \<Rightarrow>
     if incomplete then (\<exists>e. Parse F fl = Inl e \<and> result = Inl e)
     else case result of
         Inl e \<Rightarrow> Parse F fl = Inl e \<and> (\<forall>X. Parse F (fl @ ''--'' # X) = Inl e)
       | Inr (ss, qs) \<Rightarrow> qs = ps \<and> Parse F fl = Inr (ss, []) \<and>
           (\<forall>X. Parse F (fl @ ''--'' # X) = Inr (ss, X)))"

lemma agrees_step:
  assumes "decided (\<lambda>xs. parse_one F (pre @ xs))" and "agrees F (b, fl, ps) (parse_mixed F args)"
    and "parse_mixed F (pre @ args) = (case parse_one F (pre @ args) of Inl e \<Rightarrow> Inl e
      | Inr (None, rest) \<Rightarrow> Inr ([], rest)
      | Inr (Some s, rest) \<Rightarrow> result_bind (parse_mixed F rest) (\<lambda>(ss, ps). Inr (s # ss, ps)))"
  shows "agrees F (b, pre @ fl, ps) (parse_mixed F (pre @ args))"
  using assms(1)
proof (cases rule: decided_cases)
  case (1 e)
  then have "Parse F (pre @ xs) = Inl e" for xs by (simp add: Parse.simps [of F "pre @ xs"])
  then show ?thesis using assms(3) 1 [of args] by (auto simp: agrees_def)
next
  case (2 s)
  then have "Parse F (pre @ xs) = result_bind (Parse F xs) (\<lambda>(ss, ps). Inr (s # ss, ps))" for xs
    by (simp add: Parse.simps [of F "pre @ xs"])
  then show ?thesis using assms(2,3) 2 [of args]
    by (auto simp: agrees_def split: sum.splits prod.splits if_splits)
qed

text \<open>The loop without its accumulators.\<close>

lemma reorder_acc:
  "reorder F r args fl ps = (case reorder F r args [] [] of (b, fl', ps') \<Rightarrow> (b, fl @ fl', ps @ ps'))"
proof (induction "length args" arbitrary: args r fl ps rule: less_induct)
  case less
  note IH = less
  show ?case
  proof (cases args)
    case (Cons a as)
    show ?thesis
    proof (cases "r \<or> positional a \<or> a = ''--''")
      case True
      then show ?thesis using IH [of as r fl "ps @ [a]"] IH [of as r "[]" "[a]"] IH [of as True fl ps] Cons
        by (cases "reorder F r as [] []") (auto simp: reorder_rest)
    next
      case False
      then have r: "r = False" by simp
      note step = reorder_flag [of a F as] 
      have tl: "length (tl as) < length args" "length as < length args" using Cons by auto
      show ?thesis
      proof (cases as)
        case Nil
        then show ?thesis using False Cons step r by simp
      next
        case (Cons v vs)
        have len: "length vs < length args" "length as < length args" using \<open>args = a # as\<close> Cons by auto
        show ?thesis
          using False step r \<open>args = a # as\<close> Cons
            IH [OF len(1), of False "fl @ [a, v]" ps] IH [OF len(1), of False "[a, v]" "[]"]
            IH [OF len(2), of False "fl @ [a]" ps] IH [OF len(2), of False "[a]" "[]"]
          by (cases "reorder F False vs [] []"; cases "reorder F False as [] []") auto
      qed
    qed
  qed simp
qed

lemma agrees_reorder: "agrees F (reorder F False args [] []) (parse_mixed F args)"
proof (induction "length args" arbitrary: args rule: less_induct)
  case less
  note IH = less
  show ?case
  proof (cases args)
    case Nil
    then show ?thesis by (simp add: agrees_def parse_mixed.simps Parse_Nil Parse_delim)
  next
    case (Cons a as)
    obtain b fl ps where rec: "reorder F False as [] [] = (b, fl, ps)" by (cases "reorder F False as [] []")
    have as: "agrees F (b, fl, ps) (parse_mixed F as)" using IH [of as] rec Cons by simp
    consider (pos) "positional a" | (delim) "\<not> positional a" "a = ''--''"
      | (flag) "\<not> positional a" "a \<noteq> ''--''" by blast
    then show ?thesis
    proof cases
      case pos
      then have "reorder F False args [] [] = (b, fl, a # ps)"
        using Cons rec reorder_acc [of F False as "[]" "[a]"] by (simp add: reorder_positional)
      moreover have "parse_mixed F args = result_bind (parse_mixed F as) (\<lambda>(ss, ps). Inr (ss, a # ps))"
        using pos Cons by (simp add: parse_mixed.simps)
      ultimately show ?thesis using as by (auto simp: agrees_def split: sum.splits prod.splits if_splits)
    next
      case delim
      then have "reorder F False args [] [] = (False, [], as)" "parse_mixed F args = Inr ([], as)"
        using Cons by (simp_all add: reorder_rest parse_mixed.simps positional_def)
      then show ?thesis by (simp add: agrees_def Parse_Nil Parse_delim)
    next
      case flag
      have mixed: "parse_mixed F (a # xs) = (case parse_one F (a # xs) of Inl e \<Rightarrow> Inl e
          | Inr (None, rest) \<Rightarrow> Inr ([], rest)
          | Inr (Some s, rest) \<Rightarrow> result_bind (parse_mixed F rest) (\<lambda>(ss, ps). Inr (s # ss, ps)))" for xs
        using flag by (simp add: parse_mixed.simps del: parse_one.simps)
      note one = parse_one_decided [OF flag, of F]
      show ?thesis
      proof (cases "takes F a")
        case False
        then have "reorder F False args [] [] = (b, [a] @ fl, ps)"
          using Cons rec flag reorder_acc [of F False as "[a]" "[]"]
          by (simp add: reorder_flag del: reorder.simps(2))
        then show ?thesis using agrees_step [of F "[a]" b fl ps as] one(3) [OF False] as mixed Cons by simp
      next
        case True
        show ?thesis
        proof (cases as)
          case Nil
          obtain e where "parse_one F [a] = Inl e" using one(2) [OF True] by blast
          then show ?thesis using Cons Nil True flag mixed [of "[]"]
            by (simp add: reorder_flag agrees_def Parse.simps [of F "[a]"] del: reorder.simps(2) parse_one.simps)
        next
          case (Cons v vs)
          obtain b' fl' ps' where rec': "reorder F False vs [] [] = (b', fl', ps')"
            by (cases "reorder F False vs [] []")
          have vs: "agrees F (b', fl', ps') (parse_mixed F vs)"
            using IH [of vs] rec' Cons \<open>args = a # as\<close> by simp
          have "reorder F False args [] [] = (b', [a, v] @ fl', ps')"
            using \<open>args = a # as\<close> Cons rec' flag True reorder_acc [of F False vs "[a, v]" "[]"]
            by (simp add: reorder_flag del: reorder.simps(2))
          then show ?thesis
            using agrees_step [of F "[a, v]" b' fl' ps' vs] one(1) [OF True, of v] vs mixed [of "v # vs"]
              \<open>args = a # as\<close> Cons by (simp del: parse_one.simps)
        qed
      qed
    qed
  qed
qed

text \<open>C16: moving the flags in front of the positional arguments and parsing the result with the flag
  package is, for every flag set and all arguments, errors included, the same as parsing flags and
  positional arguments as they come.\<close>

theorem flags_anywhere: "parseFlagsAnywhere F args = parse_mixed F args"
proof -
  obtain b fl ps where "reorder F False args [] [] = (b, fl, ps)" by (cases "reorder F False args [] []")
  then show ?thesis using agrees_reorder [of F args]
    by (auto simp: parseFlagsAnywhere_def agrees_def split: sum.splits prod.splits if_splits)
qed

end
