(* ===== verification/Logs.thy ===== *)
theory Logs
  imports Backup
begin

text \<open>
  \<open>tx9 logs\<close> (\<open>internal/cli/cmd_logs.go\<close>): the helper that runs in a throwaway container of the
  box's own image with both data volumes mounted read-only, its query and its export to a new file.
\<close>

section \<open>The helper\<close>

record logsQueryOptions =
  lq_Source :: string
  lq_Tail :: int
  lq_Since :: string
  lq_Contains :: string
  lq_Level :: string
  lq_JSON :: bool
  lq_NoRedact :: bool

definition logsHelperPath :: string where "logsHelperPath = ''/opt/hermes-box/bin/tx9-logs''"

definition validateLogsLevel :: "string \<Rightarrow> tx9_error + unit" where
  "validateLogsLevel level =
     (if level \<in> {'''', ''debug'', ''info'', ''warn'', ''error''} then Inr () else Inl (Usage ''--level''))"

definition splitLogsAction :: "string list \<Rightarrow> string \<times> string list" where
  "splitLogsAction args =
     (case args of
        a # rest \<Rightarrow> if a = ''export'' then (''export'', rest) else (''query'', args)
      | [] \<Rightarrow> (''query'', args))"

definition logsHelperArgs :: "string \<Rightarrow> string \<Rightarrow> logsQueryOptions \<Rightarrow> string list" where
  "logsHelperArgs action name opts =
     [action, ''--agent-root'', ''/agent'', ''--executor-root'', ''/executor'', ''--box'', name,
      ''--source'', lq_Source opts] @
     (if lq_Tail opts > 0 then [''--tail'', format_int (lq_Tail opts)] else []) @
     (if lq_Since opts \<noteq> '''' then [''--since'', lq_Since opts] else []) @
     (if lq_Contains opts \<noteq> '''' then [''--grep'', lq_Contains opts] else []) @
     (if lq_Level opts \<noteq> '''' then [''--level'', lq_Level opts] else []) @
     (if lq_JSON opts then [''--json''] else []) @
     (if lq_NoRedact opts then [''--no-redact''] else [])"

definition logsHelperEnvironment :: "system \<Rightarrow> string \<Rightarrow> string list tx9" where
  "logsHelperEnvironment E name =
     bind_comp (BoxToken E name) (\<lambda>token. ret [''TX9_QUERY_TOKEN='' @ token])"

text \<open>
  \<open>boxImageRef\<close>: the image of the first container that can be inspected and names one.
\<close>

fun image_ref_loop :: "system \<Rightarrow> string list \<Rightarrow> tx9_error list \<Rightarrow> string tx9" where
  "image_ref_loop E [] errs = fail (NoBoxImage errs)"
| "image_ref_loop E (i # ids) errs =
     (if i = '''' then image_ref_loop E ids errs
      else bind_comp (attempt (ContainerInspect E i)) (\<lambda>r.
        case r of
          Inl err \<Rightarrow> image_ref_loop E ids (errs @ [err])
        | Inr j \<Rightarrow>
            (case cj_Base j of
               Some base \<Rightarrow>
                 if cb_Image base \<noteq> '''' then ret (cb_Image base)
                 else if cj_ConfigImage j \<noteq> '''' then ret (cj_ConfigImage j)
                 else image_ref_loop E ids errs
             | None \<Rightarrow>
                 if cj_ConfigImage j \<noteq> '''' then ret (cj_ConfigImage j)
                 else image_ref_loop E ids errs)))"

definition boxImageRef :: "system \<Rightarrow> Box \<Rightarrow> string tx9" where
  "boxImageRef E b = image_ref_loop E [AgentID b, ExecutorID b] []"

text \<open>The helper's standard output comes back with its exit code; the caller says where it goes.\<close>

definition runLogsHelper ::
  "system \<Rightarrow> string \<Rightarrow> string \<Rightarrow> string \<Rightarrow> logsQueryOptions \<Rightarrow> (int \<times> string) tx9" where
  "runLogsHelper E img name action opts =
     bind_comp (logsHelperEnvironment E name) (\<lambda>helperEnv.
     Ephemeral E img [logsHelperPath] (logsHelperArgs action name opts) helperEnv
       [agent_volume name @ '':/agent:ro'', executor_volume name @ '':/executor:ro''] None)"

definition helper_output :: "int \<times> string \<Rightarrow> tx9_error + string" where
  "helper_output = (\<lambda>(exitCode, out). if exitCode \<noteq> 0 then Inl (HelperExited exitCode) else Inr out)"

definition logs_of :: "system \<Rightarrow> string \<Rightarrow> string \<Rightarrow> logsQueryOptions \<Rightarrow> (int \<times> string) tx9" where
  "logs_of E name action opts =
     withBoxLock E name
       (bind_comp (Get E name) (\<lambda>b.
        bind_comp (boxImageRef E b) (\<lambda>img.
        runLogsHelper E img name action opts)))"

section \<open>Query and export\<close>

definition cmdLogs :: "system \<Rightarrow> logsQueryOptions \<Rightarrow> string \<Rightarrow> string tx9" where
  "cmdLogs E opts name =
     (if lq_Tail opts < 1 then fail (Usage ''logs --tail'')
      else bind_comp (lift_result (validateLogsLevel (lq_Level opts))) (\<lambda>_.
        bind_comp (logs_of E name ''query'' opts) (\<lambda>r. lift_result (helper_output r))))"

text \<open>
  The output file is created before the lock is taken, gets what the helper wrote, and is removed
  again unless it was synced and closed after a successful run.
\<close>

definition export_path :: "tools \<Rightarrow> string \<Rightarrow> string \<Rightarrow> string" where
  "export_path L output name =
     (if output = '''' then name @ ''-logs-'' @ time_stamp L @ ''.tar.gz'' else output)"

definition create_excl :: "string \<Rightarrow> (file_op \<Rightarrow> bool) \<Rightarrow> files \<Rightarrow> (local_error + unit) \<times> files" where
  "create_excl path fails fs =
     (if fs path \<noteq> None \<or> fails (CreateExcl path) then (Inl (FileOp (CreateExcl path)), fs)
      else (Inr (), fs(path \<mapsto> '''')))"

definition put_output :: "string \<Rightarrow> string \<Rightarrow> world \<Rightarrow> world" where
  "put_output path out w = w\<lparr>disk := (disk w)(path \<mapsto> out)\<rparr>"

definition finish_export :: "string \<Rightarrow> (file_op \<Rightarrow> bool) \<Rightarrow> files \<Rightarrow> local_error + unit" where
  "finish_export path fails fs =
     (if fails (SyncFile path) then Inl (FileOp (SyncFile path))
      else if fails (CloseFile path) then Inl (FileOp (CloseFile path))
      else Inr ())"

definition write_export ::
  "system \<Rightarrow> tools \<Rightarrow> logsQueryOptions \<Rightarrow> string \<Rightarrow> string \<Rightarrow> unit tx9" where
  "write_export E L opts name destination =
     bind_comp (logs_of E name ''export'' opts) (\<lambda>r w.
       bind_comp (lift_result (helper_output r)) (\<lambda>_.
         local_check L (finish_export destination)) (put_output destination (snd r) w))"

definition remove_unless_ok :: "tools \<Rightarrow> string \<Rightarrow> 'a tx9 \<Rightarrow> 'a tx9" where
  "remove_unless_ok L path m w =
     (case m w of
        (Inr x, w') \<Rightarrow> (Inr x, w')
      | (Inl e, w') \<Rightarrow> (Inl e, remove_one L path w'))"

definition cmdLogsExport :: "system \<Rightarrow> tools \<Rightarrow> (string \<Rightarrow> string option) \<Rightarrow> logsQueryOptions \<Rightarrow> string \<Rightarrow> string
     \<Rightarrow> string tx9" where
  "cmdLogsExport E L Abs opts output name =
     bind_comp (lift_result (validateLogsLevel (lq_Level opts))) (\<lambda>_.
     case Abs (export_path L output name) of
       None \<Rightarrow> fail (LocalErr (FileOp (OpenFile (export_path L output name))))
     | Some destination \<Rightarrow>
     if \<not> mkdir_ok (host E) (DirOf destination) then fail (EnvErr (MkdirFailed (DirOf destination))) else
     bind_comp (local_step L (create_excl destination)) (\<lambda>_.
     bind_comp (remove_unless_ok L destination (write_export E L opts name destination)) (\<lambda>_.
     ret destination)))"

end
