(* ===== verification/LogsSafety.thy ===== *)
theory LogsSafety
  imports Logs ImportSafety
begin

text \<open>
  Reading logs changes nothing: apart from reading calls there is one throwaway container that sees
  both volumes read-only and gets the token in its environment only.  An export leaves a complete
  new file or none.
\<close>

section \<open>Calls\<close>

lemma makes_only_withBoxLock:
  assumes "makes_only P m" and "P Connect"
  shows "makes_only P (withBoxLock E name m)"
proof -
  have acquire: "makes_only P (AcquireLock E path)" for path
    by (auto simp: makes_only_def AcquireLock_def split: prod.splits)
  have deferred: "makes_only P m' \<Longrightarrow> makes_only P (with_defer m' (ReleaseLock h))" for m' :: "'a tx9" and h
    by (rule makes_only_defer) (simp_all add: ReleaseLock_def)
  show ?thesis
    unfolding withBoxLock_def with_lock_def withDocker_def NewClient_def
    by (intro call_rules acquire deferred assms)
qed

lemma keeps_disk_withBoxLock:
  assumes "keeps_disk m"
  shows "keeps_disk (withBoxLock E name m)"
proof -
  have acquire: "keeps_disk (AcquireLock E path)" for path
    by (auto simp: keeps_def AcquireLock_def split: prod.splits)
  have deferred: "keeps_disk m' \<Longrightarrow> keeps_disk (with_defer m' (ReleaseLock h))" for m' :: "'a tx9" and h
    by (auto simp: keeps_def with_defer_def ReleaseLock_def split: prod.splits) (metis snd_conv)
  show ?thesis
    unfolding withBoxLock_def with_lock_def withDocker_def NewClient_def
    by (intro call_rules acquire deferred assms)
qed

text \<open>The one call of the helper; its arguments are those of the query and do not hold the token.\<close>

definition helper_call :: "string \<Rightarrow> string \<Rightarrow> logsQueryOptions \<Rightarrow> call \<Rightarrow> bool" where
  "helper_call name action opts c \<longleftrightarrow> (\<exists>img token.
     c = RunEphemeral img [logsHelperPath] (logsHelperArgs action name opts) [''TX9_QUERY_TOKEN='' @ token]
       [agent_volume name @ '':/agent:ro'', executor_volume name @ '':/executor:ro''] None)"

lemma image_ref_reads: "makes_only reading (image_ref_loop E ids errs)" "keeps_disk (image_ref_loop E ids errs)"
proof -
  have insp: "makes_only reading (ContainerInspect E i)" "keeps_disk (ContainerInspect E i)" for i
    unfolding ContainerInspect_def by (intro call_rules; simp)+
  show "makes_only reading (image_ref_loop E ids errs)"
    by (induction ids arbitrary: errs) (auto intro!: call_rules insp)
  show "keeps_disk (image_ref_loop E ids errs)"
    by (induction ids arbitrary: errs) (auto intro!: call_rules insp)
qed

lemma logs_calls:
  "makes_only (\<lambda>c. reading c \<or> helper_call name action opts c) (logs_of E name action opts)"
proof -
  let ?P = "\<lambda>c. reading c \<or> helper_call name action opts c"
  have r: "makes_only ?P m" if "makes_only reading m" for m :: "'a tx9"
    using that by (rule makes_only_weaken) simp
  have img: "makes_only ?P (boxImageRef E b)" for b
    unfolding boxImageRef_def by (rule makes_only_weaken [OF image_ref_reads(1)]) simp
  have tok: "makes_only ?P (BoxToken E name)"
    by (rule makes_only_weaken [OF reads_BoxToken]) simp
  have helper: "?P (RunEphemeral i [logsHelperPath] (logsHelperArgs action name opts) [''TX9_QUERY_TOKEN='' @ token]
      [agent_volume name @ '':/agent:ro'', executor_volume name @ '':/executor:ro''] None)" for i token
    by (auto simp: helper_call_def)
  have bind: "bind_comp (bind_comp (BoxToken E name) (\<lambda>token. ret [''TX9_QUERY_TOKEN='' @ token])) f =
      bind_comp (BoxToken E name) (\<lambda>token. f [''TX9_QUERY_TOKEN='' @ token])" for f :: "string list \<Rightarrow> 'b tx9"
    by (rule ext) (auto simp: bind_comp_def ret_def split: prod.splits sum.splits)
  show ?thesis
    unfolding logs_of_def runLogsHelper_def logsHelperEnvironment_def bind Ephemeral_def
    by (intro makes_only_withBoxLock makes_only_bind makes_only_api helper img tok makes_only_weaken [OF reads_Get]) auto
qed

lemma logs_keep_disk: "keeps_disk (logs_of E name action opts)"
  unfolding logs_of_def runLogsHelper_def logsHelperEnvironment_def Ephemeral_def boxImageRef_def
  by (intro keeps_disk_withBoxLock call_rules keeps_disk_reads image_ref_reads)

lemma cmdLogs_calls:
  "makes_only (\<lambda>c. reading c \<or> helper_call name ''query'' opts c) (cmdLogs E opts name)"
  unfolding cmdLogs_def by (intro call_rules logs_calls)

lemma cmdLogs_keeps_disk: "keeps_disk (cmdLogs E opts name)"
  unfolding cmdLogs_def by (intro call_rules logs_keep_disk)

lemma logs_reading:
  "makes_only (\<lambda>c. reading c \<or> helper_call name ''query'' opts c) (cmdLogs E opts name) \<and>
   keeps_disk (cmdLogs E opts name)"
  using cmdLogs_calls cmdLogs_keeps_disk by blast

section \<open>The export\<close>

definition helper_ran :: "system \<Rightarrow> string \<Rightarrow> logsQueryOptions \<Rightarrow> string \<Rightarrow> bool" where
  "helper_ran E name opts out \<longleftrightarrow> (\<exists>h img token.
     eng_ephemeral (daemon E) h img [logsHelperPath] (logsHelperArgs ''export'' name opts)
       [''TX9_QUERY_TOKEN='' @ token]
       [agent_volume name @ '':/agent:ro'', executor_volume name @ '':/executor:ro''] None = Inr (0, out))"

lemma withBoxLock_ok:
  assumes "withBoxLock E name m w = (Inr x, w')"
  obtains w1 w2 where "m w1 = (Inr x, w2)"
  using assms by (auto simp: withBoxLock_def with_lock_def withDocker_def bind_iffs with_defer_iff)

lemma logs_of_ok: "logs_of E name ''export'' opts w = (Inr (0, out), w') \<Longrightarrow> helper_ran E name opts out"
  unfolding logs_of_def helper_ran_def
  by (erule withBoxLock_ok)
    (auto simp: bind_iffs runLogsHelper_def logsHelperEnvironment_def Ephemeral_def api_iffs)

text \<open>What an export leaves: the whole output of a successful helper in a new file, or no new file.\<close>

definition exported_or_gone ::
  "system \<Rightarrow> tools \<Rightarrow> string \<Rightarrow> logsQueryOptions \<Rightarrow> tx9_error + string \<Rightarrow> world \<Rightarrow> world \<Rightarrow> bool" where
  "exported_or_gone E L name opts r w w' \<longleftrightarrow>
     (case r of
        Inr path \<Rightarrow> disk w path = None \<and> (\<exists>out. helper_ran E name opts out \<and> disk w' = (disk w)(path \<mapsto> out))
      | Inl e \<Rightarrow> disk w' = disk w \<or>
          (\<exists>h path. file_fails L h (RemoveFile path) \<and> disk w path = None \<and> (\<exists>out. disk w' = (disk w)(path \<mapsto> out))))"

lemma write_export_cases:
  assumes "write_export E L opts name d w = (r, w')" and "disk w d = Some ''''"
  shows "(\<exists>out. disk w' = (disk w)(d \<mapsto> out) \<and> (r = Inr () \<longrightarrow> helper_ran E name opts out))"
proof -
  obtain q w1 where lo: "logs_of E name ''export'' opts w = (q, w1)" by fastforce
  have d1: "disk w1 = disk w" using keepsD [OF logs_keep_disk lo] .
  show ?thesis
  proof (cases q)
    case (Inl e)
    then have "disk w' = disk w" "r = Inl e" using assms(1) lo d1 by (auto simp: write_export_def bind_comp_def)
    then show ?thesis using assms(2) by (intro exI [of _ "''''"]) (auto simp: fun_upd_idem)
  next
    case (Inr x)
    obtain code out where x: "x = (code, out)" by (cases x)
    have run: "bind_comp (lift_result (helper_output x)) (\<lambda>_. local_check L (finish_export d)) (put_output d out w1) = (r, w')"
      using assms(1) lo Inr x by (simp add: write_export_def bind_comp_def)
    have "disk w' = (disk w)(d \<mapsto> out)"
      using run d1 x by (auto simp: bind_comp_def lift_result_def local_check_def put_output_def split: sum.splits)
    moreover have "r = Inr () \<longrightarrow> code = 0"
      using run x by (auto simp: bind_comp_def lift_result_def helper_output_def split: if_splits)
    ultimately show ?thesis using logs_of_ok [of E name opts w out w1] lo Inr x by auto
  qed
qed

lemma cmdLogsExport_cases:
  assumes run: "cmdLogsExport E L Abs opts output name w = (r, w')"
  obtains "isl r" and "disk w' = disk w"
  | d w1 where "local_step L (create_excl d) w = (Inr (), w1)"
      and "bind_comp (remove_unless_ok L d (write_export E L opts name d)) (\<lambda>_. ret d) w1 = (r, w')"
proof (cases "validateLogsLevel (lq_Level opts) = Inr () \<and> (\<exists>d. Abs (export_path L output name) = Some d \<and>
    mkdir_ok (host E) (DirOf d) \<and> fst (local_step L (create_excl d) w) = Inr ())")
  case True
  then obtain d w1 where "validateLogsLevel (lq_Level opts) = Inr ()" "Abs (export_path L output name) = Some d"
    "mkdir_ok (host E) (DirOf d)" "local_step L (create_excl d) w = (Inr (), w1)"
    by (metis prod.collapse)
  then show thesis using run that(2) by (simp add: cmdLogsExport_def bind_comp_def lift_result_def)
next
  case False
  then have "isl r \<and> disk w' = disk w"
    using run
    by (auto simp: cmdLogsExport_def bind_comp_def lift_result_def fail_def local_step_def create_excl_def
        split: sum.splits option.splits if_splits prod.splits)
  then show thesis using that(1) by blast
qed

text \<open>C30: an export of logs that succeeds has put the whole output of a helper that exited with 0 into
  a file that did not exist before and changed no other; one that fails leaves every file as it was, or
  the new file alone when its removal failed too.\<close>

theorem export_all_or_nothing:
  "let (r, w') = cmdLogsExport E L Abs opts output name w in exported_or_gone E L name opts r w w'"
proof -
  obtain r w' where run: "cmdLogsExport E L Abs opts output name w = (r, w')" by fastforce
  then have "exported_or_gone E L name opts r w w'"
  proof (cases rule: cmdLogsExport_cases)
    case 1
    then show ?thesis by (cases r) (auto simp: exported_or_gone_def)
  next
    case (2 d w1)
    note st = 2(1) and re = 2(2)
    obtain q w2 where we: "write_export E L opts name d w1 = (q, w2)" by fastforce
    have new: "disk w d = None" "disk w1 = (disk w)(d \<mapsto> '''')"
      using st by (auto simp: local_iffs create_excl_def split: if_splits)
    then obtain out where out: "disk w2 = (disk w)(d \<mapsto> out)" "q = Inr () \<longrightarrow> helper_ran E name opts out"
      using write_export_cases [OF we] by auto
    show ?thesis
    proof (cases q)
      case (Inr u)
      then have "r = Inr d \<and> w' = w2" using re we by (simp add: remove_unless_ok_def bind_comp_def ret_def)
      then show ?thesis using new out Inr by (auto simp: exported_or_gone_def)
    next
      case (Inl e)
      then have "r = Inl e \<and> w' = remove_one L d w2" using re we by (simp add: remove_unless_ok_def bind_comp_def)
      then show ?thesis using new out
        by (auto simp: exported_or_gone_def remove_one_def remove_file_def fun_upd_idem)
    qed
  qed
  then show ?thesis using run by simp
qed

section \<open>The lock\<close>

lemma keeps_locks_image_ref [call_rules]: "keeps_locks (image_ref_loop E ids errs)"
  by (induction ids arbitrary: errs) (auto intro!: call_rules)

lemma logs_free_lock:
  assumes "box_lock_free E name w"
  shows "box_lock_free E name (snd (logs_of E name action opts w))"
  unfolding logs_of_def runLogsHelper_def logsHelperEnvironment_def boxImageRef_def
  by (intro withBoxLock_free assms call_rules)

lemma cmdLogs_frees_lock:
  assumes "box_lock_free E name w"
  shows "box_lock_free E name (snd (cmdLogs E opts name w))"
proof -
  have free: "box_lock_free E name (snd (bind_comp m f w))"
    if "box_lock_free E name (snd (m w))" "\<And>x w. box_lock_free E name w \<Longrightarrow> box_lock_free E name (snd (f x w))"
    for m :: "'x tx9" and f :: "'x \<Rightarrow> string tx9" and w
    using that by (auto simp: bind_comp_def split: prod.splits sum.splits)
  show ?thesis
    unfolding cmdLogs_def using assms
    by (auto simp: fail_def lift_result_def intro!: free logs_free_lock)
qed

end
