(* ===== verification/ContainerRuns.thy ===== *)
theory ContainerRuns
  imports Prelude
begin

text \<open>
  \<open>internal/docker/ephemeral.go\<close>: the requests behind one \<open>RunExec\<close> and one \<open>RunEphemeral\<close> of
  \<open>World\<close>.  \<open>ExecStream\<close> polls for the end of a process and may run for ever, so it is a partial
  function; \<open>RunEphemeral\<close> gives its result with the list of the requests it made.
\<close>

section \<open>Exec streams\<close>

text \<open>
  What the daemon and the context do in one run: whether the exec is created and attached, how the
  copying of the output ends, what the \<open>k\<close>-th inspection says (running, exit code), and whether the
  context has ended by the wait after it.
\<close>

datatype copy_end = Copied | CopyCancelled | CopyFailed

record exec_run =
  x_created :: bool
  x_attached :: bool
  x_copy :: copy_end
  x_inspect :: "nat \<Rightarrow> (bool \<times> int) option"
  x_cancelled :: "nat \<Rightarrow> bool"

datatype exec_error = ExecCreateErr | ExecAttachErr | ExecReadErr | ExecInspectErr | ExecCancelled

partial_function (option) poll :: "exec_run \<Rightarrow> nat \<Rightarrow> (exec_error + int) option" where
  "poll X k =
     (case x_inspect X k of
        None \<Rightarrow> Some (Inl ExecInspectErr)
      | Some (running, code) \<Rightarrow>
          if \<not> running then Some (Inr code)
          else if x_cancelled X k then Some (Inl ExecCancelled)
          else poll X (Suc k))"

definition ExecStream :: "exec_run \<Rightarrow> (exec_error + int) option" where
  "ExecStream X =
     (if \<not> x_created X then Some (Inl ExecCreateErr)
      else if \<not> x_attached X then Some (Inl ExecAttachErr)
      else case x_copy X of
          CopyCancelled \<Rightarrow> Some (Inl ExecCancelled)
        | CopyFailed \<Rightarrow> Some (Inl ExecReadErr)
        | Copied \<Rightarrow> poll X 0)"

text \<open>The poll goes on after the \<open>k\<close>-th inspection; \<open>poll_result\<close> is what it ends with otherwise.\<close>

definition polls_on :: "exec_run \<Rightarrow> nat \<Rightarrow> bool" where
  "polls_on X k \<longleftrightarrow> (\<exists>code. x_inspect X k = Some (True, code)) \<and> \<not> x_cancelled X k"

definition poll_result :: "exec_run \<Rightarrow> nat \<Rightarrow> exec_error + int" where
  "poll_result X k =
     (case x_inspect X k of
        None \<Rightarrow> Inl ExecInspectErr
      | Some (running, code) \<Rightarrow> if running then Inl ExecCancelled else Inr code)"

lemma poll_step:
  "poll X k = (if polls_on X k then poll X (Suc k) else Some (poll_result X k))"
  by (subst poll.simps) (auto simp: polls_on_def poll_result_def split: option.splits)

lemma poll_after: "(\<And>j. j < n \<Longrightarrow> polls_on X (k + j)) \<Longrightarrow> poll X k = poll X (k + n)"
proof (induction n)
  case (Suc n)
  then have "poll X k = poll X (k + n)" and "polls_on X (k + n)" by simp_all
  then show ?case using poll_step [of X "k + n"] by simp
qed simp

text \<open>The index at which a poll from \<open>k\<close> ends.\<close>

definition ends_at :: "exec_run \<Rightarrow> nat \<Rightarrow> nat \<Rightarrow> bool" where
  "ends_at X k n \<longleftrightarrow> k \<le> n \<and> \<not> polls_on X n \<and> list_all (polls_on X) [k..<n]"

lemma poll_returns: "ends_at X k n \<Longrightarrow> poll X k = Some (poll_result X n)"
  using poll_after [of "n - k" X k] poll_step [of X n]
  by (auto simp: ends_at_def list_all_iff)

lemma poll_ends:
  assumes "poll X k = Some r"
  shows "\<exists>n. ends_at X k n \<and> r = poll_result X n"
proof (rule poll.raw_induct [where P = "\<lambda>X k r. \<exists>n. ends_at X k n \<and> r = poll_result X n", OF _ assms])
  fix f X k r
  assume IH: "\<And>X k r. f X k = Some r \<Longrightarrow> \<exists>n. ends_at X k n \<and> r = poll_result X n"
    and eq: "(case x_inspect X k of None \<Rightarrow> Some (Inl ExecInspectErr)
      | Some (running, code) \<Rightarrow> if \<not> running then Some (Inr code)
          else if x_cancelled X k then Some (Inl ExecCancelled) else f X (Suc k)) = Some r"
  show "\<exists>n. ends_at X k n \<and> r = poll_result X n"
  proof (cases "polls_on X k")
    case True
    then have "f X (Suc k) = Some r" using eq by (auto simp: polls_on_def)
    then obtain n where "ends_at X (Suc k) n" "r = poll_result X n" using IH by blast
    then show ?thesis using True
      by (intro exI [of _ n]) (auto simp: ends_at_def upt_conv_Cons)
  next
    case False
    then have "r = poll_result X k"
      using eq by (auto simp: polls_on_def poll_result_def split: option.splits if_splits)
    then show ?thesis using False by (intro exI [of _ k]) (simp add: ends_at_def)
  qed
qed

text \<open>
  An exec stream returns exactly if some inspection fails, reports the end of the process or is
  followed by the end of the context; it returns a code only for a process that was reported ended.
\<close>

definition exec_settles :: "exec_run \<Rightarrow> bool" where
  "exec_settles X \<longleftrightarrow> \<not> x_created X \<or> \<not> x_attached X \<or> x_copy X \<noteq> Copied \<or> (\<exists>n. \<not> polls_on X n)"

lemma first_stop: "\<not> polls_on X n \<Longrightarrow> \<exists>m. ends_at X 0 m"
  using exists_least_iff [of "\<lambda>n. \<not> polls_on X n"] by (auto simp: ends_at_def list_all_iff)

text \<open>C26: running a command in a container returns if and only if the run settles: the exec is not
  created or attached, its output ends with an error, or some inspection fails, reports the process as
  ended, or is followed by the end of the context.\<close>

theorem exec_returns: "ExecStream X \<noteq> None \<longleftrightarrow> exec_settles X"
proof -
  have "poll X 0 \<noteq> None \<longleftrightarrow> (\<exists>n. \<not> polls_on X n)"
    using first_stop poll_returns poll_ends [of X 0] by (metis ends_at_def option.distinct(1) option.exhaust)
  then show ?thesis by (auto simp: ExecStream_def exec_settles_def split: copy_end.splits)
qed

lemma exec_code:
  "ExecStream X = Some (Inr code) \<longleftrightarrow>
     x_created X \<and> x_attached X \<and> x_copy X = Copied \<and>
     (\<exists>n. ends_at X 0 n \<and> x_inspect X n = Some (False, code))"
proof -
  have "poll X 0 = Some (Inr code) \<longleftrightarrow> (\<exists>n. ends_at X 0 n \<and> x_inspect X n = Some (False, code))"
  proof
    assume "poll X 0 = Some (Inr code)"
    then obtain n where n: "ends_at X 0 n" "poll_result X n = Inr code" using poll_ends by metis
    then have "x_inspect X n = Some (False, code)"
      by (auto simp: poll_result_def split: option.splits prod.splits if_splits)
    then show "\<exists>n. ends_at X 0 n \<and> x_inspect X n = Some (False, code)" using n(1) by blast
  next
    assume "\<exists>n. ends_at X 0 n \<and> x_inspect X n = Some (False, code)"
    then show "poll X 0 = Some (Inr code)" by (auto simp: poll_returns poll_result_def)
  qed
  then show ?thesis by (auto simp: ExecStream_def split: copy_end.splits)
qed

section \<open>Throwaway containers\<close>

record EphemeralOpts =
  e_Image :: string
  e_Entrypoint :: "string list"
  e_Cmd :: "string list"
  e_Env :: "string list"
  e_Binds :: "string list"
  e_Stdin :: "string option"

record eph_config =
  c_Image :: string
  c_Entrypoint :: "string list"
  c_Cmd :: "string list"
  c_Env :: "string list"
  c_Binds :: "string list"
  c_Stdin :: bool
  c_NetworkMode :: string
  c_SecurityOpt :: "string list"

datatype eph_request =
    ECreate eph_config
  | EAttach string bool
  | EWait string
  | EStart string
  | EClose string
  | EJoin string
  | ERemove string

datatype eph_error =
    EphCreateErr | EphAttachErr | EphStartErr | EphCancelled | EphWaitErr | EphStatusErr
  | EphInputErr | EphOutputErr | EphRemoveErr string

text \<open>
  How one run goes: the ID of the created container if there is one, which requests succeed, what
  the wait ends with (the status code and whether it carries an error), how the two copies end, and
  whether the removal succeeds.
\<close>

datatype wait_end = WaitCancelled | WaitFailed | WaitStatus int bool

record eph_run =
  r_created :: "string option"
  r_attached :: bool
  r_started :: bool
  r_wait :: wait_end
  r_input :: copy_end
  r_output :: copy_end
  r_removed :: bool

definition eph_config :: "EphemeralOpts \<Rightarrow> eph_config" where
  "eph_config opts =
     \<lparr>c_Image = e_Image opts, c_Entrypoint = e_Entrypoint opts, c_Cmd = e_Cmd opts, c_Env = e_Env opts,
      c_Binds = e_Binds opts, c_Stdin = (e_Stdin opts \<noteq> None), c_NetworkMode = ''none'',
      c_SecurityOpt = [''no-new-privileges:true'']\<rparr>"

text \<open>The last part: the wait, then the end of the input if there is one, then that of the output.\<close>

definition eph_finish :: "eph_run \<Rightarrow> bool \<Rightarrow> int \<times> eph_error list" where
  "eph_finish R hasStdin =
     (case r_wait R of
        WaitCancelled \<Rightarrow> (0, [EphCancelled])
      | WaitFailed \<Rightarrow> (0, [EphWaitErr])
      | WaitStatus code bad \<Rightarrow>
          if bad then (code, [EphStatusErr])
          else if hasStdin \<and> r_input R = CopyCancelled then (code, [EphCancelled])
          else if hasStdin \<and> r_input R = CopyFailed then (code, [EphInputErr])
          else if r_output R = CopyCancelled then (code, [EphCancelled])
          else if r_output R = CopyFailed then (code, [EphOutputErr])
          else (code, []))"

text \<open>From the attachment on, with the deferred close and, once the copies run, their join.\<close>

definition eph_attached :: "eph_run \<Rightarrow> EphemeralOpts \<Rightarrow> string \<Rightarrow> (int \<times> eph_error list) \<times> eph_request list" where
  "eph_attached R opts i =
     (let hasStdin = (e_Stdin opts \<noteq> None) in
      if \<not> r_attached R then ((0, [EphAttachErr]), [EAttach i hasStdin])
      else if \<not> r_started R then ((0, [EphStartErr]), [EAttach i hasStdin, EWait i, EStart i, EClose i])
      else (eph_finish R hasStdin, [EAttach i hasStdin, EWait i, EStart i, EClose i, EJoin i, EClose i]))"

definition RunEphemeral :: "eph_run \<Rightarrow> EphemeralOpts \<Rightarrow> (int \<times> eph_error list) \<times> eph_request list" where
  "RunEphemeral R opts =
     (case r_created R of
        None \<Rightarrow> ((0, [EphCreateErr]), [ECreate (eph_config opts)])
      | Some i \<Rightarrow>
          (case eph_attached R opts i of ((code, errs), reqs) \<Rightarrow>
             ((code, errs @ (if r_removed R then [] else [EphRemoveErr i])),
              ECreate (eph_config opts) # reqs @ [ERemove i])))"

text \<open>
  What a caller may rely on: a created container is removed by the last request and by no other; the
  container has no network; a run without errors reports the code of the wait, with both copies done.
\<close>

definition eph_contract :: "eph_run \<Rightarrow> EphemeralOpts \<Rightarrow> (int \<times> eph_error list) \<times> eph_request list \<Rightarrow> bool" where
  "eph_contract R opts result \<longleftrightarrow> (case result of ((code, errs), reqs) \<Rightarrow>
     (\<exists>cfg mid. c_NetworkMode cfg = ''none'' \<and> c_Stdin cfg = (e_Stdin opts \<noteq> None) \<and> c_Binds cfg = e_Binds opts \<and>
        list_all (\<lambda>q. case q of ECreate _ \<Rightarrow> False | ERemove _ \<Rightarrow> False | _ \<Rightarrow> True) mid \<and>
        reqs = ECreate cfg # mid @ (case r_created R of None \<Rightarrow> [] | Some i \<Rightarrow> [ERemove i])) \<and>
     (errs = [] \<longleftrightarrow> r_created R \<noteq> None \<and> r_attached R \<and> r_started R \<and> r_removed R \<and>
        r_wait R = WaitStatus code False \<and> r_output R = Copied \<and> (e_Stdin opts = None \<or> r_input R = Copied)))"

lemma eph_finish_ok:
  "eph_finish R hasStdin = (code, []) \<longleftrightarrow>
     r_wait R = WaitStatus code False \<and> r_output R = Copied \<and> (\<not> hasStdin \<or> r_input R = Copied)"
  by (cases "r_input R"; cases "r_output R") (auto simp: eph_finish_def split: wait_end.splits)

text \<open>C25: a throwaway container is created once, without network and with exactly the given mounts;
  whenever it was created it is removed once, by the last request, on every path; and the run has no error
  if and only if it was attached, started and removed, the wait gave the reported code and every stream
  was copied to its end.\<close>

theorem ephemeral_contract: "eph_contract R opts (RunEphemeral R opts)"
proof (cases "r_created R")
  case None
  then show ?thesis by (simp add: eph_contract_def RunEphemeral_def eph_config_def)
next
  case (Some i)
  obtain code errs reqs where at: "eph_attached R opts i = ((code, errs), reqs)"
    by (cases "eph_attached R opts i") auto
  have mid: "list_all (\<lambda>q. case q of ECreate _ \<Rightarrow> False | ERemove _ \<Rightarrow> False | _ \<Rightarrow> True) reqs"
    using at by (auto simp: eph_attached_def Let_def split: if_splits)
  have ok: "errs = [] \<longleftrightarrow> r_attached R \<and> r_started R \<and> r_wait R = WaitStatus code False \<and>
      r_output R = Copied \<and> (e_Stdin opts = None \<or> r_input R = Copied)"
    using at eph_finish_ok [of R "e_Stdin opts \<noteq> None" code]
    by (auto simp: eph_attached_def Let_def split: if_splits)
  have "RunEphemeral R opts = ((code, errs @ (if r_removed R then [] else [EphRemoveErr i])),
      ECreate (eph_config opts) # reqs @ [ERemove i])"
    using Some at by (simp add: RunEphemeral_def)
  then show ?thesis using mid ok Some by (auto simp: eph_contract_def eph_config_def)
qed

end
