(* ===== verification/WorkerPool.thy ===== *)
theory WorkerPool
  imports Prelude
begin

text \<open>
  The pool of \<open>collectListURLs\<close> (\<open>internal/cli/cmd_list.go\<close>) and \<open>collectOverview\<close>
  (\<open>internal/cli/overview_runtime.go\<close>): a producer hands the wanted indices to at most four workers over
  an unbuffered channel and closes it; each worker looks an index up, writes the result at that index
  when there is one, and ends when the channel is closed.  The scheduler is free, so the steps are a
  relation.
\<close>

section \<open>The steps\<close>

datatype worker = Idle | Working nat | Ended

record 'a pool =
  next_job :: nat
  jobs_closed :: bool
  workers :: "worker list"
  results :: "'a list"

definition pool_size :: "nat \<Rightarrow> nat" where "pool_size n = min 4 n"

definition pool_start :: "nat \<Rightarrow> 'a list \<Rightarrow> 'a pool" where
  "pool_start m init =
     \<lparr>next_job = 0, jobs_closed = False, workers = replicate m Idle, results = init\<rparr>"

definition put_result :: "(nat \<Rightarrow> 'a option) \<Rightarrow> nat \<Rightarrow> 'a list \<Rightarrow> 'a list" where
  "put_result work i rs = (case work i of None \<Rightarrow> rs | Some x \<Rightarrow> rs[i := x])"

inductive pool_step ::
  "nat \<Rightarrow> (nat \<Rightarrow> bool) \<Rightarrow> (nat \<Rightarrow> 'a option) \<Rightarrow> 'a pool \<Rightarrow> 'a pool \<Rightarrow> bool"
  for n wanted work where
  skip: "next_job s < n \<Longrightarrow> \<not> wanted (next_job s) \<Longrightarrow>
    pool_step n wanted work s (s\<lparr>next_job := Suc (next_job s)\<rparr>)"
| hand: "next_job s < n \<Longrightarrow> wanted (next_job s) \<Longrightarrow> k < length (workers s) \<Longrightarrow> workers s ! k = Idle \<Longrightarrow>
    pool_step n wanted work s
      (s\<lparr>next_job := Suc (next_job s), workers := (workers s)[k := Working (next_job s)]\<rparr>)"
| close: "next_job s = n \<Longrightarrow> \<not> jobs_closed s \<Longrightarrow> pool_step n wanted work s (s\<lparr>jobs_closed := True\<rparr>)"
| store: "k < length (workers s) \<Longrightarrow> workers s ! k = Working i \<Longrightarrow>
    pool_step n wanted work s
      (s\<lparr>workers := (workers s)[k := Idle], results := put_result work i (results s)\<rparr>)"
| leave: "jobs_closed s \<Longrightarrow> k < length (workers s) \<Longrightarrow> workers s ! k = Idle \<Longrightarrow>
    pool_step n wanted work s (s\<lparr>workers := (workers s)[k := Ended]\<rparr>)"

text \<open>\<open>wg.Wait()\<close> returns after the producer when every worker has ended.\<close>

definition pool_done :: "'a pool \<Rightarrow> bool" where
  "pool_done s \<longleftrightarrow> jobs_closed s \<and> list_all (\<lambda>v. v = Ended) (workers s)"

abbreviation pool_steps ::
  "nat \<Rightarrow> (nat \<Rightarrow> bool) \<Rightarrow> (nat \<Rightarrow> 'a option) \<Rightarrow> 'a pool \<Rightarrow> 'a pool \<Rightarrow> bool" where
  "pool_steps n wanted work \<equiv> (pool_step n wanted work)\<^sup>*\<^sup>*"

text \<open>What the results are to be: the initial value, replaced where an index was wanted and found.\<close>

definition expected :: "(nat \<Rightarrow> bool) \<Rightarrow> (nat \<Rightarrow> 'a option) \<Rightarrow> 'a list \<Rightarrow> nat \<Rightarrow> 'a" where
  "expected wanted work init i =
     (if wanted i then case work i of None \<Rightarrow> init ! i | Some x \<Rightarrow> x else init ! i)"

section \<open>The invariant\<close>

definition pool_inv :: "nat \<Rightarrow> (nat \<Rightarrow> bool) \<Rightarrow> (nat \<Rightarrow> 'a option) \<Rightarrow> 'a list \<Rightarrow> 'a pool \<Rightarrow> bool" where
  "pool_inv n wanted work init s \<longleftrightarrow>
     length (results s) = n \<and> next_job s \<le> n \<and> (jobs_closed s \<longrightarrow> next_job s = n) \<and>
     (Ended \<in> set (workers s) \<longrightarrow> jobs_closed s) \<and>
     (\<forall>i. Working i \<in> set (workers s) \<longrightarrow> i < next_job s \<and> wanted i) \<and>
     (\<forall>i < n. results s ! i \<in> {init ! i, expected wanted work init i}) \<and>
     (\<forall>i < next_job s. Working i \<notin> set (workers s) \<longrightarrow> results s ! i = expected wanted work init i) \<and>
     (\<forall>i < n. next_job s \<le> i \<longrightarrow> results s ! i = init ! i)"

lemma pool_inv_start: "length init = n \<Longrightarrow> pool_inv n wanted work init (pool_start m init)"
  by (auto simp: pool_inv_def pool_start_def)

lemma set_update_memberD: "x \<in> set (xs[k := y]) \<Longrightarrow> x = y \<or> x \<in> set xs"
  using set_update_subset_insert by fastforce

lemma kept_in_update: "x \<in> set xs \<Longrightarrow> xs ! k \<noteq> x \<Longrightarrow> x \<in> set (xs[k := y])"
  by (auto simp: in_set_conv_nth) (metis nth_list_update_neq)

lemma put_result_length [simp]: "length (put_result work i rs) = length rs"
  by (simp add: put_result_def split: option.splits)

lemma put_result_nth:
  "j < length rs \<Longrightarrow> put_result work i rs ! j = (if j = i then case work i of None \<Rightarrow> rs ! j | Some x \<Rightarrow> x else rs ! j)"
  by (auto simp: put_result_def split: option.splits)

lemma pool_inv_step:
  assumes "pool_step n wanted work s t" and inv: "pool_inv n wanted work init s"
  shows "pool_inv n wanted work init t"
  using assms(1)
proof cases
  case skip
  then show ?thesis using inv
    by (auto simp: pool_inv_def expected_def less_Suc_eq)
next
  case (hand k)
  have "Working i \<in> set ((workers s)[k := Working (next_job s)]) \<Longrightarrow>
      i = next_job s \<or> Working i \<in> set (workers s)" for i
    by (auto dest: set_update_memberD)
  moreover have "Ended \<in> set ((workers s)[k := Working (next_job s)]) \<Longrightarrow> Ended \<in> set (workers s)"
    by (auto dest: set_update_memberD)
  moreover have "Working (next_job s) \<in> set ((workers s)[k := Working (next_job s)])"
    using hand by (simp add: set_update_memI)
  moreover have "Working i \<notin> set ((workers s)[k := Working (next_job s)]) \<Longrightarrow> Working i \<notin> set (workers s)" for i
    using kept_in_update [of "Working i" "workers s" k] hand by auto
  ultimately show ?thesis using hand inv
    unfolding pool_inv_def by (simp add: less_Suc_eq) (metis less_Suc_eq nat_less_le)
next
  case close
  then show ?thesis using inv by (auto simp: pool_inv_def)
next
  case (store k i)
  have i: "i < next_job s" "wanted i" "i < n" "length (results s) = n"
    using inv store nth_mem [of k "workers s"] by (auto simp: pool_inv_def)
  have sub: "w \<in> set ((workers s)[k := Idle]) \<Longrightarrow> w \<noteq> Idle \<Longrightarrow> w \<in> set (workers s)" for w
    by (auto dest: set_update_memberD)
  have res: "put_result work i (results s) ! j = (if j = i then expected wanted work init i else results s ! j)"
    if "j < n" for j
    using that i inv
    by (auto simp: put_result_nth expected_def pool_inv_def split: option.splits)
  have kept: "Working j \<notin> set ((workers s)[k := Idle]) \<Longrightarrow> j \<noteq> i \<Longrightarrow> Working j \<notin> set (workers s)" for j
    using kept_in_update [of "Working j" "workers s" k Idle] store by auto
  show ?thesis unfolding pool_inv_def
  proof (intro conjI allI impI)
    fix j assume "j < n"
    then show "results t ! j \<in> {init ! j, expected wanted work init j}"
      using res inv store by (simp add: pool_inv_def)
  next
    fix j assume "j < next_job t" "Working j \<notin> set (workers t)"
    then show "results t ! j = expected wanted work init j"
      using res [of j] kept [of j] inv store by (auto simp: pool_inv_def)
  next
    fix j assume "j < n" "next_job t \<le> j"
    then show "results t ! j = init ! j" using res i inv store by (auto simp: pool_inv_def)
  qed (use inv store sub in \<open>auto simp: pool_inv_def\<close>)
next
  case (leave k)
  have "Working i \<in> set ((workers s)[k := Ended]) \<longleftrightarrow> Working i \<in> set (workers s)" for i
    using kept_in_update [of "Working i" "workers s" k Ended] leave by (auto dest: set_update_memberD)
  then show ?thesis using leave inv by (auto simp: pool_inv_def)
qed

lemma pool_inv_steps:
  "pool_steps n wanted work s t \<Longrightarrow> pool_inv n wanted work init s \<Longrightarrow> pool_inv n wanted work init t"
  by (induction rule: rtranclp_induct) (auto intro: pool_inv_step)

lemma pool_workers_steps:
  "pool_steps n wanted work s t \<Longrightarrow> length (workers t) = length (workers s)"
  by (induction rule: rtranclp_induct) (auto elim: pool_step.cases)

lemma pool_done_results:
  assumes "pool_inv n wanted work init s" and "pool_done s"
  shows "results s = map (expected wanted work init) [0..<n]"
  using assms by (intro nth_equalityI) (auto simp: pool_inv_def pool_done_def list_all_iff)

section \<open>Progress and termination\<close>

text \<open>As long as the pool is not done some step is possible, when there is a worker for the jobs.\<close>

lemma pool_progress:
  assumes inv: "pool_inv n wanted work init s" and "\<not> pool_done s" and "workers s \<noteq> [] \<or> n = 0"
  shows "\<exists>t. pool_step n wanted work s t"
proof (cases "\<exists>k i. k < length (workers s) \<and> workers s ! k = Working i")
  case True
  then show ?thesis by (blast intro: pool_step.store)
next
  case False
  then have free: "w = Idle \<or> w = Ended" if "w \<in> set (workers s)" for w
    using that by (metis in_set_conv_nth worker.exhaust)
  consider "next_job s < n" | "next_job s = n" "\<not> jobs_closed s" | "jobs_closed s"
    using inv by (auto simp: pool_inv_def) force
  then show ?thesis
  proof cases
    case 1
    then have "\<not> jobs_closed s" using inv by (auto simp: pool_inv_def)
    have "workers s \<noteq> []" using 1 assms(3) by auto
    moreover from this have "workers s ! 0 \<in> set (workers s)" by simp
    moreover have "Ended \<notin> set (workers s)" using inv \<open>\<not> jobs_closed s\<close> by (simp add: pool_inv_def)
    ultimately have "workers s ! 0 = Idle" using free by metis
    then show ?thesis using 1 \<open>workers s \<noteq> []\<close>
      by (cases "wanted (next_job s)") (auto intro: pool_step.skip pool_step.hand)
  next
    case 2
    then show ?thesis by (blast intro: pool_step.close)
  next
    case 3
    then obtain k where "k < length (workers s)" "workers s ! k \<noteq> Ended"
      using assms(2) by (auto simp: pool_done_def list_all_length)
    then show ?thesis using 3 free by (metis nth_mem pool_step.leave)
  qed
qed

fun worker_weight :: "worker \<Rightarrow> nat" where
  "worker_weight Idle = 1" | "worker_weight (Working i) = 2" | "worker_weight Ended = 0"

definition pool_weight :: "nat \<Rightarrow> 'a pool \<Rightarrow> nat" where
  "pool_weight n s = 3 * (n - next_job s) + (if jobs_closed s then 0 else 1) +
     sum_list (map worker_weight (workers s))"

lemma weight_update:
  assumes "k < length ws"
  shows "sum_list (map worker_weight (ws[k := w])) + worker_weight (ws ! k) =
    sum_list (map worker_weight ws) + worker_weight w"
  using assms by (induction ws arbitrary: k) (auto split: nat.splits)

lemma pool_step_lighter:
  assumes "pool_step n wanted work s t"
  shows "pool_weight n t < pool_weight n s"
  using assms
proof cases
  case (hand k)
  then show ?thesis using weight_update [of k "workers s" "Working (next_job s)"]
    by (simp add: pool_weight_def)
next
  case (store k i)
  then show ?thesis using weight_update [of k "workers s" Idle] by (simp add: pool_weight_def)
next
  case (leave k)
  then show ?thesis using weight_update [of k "workers s" Ended] by (simp add: pool_weight_def)
qed (auto simp: pool_weight_def)

text \<open>Every run can be continued until the pool is done, and no run is longer than its weight.\<close>

lemma pool_completes:
  assumes "pool_inv n wanted work init s" and "workers s \<noteq> [] \<or> n = 0"
  shows "\<exists>t. pool_steps n wanted work s t \<and> pool_done t"
  using assms
proof (induction "pool_weight n s" arbitrary: s rule: less_induct)
  case less
  show ?case
  proof (cases "pool_done s")
    case False
    obtain t where t: "pool_step n wanted work s t" using pool_progress [OF less.prems(1) False less.prems(2)] by blast
    have "workers t \<noteq> [] \<or> n = 0"
      using pool_workers_steps [OF r_into_rtranclp [where r = "pool_step n wanted work", OF t]] less.prems(2) by auto
    then obtain u where "pool_steps n wanted work t u" "pool_done u"
      using less.hyps [OF pool_step_lighter [OF t] pool_inv_step [OF t less.prems(1)]] by blast
    then show ?thesis using t by (meson converse_rtranclp_into_rtranclp)
  qed blast
qed

lemma pool_terminates: "wfp (\<lambda>t s. pool_step n wanted work s t)"
  by (rule wfp_if_convertible_to_nat [where f = "pool_weight n"]) (rule pool_step_lighter)

end
