(* ===== verification/Reports.thy ===== *)
theory Reports
  imports Commands WorkerPool
begin

text \<open>
  The commands that only report: \<open>cmd_list.go\<close>, \<open>cmd_open.go\<close>, \<open>cmd_doctor.go\<close> and the listings of
  \<open>cmd_mount.go\<close> and \<open>cmd_resources.go\<close>.  A command gives the rows it prints.  The packages
  \<open>net/url\<close> and \<open>net/http\<close>, the browser and the host name in URLs are a record \<open>front\<close>.
\<close>

record front =
  url_host :: string
  with_token :: "string \<Rightarrow> string \<Rightarrow> string option"
  browser_starts :: "string \<Rightarrow> string \<Rightarrow> bool"
  health_url :: "string \<Rightarrow> string option"
  request_ok :: "string \<Rightarrow> bool"
  http_get :: "history \<Rightarrow> string \<Rightarrow> (int \<times> string option) option"

section \<open>List\<close>

definition imageVersionDisplay :: "system \<Rightarrow> string \<Rightarrow> string" where
  "imageVersionDisplay E boxVersion =
     (if boxVersion = '''' then ''?''
      else if boxVersion = Version E then boxVersion
      else boxVersion @ '' (cli: '' @ Version E @ '')'')"

text \<open>
  \<open>collectListURLs\<close> as a function of what each lookup gives: a dash unless the box runs and its
  address was found.
\<close>

definition collectListURLs :: "Box list \<Rightarrow> (Box \<Rightarrow> string option) \<Rightarrow> string list" where
  "collectListURLs boxes lookup =
     map (\<lambda>b. if DerivedState b = ''running'' then case lookup b of None \<Rightarrow> ''-'' | Some url \<Rightarrow> url else ''-'') boxes"

text \<open>The lookups of one possible schedule: a worker that takes the boxes in their order.\<close>

definition dashboard_of :: "system \<Rightarrow> front \<Rightarrow> Box \<Rightarrow> string tx9" where
  "dashboard_of E F b =
     bind_comp (HostPort E b) (\<lambda>port. ret (DashboardURL (url_host F) port (ExecutorWebBaseURL b)))"

fun list_urls :: "system \<Rightarrow> front \<Rightarrow> Box list \<Rightarrow> string list tx9" where
  "list_urls E F [] = ret []"
| "list_urls E F (b # bs) =
     bind_comp
       (if DerivedState b = ''running'' then
          bind_comp (attempt (dashboard_of E F b)) (\<lambda>r. ret (case r of Inl _ \<Rightarrow> ''-'' | Inr url \<Rightarrow> url))
        else ret ''-'') (\<lambda>u.
     bind_comp (list_urls E F bs) (\<lambda>us. ret (u # us)))"

definition list_row :: "system \<Rightarrow> Box \<Rightarrow> string \<Rightarrow> string list" where
  "list_row E b url = [b_Name b, DerivedState b, imageVersionDisplay E (b_Version b), url]"

definition cmdList :: "system \<Rightarrow> front \<Rightarrow> string list list tx9" where
  "cmdList E F =
     withDocker E
       (bind_comp (List E) (\<lambda>boxes.
        bind_comp (list_urls E F boxes) (\<lambda>urls. ret (map2 (list_row E) boxes urls))))"

section \<open>Open\<close>

definition firstNonEmpty :: "string list \<Rightarrow> string" where
  "firstNonEmpty vals = (case filter (\<lambda>v. v \<noteq> '''') vals of [] \<Rightarrow> '''' | v # _ \<Rightarrow> v)"

definition OpenURL :: "front \<Rightarrow> string \<Rightarrow> string \<Rightarrow> string \<Rightarrow> tx9_error + string" where
  "OpenURL F port token webBaseURL =
     (case with_token F (DashboardURL (url_host F) port webBaseURL) token of
        None \<Rightarrow> Inl (BadURL webBaseURL)
      | Some url \<Rightarrow> Inr url)"

datatype opened = InBrowser string | PrintedURL string

definition cmdOpen :: "system \<Rightarrow> front \<Rightarrow> string \<Rightarrow> opened tx9" where
  "cmdOpen E F name =
     withDocker E
       (bind_comp (Get E name) (\<lambda>b.
        if DerivedState b \<noteq> ''running'' then fail (NotRunning name) else
        bind_comp (HostPort E b) (\<lambda>port.
        bind_comp (BoxToken E name) (\<lambda>tok.
        bind_comp (lift_result (OpenURL F port tok (ExecutorWebBaseURL b))) (\<lambda>url.
        let browser = firstNonEmpty [getenv E ''TX9_BROWSER'', getenv E ''BOX_BROWSER''] in
        ret (if browser \<noteq> '''' \<and> browser_starts F browser url then InBrowser browser else PrintedURL url))))))"

section \<open>Doctor\<close>

definition hostProbeURL :: "string \<times> string \<Rightarrow> string" where
  "hostProbeURL = (\<lambda>(ip, port).
     let h = (if ip = '''' \<or> ip = ''0.0.0.0'' then ''127.0.0.1'' else if ip = ''::'' then ''::1'' else ip)
     in ''http://'' @ JoinHostPort h port @ ''/'')"

text \<open>One request and its answer: the status and what could be read of the body.\<close>

definition http_request :: "front \<Rightarrow> string \<Rightarrow> (int \<times> string option) tx9" where
  "http_request F url w =
     (case http_get F (events w) url of
        None \<Rightarrow> (Inl (ProbeFailed url), logged (HttpGet url) False w)
      | Some answer \<Rightarrow> (Inr answer, logged (HttpGet url) True w))"

definition probe_once :: "front \<Rightarrow> string \<Rightarrow> unit tx9" where
  "probe_once F url =
     bind_comp (http_request F url) (\<lambda>(status, _).
       if status < 400 then ret () else fail (ProbeAnswer url status))"

definition probe_attempts :: nat where "probe_attempts = 6"

text \<open>\<open>left\<close> attempts are left; there is a wait between two attempts.\<close>

fun probe_loop :: "system \<Rightarrow> front \<Rightarrow> string \<Rightarrow> nat \<Rightarrow> unit tx9" where
  "probe_loop E F url 0 = ret ()"
| "probe_loop E F url (Suc left) =
     bind_comp (attempt (probe_once F url)) (\<lambda>r.
       case r of
         Inr _ \<Rightarrow> ret ()
       | Inl lastErr \<Rightarrow>
           if left = 0 then fail (Unreachable url lastErr)
           else bind_comp (retry_wait E) (\<lambda>_. probe_loop E F url left))"

definition probeHostPort :: "system \<Rightarrow> front \<Rightarrow> string \<times> string \<Rightarrow> unit tx9" where
  "probeHostPort E F binding =
     (let url = hostProbeURL binding in
      if \<not> request_ok F url then fail (BadURL url) else probe_loop E F url probe_attempts)"

definition probeExecutorPublicURL :: "front \<Rightarrow> string \<Rightarrow> unit tx9" where
  "probeExecutorPublicURL F baseURL =
     (case health_url F baseURL of
        None \<Rightarrow> fail (BadURL baseURL)
      | Some url \<Rightarrow>
          if \<not> request_ok F url then fail (BadURL url)
          else bind_comp (http_request F url) (\<lambda>(status, body).
            case body of
              None \<Rightarrow> fail (ProbeFailed url)
            | Some text \<Rightarrow>
                if status \<noteq> 200 \<or> trim_space (take 64 text) \<noteq> ''ok'' then fail (ProbeAnswer url status) else ret ()))"

definition errors_of :: "('e + 'a) list \<Rightarrow> 'e list" where
  "errors_of rs = concat (map (\<lambda>r. case r of Inl e \<Rightarrow> [e] | Inr _ \<Rightarrow> []) rs)"

definition host_probe :: "system \<Rightarrow> front \<Rightarrow> Box \<Rightarrow> unit tx9" where
  "host_probe E F b =
     bind_comp (HostBinding E b) (\<lambda>binding. probeHostPort E F binding)"

definition public_probe :: "front \<Rightarrow> Box \<Rightarrow> unit tx9" where
  "public_probe F b =
     (if ExecutorWebBaseURL b \<noteq> '''' then probeExecutorPublicURL F (ExecutorWebBaseURL b) else ret ())"

definition cmdDoctor :: "system \<Rightarrow> front \<Rightarrow> string \<Rightarrow> unit tx9" where
  "cmdDoctor E F name =
     withDocker E
       (bind_comp (Get E name) (\<lambda>b.
        if DerivedState b \<noteq> ''running'' then fail (NotRunning name) else
        bind_comp (BoxToken E name) (\<lambda>tok.
        bind_comp (attempt (HB E b tok [''doctor''])) (\<lambda>guest.
        bind_comp (attempt (host_probe E F b)) (\<lambda>probe.
        bind_comp (attempt (public_probe F b)) (\<lambda>pub.
        let errs = errors_of [guest, probe, pub] in
        if errs \<noteq> [] then fail (DoctorFailed errs) else ret ()))))))"

section \<open>Mounts and resources\<close>

definition mountMode :: "AgentMount \<Rightarrow> string" where
  "mountMode m = (if ReadOnly m then ''ro'' else ''rw'')"

definition mount_row :: "AgentMount \<Rightarrow> string list" where
  "mount_row m =
     [Source m, Target m, mountMode m, (if RequireMountpoint m then ''true'' else ''false'')]"

definition cmdMountList :: "system \<Rightarrow> string \<Rightarrow> string list list tx9" where
  "cmdMountList E name =
     withDocker E
       (bind_comp (Get E name) (\<lambda>_.
        bind_comp (LoadAgentMounts E name) (\<lambda>mounts. ret (map mount_row mounts))))"

text \<open>
  \<open>FormatCPUs\<close> and \<open>FormatBytes\<close> of finite values are parameters; \<open>formatResourceCPUs\<close> and the tables
  of \<open>printResources\<close>.
\<close>

definition FormatCPUs :: "(int \<Rightarrow> string) \<Rightarrow> int \<Rightarrow> string" where
  "FormatCPUs FormatFloat nanoCPUs = (if nanoCPUs = 0 then ''unlimited'' else FormatFloat nanoCPUs)"

definition formatResourceCPUs :: "(int \<Rightarrow> string) \<Rightarrow> string \<Rightarrow> int \<Rightarrow> string" where
  "formatResourceCPUs FormatFloat cid nanoCPUs =
     (if cid = '''' then ''-'' else FormatCPUs FormatFloat nanoCPUs)"

definition printResources ::
  "(int \<Rightarrow> string) \<Rightarrow> (int \<Rightarrow> string) \<Rightarrow> Box \<Rightarrow> Resources \<Rightarrow> int \<Rightarrow> int \<Rightarrow> string list list" where
  "printResources FormatFloat FormatBytes b r agentUsed executorUsed =
     [[''agent'', resourceRoleState (AgentID b) (AgentState b),
       formatResourceCPUs FormatFloat (AgentID b) (NanoCPUs (Agent r)),
       formatResourceMemory FormatBytes (AgentID b) (MemoryBytes (Agent r))],
      [''executor'', resourceRoleState (ExecutorID b) (ExecutorState b),
       formatResourceCPUs FormatFloat (ExecutorID b) (NanoCPUs (Executor r)),
       formatResourceMemory FormatBytes (ExecutorID b) (MemoryBytes (Executor r))],
      [''agent-data'', formatVolumeUsed FormatBytes agentUsed,
       FormatVolumeBudget FormatBytes (AgentVolumeBudgetBytes r),
       volumeBudgetStatus agentUsed (AgentVolumeBudgetBytes r)],
      [''exec-data'', formatVolumeUsed FormatBytes executorUsed,
       FormatVolumeBudget FormatBytes (ExecutorVolumeBudgetBytes r),
       volumeBudgetStatus executorUsed (ExecutorVolumeBudgetBytes r)]]"

definition used_of :: "(string \<times> int) list \<Rightarrow> string \<Rightarrow> int" where
  "used_of usage v = (case map_of usage v of None \<Rightarrow> 0 | Some n \<Rightarrow> n)"

definition cmdResourcesShow ::
  "system \<Rightarrow> (int \<Rightarrow> string) \<Rightarrow> (int \<Rightarrow> string) \<Rightarrow> string \<Rightarrow> string list list tx9" where
  "cmdResourcesShow E FormatFloat FormatBytes name =
     withDocker E
       (bind_comp (Get E name) (\<lambda>b.
        bind_comp (InspectResources E b) (\<lambda>r.
        bind_comp (attempt (VolumeUsage E [agent_volume name, executor_volume name])) (\<lambda>u.
        ret (case u of
            Inl _ \<Rightarrow> printResources FormatFloat FormatBytes b r (-1) (-1)
          | Inr (usage, _) \<Rightarrow> printResources FormatFloat FormatBytes b r
              (used_of usage (agent_volume name)) (used_of usage (executor_volume name)))))))"

end
