(* ===== verification/ReportsSafety.thy ===== *)
theory ReportsSafety
  imports Reports LogsSafety
begin

text \<open>
  The reporting commands change nothing on the host, the doctor asks a bounded number of times and
  passes only if all three checks did, and the listing does not depend on how its workers are scheduled.
\<close>

section \<open>The listing\<close>

text \<open>The states that a run of the workers of \<open>collectListURLs\<close> can reach.\<close>

definition list_step_of :: "Box list \<Rightarrow> (Box \<Rightarrow> string option) \<Rightarrow> string pool \<Rightarrow> string pool \<Rightarrow> bool" where
  "list_step_of boxes lookup = pool_steps (length boxes)
     (\<lambda>i. DerivedState (boxes ! i) = ''running'') (\<lambda>i. lookup (boxes ! i))"

definition list_start :: "Box list \<Rightarrow> string pool" where
  "list_start boxes = pool_start (pool_size (length boxes)) (replicate (length boxes) ''-'')"

lemma list_reaches_inv:
  assumes "list_step_of boxes lookup (list_start boxes) s"
  shows "pool_inv (length boxes) (\<lambda>i. DerivedState (boxes ! i) = ''running'') (\<lambda>i. lookup (boxes ! i))
      (replicate (length boxes) ''-'') s"
    and "workers s \<noteq> [] \<or> length boxes = 0"
proof -
  let ?n = "length boxes" and ?wanted = "\<lambda>i. DerivedState (boxes ! i) = ''running''"
  let ?init = "replicate (length boxes) ''-''" and ?work = "\<lambda>i. lookup (boxes ! i)"
  show "pool_inv ?n ?wanted ?work ?init s"
    using assms pool_inv_steps pool_inv_start [of ?init ?n]
    unfolding list_step_of_def list_start_def by (metis length_replicate)
  have "length (workers s) = pool_size ?n"
    using pool_workers_steps [of ?n ?wanted ?work "list_start boxes" s] assms
    by (simp add: list_step_of_def list_start_def pool_start_def)
  then have "length (workers s) = min 4 ?n" by (simp only: pool_size_def)
  then show "workers s \<noteq> [] \<or> ?n = 0" by (cases "workers s") (auto simp: min_def split: if_splits)
qed

text \<open>C27: every schedule of the workers that look up the addresses of the listing refines the function
  on lists: when the pool is done, the results are those of looking up each running box, in the order of
  the boxes.\<close>

theorem list_schedules_agree:
  assumes "list_step_of boxes lookup (list_start boxes) s" and "pool_done s"
  shows "results s = collectListURLs boxes lookup"
proof -
  let ?init = "replicate (length boxes) ''-''"
  have "map (expected (\<lambda>i. DerivedState (boxes ! i) = ''running'') (\<lambda>i. lookup (boxes ! i)) ?init) [0..<length boxes] =
      collectListURLs boxes lookup"
    unfolding collectListURLs_def
    by (subst (4) map_nth [symmetric]) (auto simp: expected_def comp_def split: option.split)
  then show ?thesis using pool_done_results [OF list_reaches_inv(1) [OF assms(1)] assms(2)] by simp
qed

text \<open>C28: from every state that the workers of the listing can reach they can finish, and there is no
  infinite run of their steps: the producer never deadlocks on its channel.\<close>

theorem list_lookups_finish:
  assumes "list_step_of boxes lookup (list_start boxes) s"
  shows "(\<exists>t. list_step_of boxes lookup s t \<and> pool_done t) \<and>
    wfp (\<lambda>t s. pool_step (length boxes) (\<lambda>i. DerivedState (boxes ! i) = ''running'') (\<lambda>i. lookup (boxes ! i)) s t)"
  using pool_completes [OF list_reaches_inv [OF assms]] pool_terminates
  by (simp add: list_step_of_def)

text \<open>A run with the one box of the demo and one worker, step by step.\<close>

definition list_finished :: "string pool" where
  "list_finished = \<lparr>next_job = 1, jobs_closed = True, workers = [Ended], results = [''u'']\<rparr>"

lemma list_demo_run: "list_step_of [demo_box] (\<lambda>b. Some ''u'') (list_start [demo_box]) list_finished"
proof -
  let ?st = "pool_step (length [demo_box]) (\<lambda>i. DerivedState ([demo_box] ! i) = ''running'') (\<lambda>i. Some ''u'')"
  have run: "DerivedState demo_box = ''running''" by code_simp
  have "?st (list_start [demo_box]) \<lparr>next_job = 1, jobs_closed = False, workers = [Working 0], results = [''-'']\<rparr>"
    using pool_step.hand [of "list_start [demo_box]" 1 "\<lambda>i. DerivedState ([demo_box] ! i) = ''running''" 0 "\<lambda>i. Some ''u''"] run
    by (simp add: list_start_def pool_start_def pool_size_def)
  moreover have "?st \<lparr>next_job = 1, jobs_closed = False, workers = [Working 0], results = [''-'']\<rparr>
      \<lparr>next_job = 1, jobs_closed = False, workers = [Idle], results = [''u'']\<rparr>"
    using pool_step.store [of 0 "\<lparr>next_job = 1, jobs_closed = False, workers = [Working 0], results = [''-'']\<rparr>" 0 _ _ "\<lambda>i. Some ''u''"]
    by (simp add: put_result_def del: demo_box_def)
  moreover have "?st \<lparr>next_job = 1, jobs_closed = False, workers = [Idle], results = [''u'']\<rparr>
      \<lparr>next_job = 1, jobs_closed = True, workers = [Idle], results = [''u'']\<rparr>"
    using pool_step.close [of "\<lparr>next_job = 1, jobs_closed = False, workers = [Idle], results = [''u'']\<rparr>" 1] by simp
  moreover have "?st \<lparr>next_job = 1, jobs_closed = True, workers = [Idle], results = [''u'']\<rparr> list_finished"
    using pool_step.leave [of "\<lparr>next_job = 1, jobs_closed = True, workers = [Idle], results = [''u'']\<rparr>" 0]
    by (simp add: list_finished_def)
  ultimately show ?thesis unfolding list_step_of_def
    by (iprover intro: converse_rtranclp_into_rtranclp rtranclp.rtrancl_refl)
qed

lemma list_schedules_agree_witness: "results list_finished = collectListURLs [demo_box] (\<lambda>b. Some ''u'')"
  by (rule list_schedules_agree [OF list_demo_run]) (simp add: pool_done_def list_finished_def)

lemma list_lookups_finish_witness:
  "(\<exists>t. list_step_of [demo_box] (\<lambda>b. Some ''u'') list_finished t \<and> pool_done t) \<and>
    wfp (\<lambda>t s. pool_step (length [demo_box]) (\<lambda>i. DerivedState ([demo_box] ! i) = ''running'')
      (\<lambda>i. Some ''u'') s t)"
  using list_lookups_finish [OF list_demo_run] by simp

lemma bind_rule: "m w = (Inr x, w') \<Longrightarrow> bind_comp m f w = f x w'"
  by (simp add: bind_comp_def)

lemma list_urls_total: "\<exists>us w'. list_urls E F boxes w = (Inr us, w') \<and> length us = length boxes"
proof (induction boxes arbitrary: w)
  case (Cons b bs)
  let ?m = "(if DerivedState b = ''running'' then
      bind_comp (attempt (dashboard_of E F b)) (\<lambda>r. ret (case r of Inl _ \<Rightarrow> ''-'' | Inr url \<Rightarrow> url))
      else ret ''-'') :: string tx9"
  obtain r w1 where "dashboard_of E F b w = (r, w1)" by fastforce
  then obtain u w2 where m: "?m w = (Inr u, w2)"
    by (cases "DerivedState b = ''running''") (auto simp: bind_comp_def attempt_def ret_def)
  obtain us w3 where us: "list_urls E F bs w2 = (Inr us, w3)" "length us = length bs" using Cons by blast
  have "list_urls E F (b # bs) w = bind_comp (list_urls E F bs) (\<lambda>us. ret (u # us)) w2"
    by (subst list_urls.simps(2)) (rule bind_rule [of ?m w u w2, OF m])
  also have "\<dots> = (Inr (u # us), w3)"
    by (subst bind_rule [where m = "list_urls E F bs", OF us(1)]) (simp add: ret_def)
  finally show ?case using us(2) by simp
qed (simp add: ret_def)

section \<open>Counting calls\<close>

lemma makes_only_case_list [call_rules]:
  "makes_only P n \<Longrightarrow> (\<And>x xs. l = x # xs \<Longrightarrow> makes_only P (c x xs)) \<Longrightarrow>
     makes_only P (case l of [] \<Rightarrow> n | x # xs \<Rightarrow> c x xs)"
  by (cases l) auto

lemma reads_HostBinding: "makes_only reading (HostBinding E b)"
  unfolding HostBinding_def ContainerInspect_def by (intro call_rules) simp_all

definition at_most :: "(call \<Rightarrow> bool) \<Rightarrow> nat \<Rightarrow> 'a tx9 \<Rightarrow> bool" where
  "at_most c k m \<longleftrightarrow> (\<forall>w. \<exists>es. events (snd (m w)) = events w @ es \<and> length (filter (\<lambda>e. c (fst e)) es) \<le> k)"

lemma at_most_zero: "makes_only (\<lambda>x. \<not> c x) m \<Longrightarrow> at_most c k m"
  unfolding at_most_def makes_only_def by (metis filter_False le0 list.size(3))

lemma at_most_more: "at_most c k m \<Longrightarrow> k \<le> k' \<Longrightarrow> at_most c k' m"
  unfolding at_most_def by (meson le_trans)

lemma at_most_bind:
  assumes "at_most c k m" and "\<And>x. at_most c k' (f x)"
  shows "at_most c (k + k') (bind_comp m f)"
  unfolding at_most_def
proof
  fix w
  obtain r w1 where run: "m w = (r, w1)" by fastforce
  obtain es where es: "events w1 = events w @ es" "length (filter (\<lambda>e. c (fst e)) es) \<le> k"
    using assms(1) run unfolding at_most_def by (metis snd_conv)
  show "\<exists>es. events (snd (bind_comp m f w)) = events w @ es \<and> length (filter (\<lambda>e. c (fst e)) es) \<le> k + k'"
  proof (cases r)
    case (Inl e)
    then show ?thesis using run es by (auto simp: bind_comp_def)
  next
    case (Inr x)
    obtain fs where "events (snd (f x w1)) = events w1 @ fs" "length (filter (\<lambda>e. c (fst e)) fs) \<le> k'"
      using assms(2) unfolding at_most_def by blast
    then show ?thesis using run es Inr
      by (intro exI [of _ "es @ fs"]) (auto simp: bind_comp_def)
  qed
qed

lemma at_most_attempt: "at_most c k m \<Longrightarrow> at_most c k (attempt m)"
  unfolding at_most_def attempt_def by (auto split: prod.splits) (metis snd_conv)

section \<open>The doctor\<close>

fun is_get :: "call \<Rightarrow> bool" where
  "is_get (HttpGet url) = True"
| "is_get c = False"

lemma reading_not_get: "reading c \<Longrightarrow> \<not> is_get c"
  by (cases c) auto

lemma http_request_one: "at_most c 1 (http_request F url)"
proof -
  have "length (filter (\<lambda>e. c (fst e)) [x]) \<le> 1" for x :: "call \<times> bool" by simp
  then show ?thesis unfolding at_most_def http_request_def logged_def
    by (auto split: option.splits)
qed

lemma at_most_pure: "at_most c k (ret x)" "at_most c k (fail e)"
  by (simp_all add: at_most_def ret_def fail_def)

lemma probe_once_one: "at_most c 1 (probe_once F url)"
proof -
  have "at_most c (1 + 0) (probe_once F url)"
    unfolding probe_once_def
    by (intro at_most_bind http_request_one) (auto split: prod.split intro!: at_most_pure)
  then show ?thesis by simp
qed

lemma retry_wait_none: "at_most is_get 0 (retry_wait E)"
  by (auto simp: at_most_def retry_wait_def logged_def)

lemma probe_loop_gets: "at_most is_get left (probe_loop E F url left)"
proof (induction left)
  case (Suc left)
  have "at_most is_get (1 + left) (probe_loop E F url (Suc left))"
    unfolding probe_loop.simps
  proof (intro at_most_bind at_most_attempt probe_once_one)
    fix r
    have "at_most is_get (0 + left) (bind_comp (retry_wait E) (\<lambda>_. probe_loop E F url left))"
      by (intro at_most_bind retry_wait_none Suc.IH)
    then show "at_most is_get left (case r of Inl lastErr \<Rightarrow> if left = 0 then fail (Unreachable url lastErr)
        else bind_comp (retry_wait E) (\<lambda>_. probe_loop E F url left) | Inr _ \<Rightarrow> ret ())"
      by (auto split: sum.split intro: at_most_pure)
  qed
  then show ?case by simp
qed (simp add: at_most_pure)

lemma host_probe_gets: "at_most is_get 6 (host_probe E F b)"
proof -
  have "at_most is_get 0 (HostBinding E b)"
    by (rule at_most_zero, rule makes_only_weaken [OF reads_HostBinding reading_not_get])
  moreover have "at_most is_get 6 (probeHostPort E F x)" for x
    using probe_loop_gets [of 6 E F] by (auto simp: probeHostPort_def Let_def probe_attempts_def intro: at_most_pure)
  ultimately have "at_most is_get (0 + 6) (host_probe E F b)"
    unfolding host_probe_def by (rule at_most_bind)
  then show ?thesis by simp
qed

lemma public_probe_gets: "at_most is_get 1 (public_probe F b)"
proof -
  have one: "at_most is_get 1 (bind_comp (http_request F url) g)"
    if "\<And>x. at_most is_get 0 (g x)" for url and g :: "int \<times> string option \<Rightarrow> unit tx9"
    using at_most_bind [OF http_request_one [where url = url] that] by simp
  show ?thesis
    unfolding public_probe_def probeExecutorPublicURL_def
    by (auto simp del: One_nat_def split: option.split prod.split intro!: at_most_pure one)
qed

text \<open>The doctor of the guest, and what its checks may do.\<close>

definition doctor_call :: "call \<Rightarrow> bool" where
  "doctor_call c \<longleftrightarrow> reading c \<or> is_get c \<or> c = Sleep \<or>
     (\<exists>i tok. c = RunExec i (hb_prefix tok @ [hb_script, ''hb'', ''doctor'']) '''')"

lemma doctor_hb_calls: "makes_only (\<lambda>c. \<exists>i. c = RunExec i (hb_prefix tok @ [hb_script, ''hb'', ''doctor'']) '''')
    (HB E b tok [''doctor''])"
  unfolding HB_def Exec_def by (intro call_rules) auto

lemma probe_calls:
  "makes_only doctor_call (host_probe E F b)" "makes_only doctor_call (public_probe F b)"
  "keeps_disk (host_probe E F b)" "keeps_disk (public_probe F b)"
proof -
  have get: "makes_only doctor_call (http_request F url)" "keeps_disk (http_request F url)" for url
    by (auto simp: makes_only_def keeps_def http_request_def logged_def doctor_call_def split: option.splits)
  have wait: "makes_only doctor_call (retry_wait E)"
    by (auto simp: makes_only_def retry_wait_def logged_def doctor_call_def)
  have once: "makes_only doctor_call (probe_once F url)" "keeps_disk (probe_once F url)" for url
    unfolding probe_once_def by (intro call_rules get)+
  have loop: "makes_only doctor_call (probe_loop E F url k)" "keeps_disk (probe_loop E F url k)" for url k
    by (induction k) (auto intro!: call_rules once wait split: sum.split)
  have hb: "makes_only doctor_call (HostBinding E b)"
    by (rule makes_only_weaken [OF reads_HostBinding]) (simp add: doctor_call_def)
  have disk: "keeps_disk (HostBinding E b)"
    unfolding HostBinding_def ContainerInspect_def by (intro call_rules)
  show "makes_only doctor_call (host_probe E F b)" "keeps_disk (host_probe E F b)"
    unfolding host_probe_def probeHostPort_def Let_def by (intro call_rules hb disk loop)+
  show "makes_only doctor_call (public_probe F b)" "keeps_disk (public_probe F b)"
    unfolding public_probe_def probeExecutorPublicURL_def by (intro call_rules get)+
qed

lemma keeps_disk_NewClient [call_rules]: "keeps_disk (NewClient E)"
  unfolding NewClient_def by (intro call_rules)

text \<open>The doctor calls its HTTP clients at most seven times, apart from that only reads, waits and runs
  the doctor of the guest, and changes no file.\<close>

theorem doctor_only_looks:
  "makes_only doctor_call (cmdDoctor E F name) \<and> keeps_disk (cmdDoctor E F name) \<and>
   at_most is_get 7 (cmdDoctor E F name)"
proof (intro conjI)
  have r: "makes_only doctor_call m" if "makes_only reading m" for m :: "'a tx9"
    using that by (rule makes_only_weaken) (simp add: doctor_call_def)
  have hb: "makes_only doctor_call (HB E b tok [''doctor''])" for b tok
    by (rule makes_only_weaken [OF doctor_hb_calls]) (auto simp: doctor_call_def)
  have nc: "makes_only reading (NewClient E)"
    unfolding NewClient_def by (intro call_rules) simp
  show "makes_only doctor_call (cmdDoctor E F name)"
    unfolding cmdDoctor_def withDocker_def Let_def
    by (intro makes_only_bind makes_only_split makes_only_attempt makes_only_pure hb probe_calls r [OF nc]
        r [OF reads_Get] r [OF reads_BoxToken])
  have hbd: "keeps_disk (HB E b tok args)" for b tok args
    unfolding HB_def Exec_def by (intro call_rules)
  show "keeps_disk (cmdDoctor E F name)"
    unfolding cmdDoctor_def withDocker_def Let_def by (intro call_rules hbd probe_calls keeps_disk_reads)
  have none: "at_most is_get 0 m" if "makes_only reading m" for m :: "'a tx9"
    using that by (intro at_most_zero) (erule makes_only_weaken, erule reading_not_get)
  have hb0: "at_most is_get 0 (HB E b tok [''doctor''])" for b tok
    by (rule at_most_zero, rule makes_only_weaken [OF doctor_hb_calls]) auto
  have "at_most is_get (0 + (6 + (1 + 0))) (bind_comp (attempt (HB E b tok [''doctor''])) (\<lambda>guest.
        bind_comp (attempt (host_probe E F b)) (\<lambda>probe.
        bind_comp (attempt (public_probe F b)) (\<lambda>pub.
        if errors_of [guest, probe, pub] \<noteq> [] then fail (DoctorFailed (errors_of [guest, probe, pub])) else ret ()))))"
    for b tok
    by (intro at_most_bind at_most_attempt hb0 host_probe_gets public_probe_gets) (simp add: at_most_pure)
  then have body: "at_most is_get 7 (bind_comp (attempt (HB E b tok [''doctor''])) (\<lambda>guest.
        bind_comp (attempt (host_probe E F b)) (\<lambda>probe.
        bind_comp (attempt (public_probe F b)) (\<lambda>pub.
        if errors_of [guest, probe, pub] \<noteq> [] then fail (DoctorFailed (errors_of [guest, probe, pub])) else ret ()))))"
    for b tok by simp
  have "at_most is_get (0 + 7) (bind_comp (BoxToken E name) f)"
    if "\<And>tok. at_most is_get 7 (f tok)" for f :: "string \<Rightarrow> unit tx9"
    using that by (intro at_most_bind none [OF reads_BoxToken])
  then have running: "at_most is_get 7 (if c then fail e else bind_comp (BoxToken E name) f)"
    if "\<And>tok. at_most is_get 7 (f tok)" for c e and f :: "string \<Rightarrow> unit tx9"
    using that by (simp add: at_most_pure)
  have "at_most is_get (0 + (0 + 7)) (cmdDoctor E F name)"
    unfolding cmdDoctor_def withDocker_def Let_def
    by (intro at_most_bind none [OF nc] none [OF reads_Get] running body)
  then show "at_most is_get 7 (cmdDoctor E F name)" by simp
qed

text \<open>What it means that the doctor found nothing wrong.\<close>

definition answers_host :: "front \<Rightarrow> string \<Rightarrow> bool" where
  "answers_host F url \<longleftrightarrow> (\<exists>h status body. http_get F h url = Some (status, body) \<and> status < 400)"

definition answers_ok :: "front \<Rightarrow> string \<Rightarrow> bool" where
  "answers_ok F url \<longleftrightarrow>
     (\<exists>h text. http_get F h url = Some (200, Some text) \<and> trim_space (take 64 text) = ''ok'')"

definition guest_healthy :: "system \<Rightarrow> Box \<Rightarrow> bool" where
  "guest_healthy E b \<longleftrightarrow> AgentID b \<noteq> '''' \<and> (\<exists>h tok res.
     eng_exec (daemon E) h (AgentID b) (hb_prefix tok @ [hb_script, ''hb'', ''doctor'']) '''' = Inr res \<and> ExitCode res = 0)"

definition diagnosed :: "system \<Rightarrow> front \<Rightarrow> Box \<Rightarrow> bool" where
  "diagnosed E F b \<longleftrightarrow> DerivedState b = ''running'' \<and> guest_healthy E b \<and>
     (\<exists>binding. answers_host F (hostProbeURL binding)) \<and>
     (ExecutorWebBaseURL b = '''' \<or> (\<exists>url. health_url F (ExecutorWebBaseURL b) = Some url \<and> answers_ok F url))"

lemma probe_loop_ok: "probe_loop E F url k w = (Inr (), w') \<Longrightarrow> 0 < k \<Longrightarrow> answers_host F url"
proof (induction k arbitrary: w)
  case (Suc k)
  show ?case
  proof (cases "probe_once F url w")
    case (Pair r w1)
    show ?thesis
    proof (cases r)
      case (Inl e)
      then have "0 < k" "\<exists>w2. probe_loop E F url k w2 = (Inr (), w')"
        using Suc.prems Pair by (auto simp: bind_iffs attempt_def bind_comp_def split: if_splits prod.splits sum.splits)
      then show ?thesis using Suc.IH by blast
    next
      case (Inr u)
      then show ?thesis using Pair
        by (fastforce simp: probe_once_def bind_iffs http_request_def answers_host_def split: option.splits if_splits)
    qed
  qed
qed simp

text \<open>When the doctor passes, the box is running, the guest's doctor exited with 0, the published
  port answered with a status below 400, and the public address, if there is one, answered 200 with ok.\<close>

theorem doctor_passes:
  assumes "cmdDoctor E F name w = (Inr (), w')"
  shows "\<exists>b w1 w2. Get E name w1 = (Inr b, w2) \<and> diagnosed E F b"
proof -
  obtain b w1 w2 tok guest probe pub w3 w4 w5 w6 where
    get: "Get E name w1 = (Inr b, w2)" "DerivedState b = ''running''" and
    guest: "HB E b tok [''doctor''] w3 = (guest, w4)" and probe: "host_probe E F b w4 = (probe, w5)" and
    pub: "public_probe F b w5 = (pub, w6)" and none: "errors_of [guest, probe, pub] = []"
    using assms
    by (auto simp: cmdDoctor_def withDocker_def bind_iffs Let_def split: if_splits)
  have ok: "guest = Inr ()" "probe = Inr ()" "pub = Inr ()"
    using none by (cases guest; cases probe; cases pub; simp add: errors_of_def)+
  have "guest_healthy E b"
    using guest ok by (auto simp: HB_def Exec_def bind_iffs api_iffs guest_healthy_def split: if_splits)
  moreover have "\<exists>binding. answers_host F (hostProbeURL binding)"
    using probe ok probe_loop_ok [of E F _ probe_attempts]
    by (fastforce simp: host_probe_def bind_iffs probeHostPort_def Let_def probe_attempts_def split: if_splits)
  moreover have "ExecutorWebBaseURL b = '''' \<or>
      (\<exists>url. health_url F (ExecutorWebBaseURL b) = Some url \<and> answers_ok F url)"
    using pub ok
    by (fastforce simp: public_probe_def probeExecutorPublicURL_def bind_iffs http_request_def answers_ok_def
        split: option.splits if_splits)
  ultimately show ?thesis using get unfolding diagnosed_def by blast
qed

definition demo_front :: front where
  "demo_front = \<lparr>url_host = ''h'', with_token = \<lambda>u t. Some (u @ ''?_token='' @ t), browser_starts = \<lambda>b u. False,
     health_url = \<lambda>b. Some (b @ ''/healthz''), request_ok = \<lambda>u. True, http_get = \<lambda>h u. Some (200, Some ''ok'')\<rparr>"

lemma doctor_passes_witness:
  "\<exists>b w1 w2. Get (demo box_daemon) ''a'' w1 = (Inr b, w2) \<and> diagnosed (demo box_daemon) demo_front b"
proof -
  have "fst (cmdDoctor (demo box_daemon) demo_front ''a'' token_world) = Inr ()"
    by code_simp
  then show ?thesis
    using doctor_passes [of "demo box_daemon" demo_front "''a''" token_world]
    by (metis prod.collapse)
qed

end
