(* ===== verification/Overview.thy ===== *)
theory Overview
  imports Reports
begin

text \<open>
  The overview that \<open>tx9\<close> prints without a command: \<open>overview_runtime.go\<close> collects an entry and
  warnings for every box, \<open>overview.go\<close> prints the entries in panels.  A string is the bytes that Go
  has, so the number of runes of a line is a function of its bytes.
\<close>

section \<open>Entries\<close>

record overviewContainer =
  oc_NanoCPUs :: int
  oc_MemoryBytes :: int
  Missing :: bool
  Inspected :: bool

record overviewVolume =
  UsedBytes :: int
  BudgetBytes :: int
  BudgetKnown :: bool

record overviewBox =
  ov_Name :: string
  ov_State :: string
  ov_ImageVersion :: string
  ov_DashboardURL :: string
  ov_Agent :: overviewContainer
  ov_Executor :: overviewContainer
  ov_AgentVolume :: overviewVolume
  ov_ExecutorVolume :: overviewVolume

text \<open>The warnings, which the code formats to lines.\<close>

datatype overview_warning =
    SettingsUnavailable string tx9_error
  | InspectAgentFailed string tx9_error
  | InspectExecutorFailed string tx9_error
  | UsageUnavailable tx9_error
  | UsageWarning string

section \<open>Collection\<close>

text \<open>
  An inspection that fails gives the zero response.  The floating-point division by a billion is left
  to the printing, so the entry holds the integer.
\<close>

definition no_response :: container_json where
  "no_response = \<lparr>cj_Base = None, cj_Labels = None, cj_Ports = None, cj_ConfigImage = ''''\<rparr>"

definition populateOverviewContainer ::
  "system \<Rightarrow> string \<Rightarrow> overviewContainer \<Rightarrow> (container_json \<times> tx9_error option \<times> overviewContainer) tx9" where
  "populateOverviewContainer E cid target =
     (if cid = '''' then ret (no_response, None, target)
      else bind_comp (attempt (ContainerInspect E cid)) (\<lambda>r.
        case r of
          Inl err \<Rightarrow> ret (no_response, Some err, target)
        | Inr resp \<Rightarrow>
            ret (case Option.bind (cj_Base resp) cb_Host of
                None \<Rightarrow> (resp, Some (NoHostConfig cid), target)
              | Some hc \<Rightarrow> (resp, None, target\<lparr>oc_NanoCPUs := NanoCPUs hc,
                  oc_MemoryBytes := MemoryBytes hc, Inspected := True\<rparr>))))"

definition fresh_container :: "string \<Rightarrow> overviewContainer" where
  "fresh_container cid = \<lparr>oc_NanoCPUs = 0, oc_MemoryBytes = 0, Missing = (cid = ''''), Inspected = False\<rparr>"

definition budget_of :: "tx9_error + Resources \<Rightarrow> (Resources \<Rightarrow> int) \<Rightarrow> overviewVolume" where
  "budget_of settings budget =
     (case settings of
        Inl _ \<Rightarrow> \<lparr>UsedBytes = -1, BudgetBytes = 0, BudgetKnown = False\<rparr>
      | Inr r \<Rightarrow> \<lparr>UsedBytes = -1, BudgetBytes = budget r, BudgetKnown = True\<rparr>)"

definition warn_if :: "(tx9_error \<Rightarrow> overview_warning) \<Rightarrow> tx9_error option \<Rightarrow> overview_warning list" where
  "warn_if f err = (case err of None \<Rightarrow> [] | Some e \<Rightarrow> [f e])"

definition overview_url :: "front \<Rightarrow> Box \<Rightarrow> container_json \<Rightarrow> string" where
  "overview_url F b resp =
     (if DerivedState b = ''running'' then
        case Option.bind (cj_Ports resp) (\<lambda>ports. ports executorPort) of
          Some ((_, port) # _) \<Rightarrow> DashboardURL (url_host F) port (ExecutorWebBaseURL b)
        | _ \<Rightarrow> ''''
      else '''')"

definition collectOverviewBox :: "system \<Rightarrow> front \<Rightarrow> Box \<Rightarrow> (overviewBox \<times> overview_warning list) tx9" where
  "collectOverviewBox E F b =
     bind_comp (attempt (LoadResources E (b_Name b))) (\<lambda>settings.
     bind_comp (populateOverviewContainer E (AgentID b) (fresh_container (AgentID b))) (\<lambda>(_, agentErr, agent).
     bind_comp (populateOverviewContainer E (ExecutorID b) (fresh_container (ExecutorID b))) (\<lambda>(resp, execErr, exec).
     ret (\<lparr>ov_Name = b_Name b, ov_State = DerivedState b, ov_ImageVersion = imageVersionDisplay E (b_Version b),
           ov_DashboardURL = overview_url F b resp, ov_Agent = agent, ov_Executor = exec,
           ov_AgentVolume = budget_of settings AgentVolumeBudgetBytes,
           ov_ExecutorVolume = budget_of settings ExecutorVolumeBudgetBytes\<rparr>,
          warn_if (SettingsUnavailable (b_Name b)) (case settings of Inl e \<Rightarrow> Some e | Inr _ \<Rightarrow> None) @
          warn_if (InspectAgentFailed (b_Name b)) agentErr @
          warn_if (InspectExecutorFailed (b_Name b)) execErr))))"

text \<open>
  The workers and the disk-usage request run at the same time; this is one of their schedules, the
  request first and the boxes in their order.
\<close>

fun overview_boxes :: "system \<Rightarrow> front \<Rightarrow> Box list \<Rightarrow> (overviewBox \<times> overview_warning list) list tx9" where
  "overview_boxes E F [] = ret []"
| "overview_boxes E F (b # bs) =
     bind_comp (collectOverviewBox E F b) (\<lambda>x. bind_comp (overview_boxes E F bs) (\<lambda>xs. ret (x # xs)))"

definition with_usage :: "(string \<times> int) list \<Rightarrow> string \<Rightarrow> overviewVolume \<Rightarrow> overviewVolume" where
  "with_usage usage volume v =
     (case map_of usage volume of None \<Rightarrow> v | Some used \<Rightarrow> v\<lparr>UsedBytes := used\<rparr>)"

definition put_usage :: "(string \<times> int) list \<Rightarrow> Box \<Rightarrow> overviewBox \<Rightarrow> overviewBox" where
  "put_usage usage b entry = entry
     \<lparr>ov_AgentVolume := with_usage usage (agent_volume (b_Name b)) (ov_AgentVolume entry),
      ov_ExecutorVolume := with_usage usage (executor_volume (b_Name b)) (ov_ExecutorVolume entry)\<rparr>"

definition overview_volumes :: "Box list \<Rightarrow> string list" where
  "overview_volumes boxes = concat (map (\<lambda>b. [agent_volume (b_Name b), executor_volume (b_Name b)]) boxes)"

definition collectOverview :: "system \<Rightarrow> front \<Rightarrow> Box list \<Rightarrow> (overviewBox list \<times> overview_warning list) tx9" where
  "collectOverview E F boxes =
     (if boxes = [] then ret ([], [])
      else bind_comp (attempt (VolumeUsage E (overview_volumes boxes))) (\<lambda>u.
        bind_comp (overview_boxes E F boxes) (\<lambda>found.
        let (usage, volumeWarnings) =
          (case u of Inl e \<Rightarrow> ([], [UsageUnavailable e]) | Inr (usage, warn) \<Rightarrow> (usage, map UsageWarning warn))
        in ret (map2 (put_usage usage) boxes (map fst found), concat (map snd found) @ volumeWarnings))))"

section \<open>Panels\<close>

text \<open>\<open>utf8.RuneCountInString\<close>: the length of the rune at the front, one byte for what is no rune.\<close>

definition between :: "nat \<Rightarrow> char \<Rightarrow> nat \<Rightarrow> bool" where
  "between lo c hi \<longleftrightarrow> lo \<le> (of_char c :: nat) \<and> (of_char c :: nat) \<le> hi"

fun rune_length :: "string \<Rightarrow> nat" where
  "rune_length [] = 0"
| "rune_length (a # s) =
     (case s of
        b # s' \<Rightarrow>
          if between 0xC2 a 0xDF \<and> between 0x80 b 0xBF then 2
          else (case s' of
            c # s'' \<Rightarrow>
              if (a = CHR 0xE0 \<and> between 0xA0 b 0xBF \<or> between 0xE1 a 0xEC \<and> between 0x80 b 0xBF \<or>
                  a = CHR 0xED \<and> between 0x80 b 0x9F \<or> between 0xEE a 0xEF \<and> between 0x80 b 0xBF) \<and>
                 between 0x80 c 0xBF then 3
              else (case s'' of
                d # _ \<Rightarrow>
                  if (a = CHR 0xF0 \<and> between 0x90 b 0xBF \<or> between 0xF1 a 0xF3 \<and> between 0x80 b 0xBF \<or>
                      a = CHR 0xF4 \<and> between 0x80 b 0x8F) \<and>
                     between 0x80 c 0xBF \<and> between 0x80 d 0xBF then 4
                  else 1
              | [] \<Rightarrow> 1)
          | [] \<Rightarrow> 1)
      | [] \<Rightarrow> 1)"

lemma rune_length_pos: "s \<noteq> [] \<Longrightarrow> 0 < rune_length s"
  by (cases s) (auto split: list.splits)

function rune_count :: "string \<Rightarrow> nat" where
  "rune_count s = (if s = [] then 0 else Suc (rune_count (drop (rune_length s) s)))"
  by auto
termination
  by (relation "measure length") (auto simp: rune_length_pos)

declare rune_count.simps [simp del]

definition truncateASCII :: "string \<Rightarrow> nat \<Rightarrow> string" where
  "truncateASCII value lim =
     (if length value \<le> lim then value
      else if lim \<le> 3 then take lim value
      else take (lim - 3) value @ ''...'')"

text \<open>\<open>fmt\<close> pads \<open>%-*s\<close> with blanks on the right, counting runes.\<close>

definition pad_right :: "nat \<Rightarrow> string \<Rightarrow> string" where
  "pad_right n s = s @ replicate (n - rune_count s) CHR '' ''"

definition panel_width :: "string \<Rightarrow> string list \<Rightarrow> nat" where
  "panel_width title lines =
     min 100 (max 72 (fold (\<lambda>line width. max width (rune_count line + 4)) lines (length title + 7)))"

text \<open>
  The argument of \<open>strings.Repeat\<close> is an integer that must not be negative; \<open>repeat_dash\<close> is undefined
  there.
\<close>

definition repeat_dash :: "int \<Rightarrow> string option" where
  "repeat_dash n = (if n < 0 then None else Some (replicate (nat n) CHR ''-''))"

definition renderASCIIPanel :: "string \<Rightarrow> string list \<Rightarrow> string list option" where
  "renderASCIIPanel title lines =
     (let width = panel_width title lines;
          title' = truncateASCII title (width - 7)
      in Option.bind (repeat_dash (int width - int (length title') - 6)) (\<lambda>top.
         Option.bind (repeat_dash (int width - 2)) (\<lambda>bottom.
         Some ((''+-- '' @ title' @ '' '' @ top @ ''+'') #
           map (\<lambda>line. ''| '' @ pad_right (width - 4) (truncateASCII line (width - 4)) @ '' |'') lines @
           [''+'' @ bottom @ ''+'']))))"

text \<open>The numbers: \<open>FormatFloat\<close> of the division by a billion and \<open>BytesSize\<close> are parameters.\<close>

definition formatOverviewContainer :: "(int \<Rightarrow> string) \<Rightarrow> (int \<Rightarrow> string) \<Rightarrow> overviewContainer \<Rightarrow> string" where
  "formatOverviewContainer FormatFloat BytesSize c =
     (if Missing c then ''missing''
      else if \<not> Inspected c then ''? CPU / ? RAM''
      else (if oc_NanoCPUs c > 0 then FormatFloat (oc_NanoCPUs c) @ '' CPU''
            else if oc_NanoCPUs c = 0 then ''unlimited CPU'' else ''? CPU'') @ '' / '' @
           (if oc_MemoryBytes c > 0 then BytesSize (oc_MemoryBytes c) @ '' RAM''
            else if oc_MemoryBytes c = 0 then ''unlimited RAM'' else ''? RAM''))"

definition formatOverviewVolume :: "(int \<Rightarrow> string) \<Rightarrow> overviewVolume \<Rightarrow> string" where
  "formatOverviewVolume BytesSize v =
     (if UsedBytes v \<ge> 0 then BytesSize (UsedBytes v) else ''?'') @ '' / '' @
     (if BudgetKnown v \<and> BudgetBytes v = 0 then ''unlimited''
      else if BudgetKnown v \<and> BudgetBytes v > 0 then BytesSize (BudgetBytes v) @ '' budget''
      else ''? budget'') @
     (if BudgetKnown v \<and> BudgetBytes v > 0 \<and> UsedBytes v > BudgetBytes v then '' (OVER)'' else '''')"

definition ascii_upper :: "char \<Rightarrow> char" where
  "ascii_upper c = (if between 0x61 c 0x7A then char_of ((of_char c :: nat) - 32) else c)"

definition or_else :: "string \<Rightarrow> string \<Rightarrow> string" where
  "or_else s d = (if s = '''' then d else s)"

definition overview_title :: "overviewBox \<Rightarrow> string" where
  "overview_title b = ov_Name b @ '' ['' @ or_else (map ascii_upper (ov_State b)) ''UNKNOWN'' @ '']''"

definition overview_lines :: "(int \<Rightarrow> string) \<Rightarrow> (int \<Rightarrow> string) \<Rightarrow> overviewBox \<Rightarrow> string list" where
  "overview_lines FormatFloat BytesSize b =
     [''image: '' @ or_else (ov_ImageVersion b) ''?'',
      ''[agent] '' @ formatOverviewContainer FormatFloat BytesSize (ov_Agent b) @ ''  --->  [executor] '' @
        formatOverviewContainer FormatFloat BytesSize (ov_Executor b),
      ''data: '' @ formatOverviewVolume BytesSize (ov_AgentVolume b) @ ''    scratch: '' @
        formatOverviewVolume BytesSize (ov_ExecutorVolume b),
      ''dashboard: '' @ or_else (ov_DashboardURL b) ''-'']"

text \<open>All panels with a blank line between two; \<open>None\<close> is the panic of a negative repeat count.\<close>

fun overview_panels :: "(int \<Rightarrow> string) \<Rightarrow> (int \<Rightarrow> string) \<Rightarrow> overviewBox list \<Rightarrow> string list option" where
  "overview_panels FormatFloat BytesSize [] = Some []"
| "overview_panels FormatFloat BytesSize (b # bs) =
     Option.bind (renderASCIIPanel (overview_title b) (overview_lines FormatFloat BytesSize b)) (\<lambda>panel.
     Option.bind (overview_panels FormatFloat BytesSize bs) (\<lambda>rest.
     Some (panel @ (if bs = [] then [] else ['''']) @ rest)))"

definition renderOverview ::
  "system \<Rightarrow> (int \<Rightarrow> string) \<Rightarrow> (int \<Rightarrow> string) \<Rightarrow> overviewBox list \<Rightarrow> string list option" where
  "renderOverview E FormatFloat BytesSize boxes =
     (let sorted_boxes = sort_key ov_Name boxes;
          countLabel = (if length boxes = 1 then ''box'' else ''boxes'');
          front_lines = [''tx9 '' @ Version E @ '' - '' @ show_nat (length boxes) @ '' '' @ countLabel @ '' configured'', '''']
      in Option.bind
           (if boxes = [] then
              renderASCIIPanel ''no boxes''
                [''No boxes are configured on this Docker daemon.'', ''Run `tx9 create` to make one.'']
            else overview_panels FormatFloat BytesSize sorted_boxes)
           (\<lambda>panels. Some (front_lines @ panels)))"

definition showOverview ::
  "system \<Rightarrow> front \<Rightarrow> (int \<Rightarrow> string) \<Rightarrow> (int \<Rightarrow> string) \<Rightarrow> (string list option \<times> overview_warning list) tx9" where
  "showOverview E F FormatFloat BytesSize =
     withDocker E
       (bind_comp (List E) (\<lambda>boxes.
        bind_comp (collectOverview E F boxes) (\<lambda>(entries, warnings).
        ret (renderOverview E FormatFloat BytesSize entries, warnings))))"

end
