(* ===== verification/OverviewSafety.thy ===== *)
theory OverviewSafety
  imports Overview ReportsSafety
begin

text \<open>
  The panels never ask for a negative repetition and all their lines are as wide as the panel; the
  collection looks at every box whatever fails, changes nothing, and warns of all it could not find out.
\<close>

section \<open>Runes\<close>

lemma rune_length_le: "rune_length s \<le> length s"
  by (cases s) (auto split: list.splits)

lemma rune_count_Nil [simp]: "rune_count [] = 0"
  by (simp add: rune_count.simps)

lemma rune_count_le: "rune_count s \<le> length s"
proof (induction s rule: rune_count.induct)
  case (1 s)
  show ?case
  proof (cases "s = []")
    case False
    then show ?thesis
      using 1 rune_length_pos [of s] rune_length_le [of s] by (subst rune_count.simps) simp
  qed simp
qed

text \<open>An ASCII byte neither starts nor continues a longer rune.\<close>

definition ascii :: "char \<Rightarrow> bool" where
  "ascii c \<longleftrightarrow> (of_char c :: nat) < 0x80"

lemma between_ascii: "ascii c \<Longrightarrow> 0x80 \<le> lo \<Longrightarrow> \<not> between lo c hi"
  by (simp add: ascii_def between_def)

lemma rune_length_ascii: "ascii a \<Longrightarrow> rune_length (a # s) = 1"
proof -
  assume a: "ascii a"
  have "a \<noteq> CHR 0xE0" "a \<noteq> CHR 0xED" "a \<noteq> CHR 0xF0" "a \<noteq> CHR 0xF4"
    using a by (auto simp: ascii_def)
  then show ?thesis using a by (auto simp: between_ascii split: list.splits)
qed

lemma rune_count_ascii: "ascii a \<Longrightarrow> rune_count (a # s) = Suc (rune_count s)"
  by (subst rune_count.simps) (simp add: rune_length_ascii del: rune_length.simps)

lemma rune_count_ascii_append: "list_all ascii t \<Longrightarrow> rune_count (t @ s) = length t + rune_count s"
  by (induction t) (auto simp: rune_count_ascii)

lemma rune_length_ascii_next:
  "ascii b \<Longrightarrow> rune_length (a # b # s) = 1"
  "ascii c \<Longrightarrow> rune_length (a # b # c # s) = rune_length [a, b]"
  "ascii d \<Longrightarrow> rune_length (a # b # c # d # s) = rune_length [a, b, c]"
  by (simp_all add: between_ascii split: list.split)

lemma rune_length_append:
  assumes "s \<noteq> []" and "list_all ascii t"
  shows "rune_length (s @ t) = rune_length s"
proof (cases t)
  case (Cons x u)
  have x: "ascii x" using assms(2) Cons by simp
  obtain a s1 where s: "s = a # s1" using assms(1) by (cases s) auto
  consider "s1 = []" | b where "s1 = [b]" | b c where "s1 = [b, c]" | b c d s2 where "s1 = b # c # d # s2"
    by (metis list.exhaust)
  then show ?thesis
  proof cases
    case 1
    then show ?thesis using rune_length_ascii_next(1) [OF x] s Cons by simp
  next
    case (2 b)
    then show ?thesis using rune_length_ascii_next(2) [OF x] s Cons by (simp del: rune_length.simps)
  next
    case (3 b c)
    then show ?thesis using rune_length_ascii_next(3) [OF x] s Cons by (simp del: rune_length.simps)
  next
    case (4 b c d s2)
    show ?thesis by (simp only: s 4 append_Cons rune_length.simps list.case)
  qed
qed simp

lemma rune_count_append: "list_all ascii t \<Longrightarrow> rune_count (s @ t) = rune_count s + length t"
proof (induction s rule: rune_count.induct)
  case (1 s)
  show ?case
  proof (cases "s = []")
    case True
    then show ?thesis using rune_count_ascii_append [OF 1(2), of "[]"] by simp
  next
    case False
    then have "rune_count (s @ t) = Suc (rune_count (drop (rune_length s) s @ t))"
      using rune_length_append [OF False 1(2)] rune_length_le [of s]
      by (subst rune_count.simps) simp
    also have "\<dots> = Suc (rune_count (drop (rune_length s) s) + length t)" using 1 False by simp
    finally show ?thesis using False by (subst (2) rune_count.simps) simp
  qed
qed

section \<open>Panels\<close>

lemma panel_width_bounds: "72 \<le> panel_width title lines" "panel_width title lines \<le> 100"
  by (simp_all add: panel_width_def)

lemma truncate_length: "length (truncateASCII s n) \<le> n"
  by (auto simp: truncateASCII_def min_def)

lemma pad_right_width: "rune_count s \<le> n \<Longrightarrow> rune_count (pad_right n s) = n"
  unfolding pad_right_def by (subst rune_count_append) (auto simp: list_all_iff ascii_def)

text \<open>A panel as it should be: a full line of bytes, and lines of as many runes.\<close>

definition well_framed :: "nat \<Rightarrow> string list \<Rightarrow> bool" where
  "well_framed width panel \<longleftrightarrow>
     panel \<noteq> [] \<and> length (hd panel) = width \<and> list_all (\<lambda>l. rune_count l = width) (tl panel)"

lemma panel_line_width:
  "4 \<le> width \<Longrightarrow> rune_count (''| '' @ pad_right (width - 4) (truncateASCII line (width - 4)) @ '' |'') = width"
proof -
  assume w: "4 \<le> width"
  have "rune_count (truncateASCII line (width - 4)) \<le> width - 4"
    using rune_count_le truncate_length le_trans by blast
  then have "rune_count (pad_right (width - 4) (truncateASCII line (width - 4))) = width - 4"
    by (rule pad_right_width)
  then show ?thesis using w
    by (subst rune_count_ascii_append) (simp_all add: ascii_def rune_count_append)
qed

text \<open>C39: for every title and all lines, non-ASCII bytes included, a panel is rendered without a
  negative repetition, is between 72 and 100 columns wide, and every line between its borders has exactly
  that many runes.\<close>

theorem panel_framed:
  "\<exists>panel. renderASCIIPanel title lines = Some panel \<and> length panel = length lines + 2 \<and>
     well_framed (panel_width title lines) panel \<and> 72 \<le> panel_width title lines \<and> panel_width title lines \<le> 100"
proof -
  let ?w = "panel_width title lines"
  let ?t = "truncateASCII title (?w - 7)"
  have w: "72 \<le> ?w" "?w \<le> 100" by (rule panel_width_bounds)+
  have t: "length ?t + 7 \<le> ?w" using truncate_length [of title "?w - 7"] w by simp
  have "rune_count (''+'' @ replicate (?w - 2) CHR ''-'' @ ''+'') = ?w"
    using w rune_count_ascii_append [of "''+'' @ replicate (?w - 2) CHR ''-'' @ ''+''" "[]"]
    by (simp add: list_all_iff ascii_def)
  moreover have "nat (int ?w - int (length ?t) - 6) = ?w - length ?t - 6" "nat (int ?w - 2) = ?w - 2"
    using t by (simp_all add: nat_diff_distrib)
  ultimately show ?thesis
    using w t panel_line_width [of ?w]
    by (auto simp: renderASCIIPanel_def Let_def repeat_dash_def well_framed_def list_all_iff)
qed

lemma overview_panels_total: "\<exists>ls. overview_panels FormatFloat BytesSize bs = Some ls"
proof (induction bs)
  case (Cons b bs)
  then show ?case
    using panel_framed [of "overview_title b" "overview_lines FormatFloat BytesSize b"] by auto
qed simp

lemma overview_renders: "renderOverview E FormatFloat BytesSize boxes \<noteq> None"
  using overview_panels_total [of FormatFloat BytesSize "sort_key ov_Name boxes"]
    panel_framed [of "''no boxes''"
      "[''No boxes are configured on this Docker daemon.'', ''Run `tx9 create` to make one.'']"]
  by (auto simp: renderOverview_def Let_def)

text \<open>The width counts runes and the truncation bytes, so a line that fits can be cut.\<close>

lemma truncation_counts_bytes:
  "rune_count (concat (replicate 30 [CHR 0xE2, CHR 0x82, CHR 0xAC])) = 30 \<and>
   length (truncateASCII (concat (replicate 30 [CHR 0xE2, CHR 0x82, CHR 0xAC])) 68) = 68"
  by code_simp

section \<open>Disk usage\<close>

text \<open>Whatever the daemon answers, every volume asked for has a number, and a negative one is warned of.\<close>

definition warned :: "(string \<times> int) list \<Rightarrow> string list \<Rightarrow> bool" where
  "warned res warn \<longleftrightarrow> (\<forall>n k. map_of res n = Some k \<longrightarrow> k < 0 \<longrightarrow> n \<in> set warn)"

lemma warned_update:
  "warned res warn \<Longrightarrow> (k < 0 \<Longrightarrow> n \<in> set warn') \<Longrightarrow> set warn \<subseteq> set warn' \<Longrightarrow> warned (AList.update n k res) warn'"
  by (auto simp: warned_def update_conv split: if_splits)

lemma usage_loop_warned:
  assumes "usage_loop filtered wanted vs res warn = (res', warn', missing)" and "warned res warn"
  shows "warned res' warn'"
  using assms
proof (induction filtered wanted vs res warn rule: usage_loop.induct)
  case (3 filtered wanted v vs res warn)
  show ?case
  proof (cases "vu_Name v = '''' \<or> filtered \<and> vu_Name v \<notin> set wanted")
    case True
    then show ?thesis using 3 by simp
  next
    case False
    show ?thesis
    proof (cases "vu_Size v")
      case None
      have "warned (AList.update (vu_Name v) (-1) res) (warn @ [vu_Name v])"
        by (rule warned_update [OF 3(5)]) auto
      then show ?thesis using 3(2) [OF False refl None] 3(4) False None by simp
    next
      case (Some s)
      have "warned (AList.update (vu_Name v) s res) (if s < 0 then warn @ [vu_Name v] else warn)"
        by (rule warned_update [OF 3(5)]) auto
      then show ?thesis using 3(3) [OF False refl Some] 3(4) False Some by simp
    qed
  qed
qed simp_all

lemma usage_loop_covers:
  assumes "usage_loop filtered wanted vs res warn = (res', warn', missing)"
    and "n \<in> set wanted \<or> map_of res n \<noteq> None"
  shows "n \<in> set missing \<or> map_of res' n \<noteq> None"
  using assms
  by (induction filtered wanted vs res warn rule: usage_loop.induct)
    (auto simp: update_conv Let_def split: if_splits option.splits)

lemma map_of_fold_update:
  "map_of (fold (\<lambda>n. AList.update n (-1)) missing res) n = (if n \<in> set missing then Some (-1) else map_of res n)"
  by (induction missing arbitrary: res) (auto simp: update_conv)

lemma wanted_names_set: "set (wanted_names ns) = set ns - {''''}"
  by (auto simp: wanted_names_def)

lemma usage_complete:
  assumes "n \<in> set names" and "n \<noteq> ''''"
  shows "\<exists>k. map_of (fst (volume_usage_of names vs)) n = Some k \<and>
    (k < 0 \<longrightarrow> n \<in> set (snd (volume_usage_of names vs)))"
proof -
  let ?wanted = "wanted_names names"
  obtain res warn missing where lo: "usage_loop (?wanted \<noteq> []) ?wanted vs [] [] = (res, warn, missing)"
    by (metis prod_cases3)
  have "n \<in> set ?wanted" using assms by (simp add: wanted_names_set)
  then have "n \<in> set missing \<or> map_of res n \<noteq> None" using usage_loop_covers [OF lo] by blast
  moreover have "warned res warn" by (rule usage_loop_warned [OF lo]) (simp add: warned_def)
  ultimately show ?thesis
    using lo by (auto simp: volume_usage_of_def Let_def map_of_fold_update warned_def)
qed

section \<open>The collection\<close>

lemma populate_runs:
  obtains resp err c w' where "populateOverviewContainer E cid (fresh_container cid) w = (Inr (resp, err, c), w')"
    and "Missing c \<longleftrightarrow> cid = ''''" and "Missing c \<or> Inspected c \<or> err \<noteq> None"
proof (cases "cid = ''''")
  case True
  then show thesis using that [of no_response None "fresh_container cid" w]
    by (simp add: populateOverviewContainer_def fresh_container_def ret_def)
next
  case False
  obtain q w1 where insp: "ContainerInspect E cid w = (q, w1)" by fastforce
  show thesis
  proof (cases q)
    case (Inl e)
    then show thesis using that [of no_response "Some e" "fresh_container cid" w1] False insp
      by (simp add: populateOverviewContainer_def bind_comp_def attempt_def ret_def fresh_container_def)
  next
    case (Inr j)
    show thesis
    proof (cases "Option.bind (cj_Base j) cb_Host")
      case None
      then show thesis using that [of j "Some (NoHostConfig cid)" "fresh_container cid" w1] False insp Inr
        by (simp add: populateOverviewContainer_def bind_comp_def attempt_def ret_def fresh_container_def)
    next
      case (Some hc)
      then show thesis using False insp Inr
          that [of j None "fresh_container cid\<lparr>oc_NanoCPUs := NanoCPUs hc, oc_MemoryBytes := MemoryBytes hc, Inspected := True\<rparr>" w1]
        by (simp add: populateOverviewContainer_def bind_comp_def attempt_def ret_def fresh_container_def)
    qed
  qed
qed

text \<open>
  An entry is the one of its box, and what it does not know of a container or of the budgets is among
  the warnings.
\<close>

definition entry_explained :: "Box \<Rightarrow> overviewBox \<Rightarrow> overview_warning set \<Rightarrow> bool" where
  "entry_explained b entry warns \<longleftrightarrow>
     ov_Name entry = b_Name b \<and> ov_State entry = DerivedState b \<and>
     (Missing (ov_Agent entry) \<longleftrightarrow> AgentID b = '''') \<and> (Missing (ov_Executor entry) \<longleftrightarrow> ExecutorID b = '''') \<and>
     (Missing (ov_Agent entry) \<or> Inspected (ov_Agent entry) \<or> (\<exists>e. InspectAgentFailed (b_Name b) e \<in> warns)) \<and>
     (Missing (ov_Executor entry) \<or> Inspected (ov_Executor entry) \<or>
        (\<exists>e. InspectExecutorFailed (b_Name b) e \<in> warns)) \<and>
     (BudgetKnown (ov_AgentVolume entry) \<and> BudgetKnown (ov_ExecutorVolume entry) \<or>
        (\<exists>e. SettingsUnavailable (b_Name b) e \<in> warns))"

definition usage_explained :: "Box \<Rightarrow> overviewBox \<Rightarrow> overview_warning set \<Rightarrow> bool" where
  "usage_explained b entry warns \<longleftrightarrow>
     (0 \<le> UsedBytes (ov_AgentVolume entry) \<or> (\<exists>e. UsageUnavailable e \<in> warns) \<or>
        UsageWarning (agent_volume (b_Name b)) \<in> warns) \<and>
     (0 \<le> UsedBytes (ov_ExecutorVolume entry) \<or> (\<exists>e. UsageUnavailable e \<in> warns) \<or>
        UsageWarning (executor_volume (b_Name b)) \<in> warns)"

lemma collect_box:
  obtains entry ws w' where "collectOverviewBox E F b w = (Inr (entry, ws), w')" "entry_explained b entry (set ws)"
proof -
  obtain s w1 where s: "LoadResources E (b_Name b) w = (s, w1)" by fastforce
  obtain r1 e1 c1 w2 where a: "populateOverviewContainer E (AgentID b) (fresh_container (AgentID b)) w1 = (Inr (r1, e1, c1), w2)"
    "Missing c1 \<longleftrightarrow> AgentID b = ''''" "Missing c1 \<or> Inspected c1 \<or> e1 \<noteq> None" by (rule populate_runs)
  obtain r2 e2 c2 w3 where x: "populateOverviewContainer E (ExecutorID b) (fresh_container (ExecutorID b)) w2 = (Inr (r2, e2, c2), w3)"
    "Missing c2 \<longleftrightarrow> ExecutorID b = ''''" "Missing c2 \<or> Inspected c2 \<or> e2 \<noteq> None" by (rule populate_runs)
  show thesis
  proof (rule that)
    show "collectOverviewBox E F b w = (Inr (\<lparr>ov_Name = b_Name b, ov_State = DerivedState b,
           ov_ImageVersion = imageVersionDisplay E (b_Version b),
           ov_DashboardURL = overview_url F b r2, ov_Agent = c1, ov_Executor = c2,
           ov_AgentVolume = budget_of s AgentVolumeBudgetBytes,
           ov_ExecutorVolume = budget_of s ExecutorVolumeBudgetBytes\<rparr>,
          warn_if (SettingsUnavailable (b_Name b)) (case s of Inl e \<Rightarrow> Some e | Inr _ \<Rightarrow> None) @
          warn_if (InspectAgentFailed (b_Name b)) e1 @
          warn_if (InspectExecutorFailed (b_Name b)) e2), w3)"
      by (simp add: collectOverviewBox_def bind_comp_def attempt_def ret_def s a(1) x(1))
    show "entry_explained b \<lparr>ov_Name = b_Name b, ov_State = DerivedState b,
           ov_ImageVersion = imageVersionDisplay E (b_Version b),
           ov_DashboardURL = overview_url F b r2, ov_Agent = c1, ov_Executor = c2,
           ov_AgentVolume = budget_of s AgentVolumeBudgetBytes,
           ov_ExecutorVolume = budget_of s ExecutorVolumeBudgetBytes\<rparr>
       (set (warn_if (SettingsUnavailable (b_Name b)) (case s of Inl e \<Rightarrow> Some e | Inr _ \<Rightarrow> None) @
          warn_if (InspectAgentFailed (b_Name b)) e1 @ warn_if (InspectExecutorFailed (b_Name b)) e2))"
      using a(2,3) x(2,3) by (cases s; cases e1; cases e2; simp add: entry_explained_def warn_if_def budget_of_def; blast)
  qed
qed

lemma explained_mono: "entry_explained b entry A \<Longrightarrow> A \<subseteq> B \<Longrightarrow> entry_explained b entry B"
  unfolding entry_explained_def by blast

lemma collect_boxes:
  obtains found w' where "overview_boxes E F boxes w = (Inr found, w')"
    and "list_all2 (\<lambda>b (entry, ws). entry_explained b entry (set ws)) boxes found"
proof -
  have "\<exists>found w'. overview_boxes E F boxes w = (Inr found, w') \<and>
      list_all2 (\<lambda>b (entry, ws). entry_explained b entry (set ws)) boxes found"
  proof (induction boxes arbitrary: w)
    case (Cons b bs)
    obtain entry ws w1 where b: "collectOverviewBox E F b w = (Inr (entry, ws), w1)" "entry_explained b entry (set ws)"
      by (rule collect_box)
    obtain found w2 where "overview_boxes E F bs w1 = (Inr found, w2)"
      "list_all2 (\<lambda>b (entry, ws). entry_explained b entry (set ws)) bs found" using Cons by blast
    then show ?case using b by (auto simp: bind_comp_def ret_def)
  qed (simp add: ret_def)
  then show thesis using that by blast
qed

lemma volume_names_nonempty: "agent_volume n \<noteq> ''''" "executor_volume n \<noteq> ''''"
  by (simp_all add: agent_volume_def executor_volume_def)

lemma usage_put:
  assumes "b \<in> set boxes" and "volume_usage_of (overview_volumes boxes) vs = (usage, warn)"
  shows "usage_explained b (put_usage usage b entry) (set (map UsageWarning warn))"
proof -
  have v: "agent_volume (b_Name b) \<in> set (overview_volumes boxes)" "executor_volume (b_Name b) \<in> set (overview_volumes boxes)"
    using assms(1) by (auto simp: overview_volumes_def)
  show ?thesis
    using usage_complete [OF v(1) volume_names_nonempty(1), of vs]
      usage_complete [OF v(2) volume_names_nonempty(2), of vs] assms(2)
    by (auto simp: usage_explained_def put_usage_def with_usage_def)
qed

lemma put_usage_keeps:
  "entry_explained b entry A \<Longrightarrow> entry_explained b (put_usage usage b entry) A"
  by (auto simp: entry_explained_def put_usage_def with_usage_def split: option.splits)

text \<open>The report on all boxes: one explained entry for each, in the order of the boxes.\<close>

definition overview_complete :: "Box list \<Rightarrow> overviewBox list \<Rightarrow> overview_warning list \<Rightarrow> bool" where
  "overview_complete boxes entries warnings \<longleftrightarrow>
     list_all2 (\<lambda>b e. entry_explained b e (set warnings) \<and> usage_explained b e (set warnings)) boxes entries"

text \<open>C29: whatever the daemon and the settings files do, the collection gives one entry for each box
  in their order, with the name and state of the box, and for every container it could not inspect, every
  budget it could not load and every volume without a size there is a warning.\<close>

theorem overview_explains:
  "\<exists>entries warnings w'. collectOverview E F boxes w = (Inr (entries, warnings), w') \<and>
     overview_complete boxes entries warnings"
proof (cases "boxes = []")
  case True
  then show ?thesis by (simp add: collectOverview_def ret_def overview_complete_def)
next
  case False
  obtain u w1 where u: "VolumeUsage E (overview_volumes boxes) w = (u, w1)" by fastforce
  obtain found w2 where f: "overview_boxes E F boxes w1 = (Inr found, w2)"
    "list_all2 (\<lambda>b (entry, ws). entry_explained b entry (set ws)) boxes found" by (rule collect_boxes)
  define uw where "uw = (case u of Inl e \<Rightarrow> ([], [UsageUnavailable e]) | Inr (usage, warn) \<Rightarrow> (usage, map UsageWarning warn))"
  have run: "collectOverview E F boxes w =
      (Inr (map2 (put_usage (fst uw)) boxes (map fst found), concat (map snd found) @ snd uw), w2)"
    using False u f(1) by (simp add: collectOverview_def bind_comp_def attempt_def ret_def uw_def Let_def split_beta)
  have usage: "usage_explained b (put_usage (fst uw) b e) (set (snd uw))" if b: "b \<in> set boxes" for b e
  proof (cases u)
    case (Inl err)
    then show ?thesis by (simp add: uw_def usage_explained_def put_usage_def)
  next
    case (Inr x)
    obtain usage warn where x: "x = (usage, warn)" by (cases x)
    obtain vs where "volume_usage_of (overview_volumes boxes) vs = (usage, warn)"
      using u Inr x by (auto simp: VolumeUsage_def bind_iffs)
    then show ?thesis using usage_put [OF b] Inr x by (simp add: uw_def)
  qed
  have len: "length boxes = length found" using f(2) by (rule list_all2_lengthD)
  have "overview_complete boxes (map2 (put_usage (fst uw)) boxes (map fst found)) (concat (map snd found) @ snd uw)"
    unfolding overview_complete_def
  proof (rule list_all2_all_nthI)
    fix i assume i: "i < length boxes"
    have "entry_explained (boxes ! i) (fst (found ! i)) (set (snd (found ! i)))"
      using list_all2_nthD [OF f(2) i] by (simp add: split_beta)
    moreover have "set (snd (found ! i)) \<subseteq> set (concat (map snd found) @ snd uw)" using i len nth_mem [of i found] by fastforce
    ultimately have e: "entry_explained (boxes ! i) (fst (found ! i)) (set (concat (map snd found) @ snd uw))"
      by (rule explained_mono)
    have "usage_explained (boxes ! i) (put_usage (fst uw) (boxes ! i) (fst (found ! i))) (set (snd uw))"
      using i by (intro usage) simp
    then have "usage_explained (boxes ! i) (put_usage (fst uw) (boxes ! i) (fst (found ! i)))
        (set (concat (map snd found) @ snd uw))"
      unfolding usage_explained_def set_append by blast
    then show "entry_explained (boxes ! i) (map2 (put_usage (fst uw)) boxes (map fst found) ! i)
          (set (concat (map snd found) @ snd uw)) \<and>
        usage_explained (boxes ! i) (map2 (put_usage (fst uw)) boxes (map fst found) ! i)
          (set (concat (map snd found) @ snd uw))"
      using i len put_usage_keeps [OF e] by simp
  qed (simp add: len)
  then show ?thesis using run by blast
qed

lemma overview_reads:
  "makes_only reading (showOverview E F FormatFloat BytesSize) \<and> keeps_disk (showOverview E F FormatFloat BytesSize)"
proof -
  have insp: "makes_only reading (ContainerInspect E i)" "keeps_disk (ContainerInspect E i)" for i
    unfolding ContainerInspect_def by (intro call_rules; simp)+
  have pop: "makes_only reading (populateOverviewContainer E i c)" "keeps_disk (populateOverviewContainer E i c)" for i c
    unfolding populateOverviewContainer_def by (intro call_rules insp)+
  have load: "makes_only reading (LoadResources E n)" "keeps_disk (LoadResources E n)" for n
    by (rule makes_only_settings_loads, simp) (unfold LoadResources_def, intro call_rules)
  have box: "makes_only reading (collectOverviewBox E F b)" "keeps_disk (collectOverviewBox E F b)" for b
    unfolding collectOverviewBox_def by (intro call_rules pop load)+
  have boxes: "makes_only reading (overview_boxes E F bs)" "keeps_disk (overview_boxes E F bs)" for bs
    by (induction bs) (auto intro!: call_rules box)
  have vol: "makes_only reading (VolumeUsage E ns)" "keeps_disk (VolumeUsage E ns)" for ns
    unfolding VolumeUsage_def by (intro call_rules; simp)+
  have lst: "makes_only reading (List E)" "keeps_disk (List E)"
    unfolding List_def ListBoxContainers_def by (intro call_rules; simp)+
  have nc: "makes_only reading (NewClient E)" "keeps_disk (NewClient E)"
    unfolding NewClient_def by (intro call_rules; simp)+
  show ?thesis
    unfolding showOverview_def withDocker_def collectOverview_def Let_def
    by (intro conjI call_rules nc lst vol boxes)
qed

end
