(* ===== verification/FlagValues.thy ===== *)
theory FlagValues
  imports Flags Logs
begin

text \<open>
  The values of flags: \<open>strconv.ParseBool\<close> and \<open>strconv.ParseInt\<close> with base 0, which the flag package
  uses for boolean and integer flags, and the flag sets that the commands share.
\<close>

section \<open>Boolean and integer values\<close>

definition ParseBool :: "string \<Rightarrow> bool option" where
  "ParseBool s =
     (if s \<in> set [''1'', ''t'', ''T'', ''TRUE'', ''true'', ''True''] then Some True
      else if s \<in> set [''0'', ''f'', ''F'', ''FALSE'', ''false'', ''False''] then Some False
      else None)"

text \<open>The value of a digit or letter; an underscore is skipped and checked apart.\<close>

definition char_val :: "char \<Rightarrow> nat option" where
  "char_val c =
     (let n = of_char c :: nat in
      if 48 \<le> n \<and> n \<le> 57 then Some (n - 48)
      else if 97 \<le> n \<and> n \<le> 122 then Some (n - 87)
      else if 65 \<le> n \<and> n \<le> 90 then Some (n - 55)
      else None)"

fun digits_in :: "nat \<Rightarrow> nat \<Rightarrow> string \<Rightarrow> nat option" where
  "digits_in base n [] = Some n"
| "digits_in base n (c # s) =
     (if c = CHR ''_'' then digits_in base n s
      else case char_val c of
          None \<Rightarrow> None
        | Some d \<Rightarrow> if d \<ge> base then None else digits_in base (n * base + d) s)"

definition base_prefix :: "string \<Rightarrow> nat \<times> string" where
  "base_prefix s =
     (case s of
        a # b # rest \<Rightarrow>
          if a \<noteq> CHR ''0'' then (10, s)
          else if rest \<noteq> [] \<and> (b = CHR ''b'' \<or> b = CHR ''B'') then (2, rest)
          else if rest \<noteq> [] \<and> (b = CHR ''o'' \<or> b = CHR ''O'') then (8, rest)
          else if rest \<noteq> [] \<and> (b = CHR ''x'' \<or> b = CHR ''X'') then (16, rest)
          else (8, b # rest)
      | [a] \<Rightarrow> if a = CHR ''0'' then (8, []) else (10, s)
      | [] \<Rightarrow> (10, s))"

text \<open>\<open>underscoreOK\<close>: an underscore stands between digits, the base prefix counting as one.\<close>

datatype seen = SawStart | SawDigit | SawUnderscore | SawOther

fun underscores :: "bool \<Rightarrow> seen \<Rightarrow> string \<Rightarrow> bool" where
  "underscores hex saw [] = (saw \<noteq> SawUnderscore)"
| "underscores hex saw (c # s) =
     (let n = of_char c :: nat in
      if 48 \<le> n \<and> n \<le> 57 \<or> hex \<and> (97 \<le> n \<and> n \<le> 102 \<or> 65 \<le> n \<and> n \<le> 70) then underscores hex SawDigit s
      else if c = CHR ''_'' then (if saw = SawDigit then underscores hex SawUnderscore s else False)
      else if saw = SawUnderscore then False
      else underscores hex SawOther s)"

definition underscoreOK :: "string \<Rightarrow> bool" where
  "underscoreOK s =
     (case s of
        a # b # rest \<Rightarrow>
          if a = CHR ''0'' \<and> b \<in> set ''bBoOxX'' then underscores (b \<in> set ''xX'') SawDigit rest
          else underscores False SawStart s
      | _ \<Rightarrow> underscores False SawStart s)"

definition ParseUint0 :: "string \<Rightarrow> nat option" where
  "ParseUint0 s =
     (if s = '''' then None
      else case base_prefix s of (base, body) \<Rightarrow>
        (case digits_in base 0 body of
           None \<Rightarrow> None
         | Some n \<Rightarrow> if CHR ''_'' \<in> set s \<and> \<not> underscoreOK s then None else Some n))"

text \<open>\<open>strconv.ParseInt(s, 0, 64)\<close>.\<close>

definition ParseInt0 :: "string \<Rightarrow> int option" where
  "ParseInt0 s =
     (let neg = has_prefix s ''-'';
          body = (if neg \<or> has_prefix s ''+'' then tl s else s)
      in case ParseUint0 body of
           None \<Rightarrow> None
         | Some n \<Rightarrow> (let i = (if neg then - int n else int n) in if in_int64 i then Some i else None))"

section \<open>Flags and their values\<close>

definition string_flag :: "string \<Rightarrow> flag_spec" where
  "string_flag n = \<lparr>flag_Name = n, flag_Bool = False, flag_accepts = \<lambda>_. True\<rparr>"

definition bool_flag :: "string \<Rightarrow> flag_spec" where
  "bool_flag n = \<lparr>flag_Name = n, flag_Bool = True, flag_accepts = \<lambda>v. ParseBool v \<noteq> None\<rparr>"

definition int_flag :: "string \<Rightarrow> flag_spec" where
  "int_flag n = \<lparr>flag_Name = n, flag_Bool = False, flag_accepts = \<lambda>v. ParseInt0 v \<noteq> None\<rparr>"

text \<open>The last setting of a flag counts; without one the default.\<close>

definition string_value :: "settings \<Rightarrow> string \<Rightarrow> string \<Rightarrow> string" where
  "string_value ss n d = (case map_of (rev ss) n of None \<Rightarrow> d | Some v \<Rightarrow> v)"

definition bool_value :: "settings \<Rightarrow> string \<Rightarrow> bool" where
  "bool_value ss n = (case map_of (rev ss) n of None \<Rightarrow> False | Some v \<Rightarrow> ParseBool v = Some True)"

definition int_value :: "settings \<Rightarrow> string \<Rightarrow> int \<Rightarrow> int" where
  "int_value ss n d = (case map_of (rev ss) n of None \<Rightarrow> d | Some v \<Rightarrow> the (ParseInt0 v))"

section \<open>Shared flag sets\<close>

definition addExecutorConfigFlags :: flag_set where
  "addExecutorConfigFlags =
     [string_flag ''executor-web-base-url'', string_flag ''executor-publish'', string_flag ''executor-dns'',
      bool_flag ''clear-executor-config'']"

definition executor_flags_of :: "settings \<Rightarrow> executorConfigFlags" where
  "executor_flags_of ss =
     \<lparr>f_webBaseURL = string_value ss ''executor-web-base-url'' '''', f_publish = string_value ss ''executor-publish'' '''',
      f_dns = string_value ss ''executor-dns'' '''', f_clear = bool_value ss ''clear-executor-config''\<rparr>"

definition addResourceConfigFlags :: flag_set where
  "addResourceConfigFlags =
     [string_flag ''agent-cpus'', string_flag ''agent-memory'', string_flag ''executor-cpus'',
      string_flag ''executor-memory'', string_flag ''agent-volume-budget'', string_flag ''executor-volume-budget'']"

definition resource_flags_of :: "settings \<Rightarrow> resourceFlagValues" where
  "resource_flags_of ss =
     \<lparr>agentCPUs = string_value ss ''agent-cpus'' '''', agentMemory = string_value ss ''agent-memory'' '''',
      executorCPUs = string_value ss ''executor-cpus'' '''', executorMemory = string_value ss ''executor-memory'' '''',
      agentVolumeBudget = string_value ss ''agent-volume-budget'' '''',
      executorVolumeBudget = string_value ss ''executor-volume-budget'' ''''\<rparr>"

definition logs_flags :: flag_set where
  "logs_flags =
     [string_flag ''source'', int_flag ''tail'', string_flag ''since'', string_flag ''grep'', string_flag ''level'',
      bool_flag ''json'', bool_flag ''no-redact'']"

definition logs_options :: "settings \<Rightarrow> logsQueryOptions" where
  "logs_options ss =
     \<lparr>lq_Source = string_value ss ''source'' ''all'', lq_Tail = int_value ss ''tail'' 200,
      lq_Since = string_value ss ''since'' '''', lq_Contains = string_value ss ''grep'' '''',
      lq_Level = string_value ss ''level'' '''', lq_JSON = bool_value ss ''json'',
      lq_NoRedact = bool_value ss ''no-redact''\<rparr>"

definition logs_export_flags :: flag_set where
  "logs_export_flags =
     [string_flag ''output'', string_flag ''source'', string_flag ''since'', string_flag ''grep'', string_flag ''level'',
      bool_flag ''no-redact'']"

definition logs_export_options :: "settings \<Rightarrow> logsQueryOptions" where
  "logs_export_options ss =
     \<lparr>lq_Source = string_value ss ''source'' ''all'', lq_Tail = 0,
      lq_Since = string_value ss ''since'' '''', lq_Contains = string_value ss ''grep'' '''',
      lq_Level = string_value ss ''level'' '''', lq_JSON = False,
      lq_NoRedact = bool_value ss ''no-redact''\<rparr>"

text \<open>Every accepted integer setting has a value, so the default is never replaced by nothing.\<close>

lemma parse_one_accepts:
  assumes "parse_one F args = Inr (Some (n, v), rest)"
  shows "\<exists>f. Lookup F n = Some f \<and> flag_accepts f v"
  using assms
  by (cases args)
    (auto simp: Lookup_def give_flag_def find_Some_iff split: if_splits prod.splits option.splits list.splits)

lemma Parse_accepts:
  "Parse F args = Inr (ss, ps) \<Longrightarrow> (n, v) \<in> set ss \<Longrightarrow> \<exists>f. Lookup F n = Some f \<and> flag_accepts f v"
proof (induction F args arbitrary: ss ps rule: Parse.induct)
  case (1 F args)
  then show ?case
    by (subst (asm) Parse.simps)
      (auto simp: result_bind_Inr_iff split: sum.splits option.splits prod.splits dest: parse_one_accepts)
qed

end
