(* ===== verification/CPUs.thy ===== *)
theory CPUs
  imports Complex_Main Resources
begin

text \<open>
  \<open>ParseCPUs\<close> of \<open>internal/box/resources.go\<close>, with its 64-bit floating-point arithmetic.  A finite
  double is the rational number that it stands for; \<open>strconv.ParseFloat\<close> is a parameter.
\<close>

section \<open>Doubles\<close>

datatype double = Finite rat | Infinite bool | NotANumber

definition pow2 :: "int \<Rightarrow> rat" where
  "pow2 k = (if k \<ge> 0 then 2 ^ nat k else 1 / 2 ^ nat (- k))"

text \<open>The number of binary digits, and from it the exponent of a positive number.\<close>

fun bits :: "nat \<Rightarrow> nat" where
  "bits n = (if n = 0 then 0 else Suc (bits (n div 2)))"

declare bits.simps [simp del]

definition exponent :: "rat \<Rightarrow> int" where
  "exponent r =
     (case quotient_of r of (a, b) \<Rightarrow>
        let k = int (bits (nat a)) - int (bits (nat b)) in if pow2 k \<le> r then k else k - 1)"

definition round_even :: "rat \<Rightarrow> int" where
  "round_even r =
     (let f = \<lfloor>r\<rfloor>; d = r - of_int f in
      if d < 1 / 2 \<or> d = 1 / 2 \<and> even f then f else f + 1)"

text \<open>The double nearest to a positive number: 53 binary digits, exponents from -1074 to 971.\<close>

definition round_double :: "rat \<Rightarrow> double" where
  "round_double r =
     (let e = max (exponent r - 52) (-1074); v = of_int (round_even (r / pow2 e)) * pow2 e in
      if v \<ge> 2 ^ 1024 then Infinite False else Finite v)"

text \<open>\<open>math.Round\<close> of a number that is not negative: halves go away from zero.\<close>

definition Round :: "rat \<Rightarrow> int" where
  "Round r = \<lfloor>r + 1 / 2\<rfloor>"

section \<open>CPU counts\<close>

definition ParseCPUs :: "(string \<Rightarrow> double option) \<Rightarrow> string \<Rightarrow> resource_error + int" where
  "ParseCPUs ParseFloat value =
     (case ParseFloat (trim_space value) of
        Some (Finite cpus) \<Rightarrow>
          if cpus \<le> 0 then Inl (InvalidCPUs (trim_space value))
          else (case round_double (cpus * 1000000000) of
              Finite product \<Rightarrow>
                if of_int (Round product) \<ge> (2 ^ 63 :: rat) then Inl (InvalidCPUs (trim_space value))
                else if Round product = 0 then Inl (InvalidCPUs (trim_space value))
                else Inr (Round product)
            | _ \<Rightarrow> Inl (InvalidCPUs (trim_space value)))
      | _ \<Rightarrow> Inl (InvalidCPUs (trim_space value)))"

section \<open>Accuracy\<close>

lemma bits_bounds: "n < 2 ^ bits n" "0 < n \<Longrightarrow> 2 ^ bits n \<le> 2 * n"
proof (induction n rule: bits.induct)
  case (1 n)
  have "n < 2 ^ bits n \<and> (0 < n \<longrightarrow> 2 ^ bits n \<le> 2 * n)"
  proof (cases "n < 2")
    case True
    then show ?thesis by (cases n) (auto simp: bits.simps [of 0] bits.simps [of "Suc 0"] bits.simps [of 1])
  next
    case False
    then have "n div 2 < 2 ^ bits (n div 2)" "2 ^ bits (n div 2) \<le> 2 * (n div 2)"
      using 1 by simp_all
    then show ?thesis using False by (subst (1 2) bits.simps) auto
  qed
  then show "n < 2 ^ bits n" "0 < n \<Longrightarrow> 2 ^ bits n \<le> 2 * n" by blast+
qed

lemma pow2_pos: "0 < pow2 k"
  by (simp add: pow2_def)

lemma pow2_powi: "pow2 k = 2 powi k"
  by (simp add: pow2_def power_int_def field_simps)

lemma pow2_diff: "pow2 (a - b) = pow2 a / pow2 b"
  by (simp add: pow2_powi power_int_diff)

lemma exponent_below:
  assumes "0 < r"
  shows "pow2 (exponent r) \<le> r"
proof -
  obtain a b where q: "quotient_of r = (a, b)" by fastforce
  then have r: "r = of_int a / of_int b" and b: "0 < b" by (simp_all add: quotient_of_div quotient_of_denom_pos)
  then have a: "0 < a" using assms by (simp add: zero_less_divide_iff)
  let ?k = "int (bits (nat a)) - int (bits (nat b))"
  have "(2 ^ bits (nat a) :: rat) \<le> 2 * of_int a"
    using bits_bounds(2) [of "nat a"] a by (metis (mono_tags, lifting) of_int_of_nat_eq of_nat_le_iff of_nat_mult of_nat_numeral of_nat_power zero_less_nat_eq nat_0_le less_imp_le)
  moreover have "of_int b \<le> (2 ^ bits (nat b) :: rat)"
    using bits_bounds(1) [of "nat b"] b by (metis (mono_tags, lifting) of_int_of_nat_eq of_nat_le_iff of_nat_numeral of_nat_power nat_0_le less_imp_le)
  moreover have "pow2 (?k - 1) = 2 ^ bits (nat a) / 2 / 2 ^ bits (nat b)"
    by (simp add: pow2_diff) (simp add: pow2_def)
  moreover have "(2 ^ bits (nat a) / 2) / 2 ^ bits (nat b) \<le> (of_int a :: rat) / of_int b"
    using calculation(1,2) b a by (intro frac_le) simp_all
  ultimately have "pow2 (?k - 1) \<le> r" unfolding r by simp
  then show ?thesis by (simp add: exponent_def q Let_def)
qed

lemma round_even_near: "\<bar>of_int (round_even r) - r\<bar> \<le> 1 / 2"
proof -
  define f where "f = \<lfloor>r\<rfloor>"
  have "of_int f \<le> r" "r < of_int f + 1" unfolding f_def by linarith+
  then show ?thesis unfolding round_even_def Let_def f_def [symmetric] by (auto simp: abs_if)
qed

lemma round_double_near:
  assumes "round_double r = Finite v" and "0 < r"
  shows "\<bar>v - r\<bar> \<le> max (r / 2 ^ 53) (pow2 (-1075))"
proof -
  let ?e = "max (exponent r - 52) (-1074)"
  have v: "v = of_int (round_even (r / pow2 ?e)) * pow2 ?e"
    using assms(1) by (simp add: round_double_def Let_def split: if_splits)
  have "\<bar>v - r\<bar> = \<bar>of_int (round_even (r / pow2 ?e)) - r / pow2 ?e\<bar> * pow2 ?e"
  proof -
    have "v - r = (of_int (round_even (r / pow2 ?e)) - r / pow2 ?e) * pow2 ?e"
      using pow2_pos [of ?e] unfolding v by (simp add: left_diff_distrib)
    then show ?thesis using pow2_pos [of ?e] by (simp only: abs_mult) (simp add: abs_of_pos)
  qed
  also have "\<dots> \<le> 1 / 2 * pow2 ?e"
    by (rule mult_right_mono [OF round_even_near]) (simp add: pow2_pos less_imp_le)
  also have "\<dots> \<le> max (r / 2 ^ 53) (pow2 (-1075))"
  proof (cases "exponent r - 52 \<le> -1074")
    case True
    then have "1 / 2 * pow2 ?e = pow2 (-1075)" by (simp add: pow2_def)
    then show ?thesis by simp
  next
    case False
    then have "1 / 2 * pow2 ?e = pow2 (exponent r) / 2 ^ 53"
      by (simp add: pow2_diff) (simp add: pow2_def)
    also have "\<dots> \<le> r / 2 ^ 53" using exponent_below [OF assms(2)] by (simp add: divide_right_mono)
    finally show ?thesis by simp
  qed
  finally show ?thesis .
qed

lemma Round_near: "\<bar>of_int (Round r) - r\<bar> \<le> 1 / 2"
  unfolding Round_def by linarith

text \<open>
  An accepted count is a positive 64-bit number, and it is the given number of CPUs in billionths, up to
  half a unit and the rounding of one multiplication.
\<close>

text \<open>C35: a CPU count that is accepted is a positive 64-bit number of billionths, and it is the given
  number of CPUs up to half a unit and the rounding of one multiplication of doubles: the conversion to an
  integer never wraps around.\<close>

theorem cpus_accurate:
  assumes "ParseCPUs ParseFloat value = Inr n"
  shows "0 < n \<and> in_int64 n \<and> (\<exists>cpus. ParseFloat (trim_space value) = Some (Finite cpus) \<and> 0 < cpus \<and>
    \<bar>of_int n - cpus * 1000000000\<bar> \<le> 1 / 2 + max (cpus * 1000000000 / 2 ^ 53) (pow2 (-1075)))"
proof -
  obtain cpus product where f: "ParseFloat (trim_space value) = Some (Finite cpus)" "0 < cpus"
      and p: "round_double (cpus * 1000000000) = Finite product" and n: "n = Round product" "n \<noteq> 0"
      and small: "\<not> of_int n \<ge> (2 ^ 63 :: rat)"
    using assms by (auto simp: ParseCPUs_def split: option.splits double.splits if_splits)
  let ?r = "cpus * 1000000000"
  have near: "\<bar>product - ?r\<bar> \<le> max (?r / 2 ^ 53) (pow2 (-1075))"
    by (rule round_double_near [OF p]) (simp add: f(2))
  have "0 \<le> product"
  proof -

    have "0 \<le> round_even (?r / pow2 (max (exponent ?r - 52) (-1074)))"
      using f(2) pow2_pos by (auto simp: round_even_def Let_def divide_nonneg_pos less_imp_le)
    then show ?thesis
      using p pow2_pos by (auto simp: round_double_def Let_def less_imp_le split: if_splits)
  qed
  then have "0 \<le> n" unfolding n(1) Round_def by linarith
  then have "0 < n" using n(2) by simp
  moreover have "n < 2 ^ 63" using small by (metis not_le of_int_le_iff of_int_numeral of_int_power)
  then have "in_int64 n" using \<open>0 < n\<close> by (simp add: in_int64_def min_int64_def max_int64_def)
  moreover have "\<bar>of_int n - ?r\<bar> \<le> 1 / 2 + max (?r / 2 ^ 53) (pow2 (-1075))"
    using near Round_near [of product] unfolding n(1) by linarith
  ultimately show ?thesis using f by blast
qed

text \<open>One and a half CPUs.\<close>

lemma cpus_accurate_witness:
  "\<exists>cpus. Some (Finite (3 / 2)) = Some (Finite cpus) \<and>
     \<bar>of_int 1500000000 - cpus * 1000000000\<bar> \<le> 1 / 2 + max (cpus * 1000000000 / 2 ^ 53) (pow2 (-1075))"
proof -
  have "bits 1500000000 = 31" "bits 1 = 1" by (simp_all add: bits.simps)
  moreover have "quotient_of 1500000000 = (1500000000, 1)" by simp
  ultimately have "exponent 1500000000 = 30" by (simp add: exponent_def pow2_def)
  then have "round_double 1500000000 = Finite 1500000000"
    by (simp add: round_double_def pow2_def round_even_def)
  moreover have "Round 1500000000 = 1500000000" by (simp add: Round_def floor_eq_iff)
  ultimately have "ParseCPUs (\<lambda>s. Some (Finite (3 / 2))) ''1.5'' = Inr 1500000000"
    by (simp add: ParseCPUs_def)
  from cpus_accurate [OF this] show ?thesis by blast
qed

end
