(* ===== verification/Dispatch.thy ===== *)
theory Dispatch
  imports FlagValues Overview SelfUpdate CPUs
begin

text \<open>
  The command line: \<open>dispatch.go\<close> and the part of each \<open>cmd_*.go\<close> that reads its flags and arguments
  and calls the command.  What the program finds outside of itself is a record \<open>program\<close>; its state is
  the world of the commands and the installed binaries.
\<close>

section \<open>The program and its state\<close>

record terminal =
  typed_line :: "string option"
  abs_path :: "string \<Rightarrow> string option"
  parse_float :: "string \<Rightarrow> double option"
  ram_bytes_of :: "string \<Rightarrow> int option"
  float_text :: "int \<Rightarrow> string"
  size_text :: "int \<Rightarrow> string"
  docker_path :: "string option"
  exec_works :: bool
  environ_list :: "string list"

record program =
  p_system :: system
  p_tools :: tools
  p_front :: front
  p_machine :: machine
  p_terminal :: terminal

record cli_state =
  cli_world :: world
  cli_binaries :: binaries

datatype cli_error =
    FlagErr flag_error
  | CommandErr tx9_error
  | UpgradeErr upgrade_error
  | NoDockerBinary
  | ExecDockerFailed

datatype outcome =
    Completed
  | CreatedBox string
  | Table "string list list"
  | DashboardOpened opened
  | Pruned "string list" "string list"
  | WroteFile string
  | LogText string
  | RunDocker "string list" "string list"
  | SelfUpgraded "(string \<times> string) option"

type_synonym 'a cli = "(cli_state, cli_error, 'a) comp"

definition in_world :: "'a tx9 \<Rightarrow> 'a cli" where
  "in_world m s = (case m (cli_world s) of (r, w') \<Rightarrow> (map_error CommandErr r, s\<lparr>cli_world := w'\<rparr>))"

definition run_as :: "('a \<Rightarrow> outcome) \<Rightarrow> 'a tx9 \<Rightarrow> outcome cli" where
  "run_as f m = bind_comp (in_world m) (\<lambda>x. ret (f x))"

definition usage :: "string \<Rightarrow> 'a cli" where
  "usage cmd = fail (CommandErr (Usage cmd))"

definition with_flags ::
  "flag_set \<Rightarrow> string list \<Rightarrow> (settings \<Rightarrow> string list \<Rightarrow> outcome cli) \<Rightarrow> outcome cli" where
  "with_flags F args k =
     (case parseFlagsAnywhere F args of
        Inl e \<Rightarrow> fail (FlagErr e)
      | Inr (ss, ps) \<Rightarrow> k ss ps)"

definition requireBoxName :: "string \<Rightarrow> string list \<Rightarrow> (string \<Rightarrow> outcome cli) \<Rightarrow> outcome cli" where
  "requireBoxName cmd ps k = (case ps of [name] \<Rightarrow> k name | _ \<Rightarrow> usage cmd)"

definition resource_args :: "program \<Rightarrow> settings \<Rightarrow> Resources \<Rightarrow> resource_error + Resources" where
  "resource_args P ss =
     apply_flags (ParseCPUs (parse_float (p_terminal P))) (ram_bytes_of (p_terminal P)) (resource_flags_of ss)"

section \<open>The commands\<close>

definition cliCreate :: "program \<Rightarrow> string list \<Rightarrow> outcome cli" where
  "cliCreate P args =
     with_flags (addExecutorConfigFlags @ addResourceConfigFlags) args (\<lambda>ss ps.
       if length ps > 1 then usage ''create''
       else run_as CreatedBox
         (cmdCreate (p_system P) (executor_flags_of ss) (resource_args P ss) (case ps of [] \<Rightarrow> '''' | n # _ \<Rightarrow> n)))"

definition cliList :: "program \<Rightarrow> string list \<Rightarrow> outcome cli" where
  "cliList P args =
     with_flags [] args (\<lambda>ss ps.
       if ps \<noteq> [] then usage ''list'' else run_as Table (cmdList (p_system P) (p_front P)))"

definition cliEnter :: "program \<Rightarrow> string list \<Rightarrow> outcome cli" where
  "cliEnter P args =
     with_flags [bool_flag ''executor''] args (\<lambda>ss ps.
       requireBoxName ''enter'' ps (\<lambda>name.
         let into = bool_value ss ''executor'' in
         bind_comp (in_world (enter_target (p_system P) name into)) (\<lambda>(cid, tok).
           case docker_path (p_terminal P) of
             None \<Rightarrow> fail NoDockerBinary
           | Some bin \<Rightarrow>
               if \<not> exec_works (p_terminal P) then fail ExecDockerFailed
               else ret (case enterExecCommand bin cid tok into (environ_list (p_terminal P)) of
                      (argv, env) \<Rightarrow> RunDocker argv env))))"

definition cliStart :: "program \<Rightarrow> string list \<Rightarrow> outcome cli" where
  "cliStart P args =
     with_flags [] args (\<lambda>ss ps.
       requireBoxName ''start'' ps (\<lambda>name. run_as (\<lambda>_. Completed) (cmdStart (p_system P) name)))"

definition cliStop :: "program \<Rightarrow> string list \<Rightarrow> outcome cli" where
  "cliStop P args =
     with_flags [] args (\<lambda>ss ps.
       requireBoxName ''stop'' ps (\<lambda>name. run_as (\<lambda>_. Completed) (cmdStop (p_system P) name)))"

definition cliLogsExport :: "program \<Rightarrow> string list \<Rightarrow> outcome cli" where
  "cliLogsExport P args =
     with_flags logs_export_flags args (\<lambda>ss ps.
       requireBoxName ''logs export'' ps (\<lambda>name.
         run_as WroteFile
           (cmdLogsExport (p_system P) (p_tools P) (abs_path (p_terminal P)) (logs_export_options ss)
             (string_value ss ''output'' '''') name)))"

definition cliLogs :: "program \<Rightarrow> string list \<Rightarrow> outcome cli" where
  "cliLogs P args =
     (case splitLogsAction args of (action, rest) \<Rightarrow>
        if action = ''export'' then cliLogsExport P rest
        else with_flags logs_flags rest (\<lambda>ss ps.
          requireBoxName ''logs'' ps (\<lambda>name.
            run_as LogText (cmdLogs (p_system P) (logs_options ss) name))))"

definition cliResourcesShow :: "program \<Rightarrow> string list \<Rightarrow> outcome cli" where
  "cliResourcesShow P args =
     with_flags [] args (\<lambda>ss ps.
       requireBoxName ''resources'' ps (\<lambda>name.
         run_as Table (cmdResourcesShow (p_system P) (float_text (p_terminal P)) (size_text (p_terminal P)) name)))"

definition cliResourcesSet :: "program \<Rightarrow> string list \<Rightarrow> outcome cli" where
  "cliResourcesSet P args =
     with_flags addResourceConfigFlags args (\<lambda>ss ps.
       requireBoxName ''resources set'' ps (\<lambda>name.
         run_as (\<lambda>_. Completed)
           (cmdResourcesSet (p_system P) (resource_args P ss) (hasOverrides (resource_flags_of ss)) name)))"

definition cliResourcesReset :: "program \<Rightarrow> string list \<Rightarrow> outcome cli" where
  "cliResourcesReset P args =
     with_flags [] args (\<lambda>ss ps.
       requireBoxName ''resources reset'' ps (\<lambda>name.
         run_as (\<lambda>_. Completed) (cmdResourcesReset (p_system P) name)))"

definition cliResources :: "program \<Rightarrow> string list \<Rightarrow> outcome cli" where
  "cliResources P args =
     (if args = [] then usage ''resources''
      else case splitResourcesAction args of (action, rest) \<Rightarrow>
        if action = ''show'' then cliResourcesShow P rest
        else if action = ''set'' then cliResourcesSet P rest
        else cliResourcesReset P rest)"

definition cliBackup :: "program \<Rightarrow> string list \<Rightarrow> outcome cli" where
  "cliBackup P args =
     with_flags [string_flag ''path'', string_flag ''password'', bool_flag ''no-encrypt''] args (\<lambda>ss ps.
       requireBoxName ''backup'' ps (\<lambda>name.
         run_as WroteFile
           (cmdBackup (p_system P) (p_tools P) (string_value ss ''path'' '''') (string_value ss ''password'' '''')
             (bool_value ss ''no-encrypt'') name)))"

definition cliImport :: "program \<Rightarrow> string list \<Rightarrow> outcome cli" where
  "cliImport P args =
     with_flags (addExecutorConfigFlags @ addResourceConfigFlags @ [string_flag ''name'', string_flag ''password''])
       args (\<lambda>ss ps.
       case ps of
         [file] \<Rightarrow>
           run_as (\<lambda>_. Completed)
             (cmdImport (p_system P) (p_tools P) (executor_flags_of ss) (resource_args P ss)
               (string_value ss ''name'' '''') (string_value ss ''password'' '''') file)
       | _ \<Rightarrow> usage ''import'')"

definition cliMountAdd :: "program \<Rightarrow> string list \<Rightarrow> outcome cli" where
  "cliMountAdd P args =
     with_flags [bool_flag ''read-only'', bool_flag ''require-mountpoint''] args (\<lambda>ss ps.
       case ps of
         [name, source, target] \<Rightarrow>
           run_as (\<lambda>_. Completed)
             (cmdMountAdd (p_system P) name source target (bool_value ss ''read-only'')
               (bool_value ss ''require-mountpoint''))
       | _ \<Rightarrow> usage ''mount add'')"

definition cliMountList :: "program \<Rightarrow> string list \<Rightarrow> outcome cli" where
  "cliMountList P args =
     with_flags [] args (\<lambda>ss ps.
       requireBoxName ''mount list'' ps (\<lambda>name. run_as Table (cmdMountList (p_system P) name)))"

definition cliMountRemove :: "program \<Rightarrow> string list \<Rightarrow> outcome cli" where
  "cliMountRemove P args =
     with_flags [] args (\<lambda>ss ps.
       case ps of
         [name, target] \<Rightarrow> run_as (\<lambda>_. Completed) (cmdMountRemove (p_system P) name target)
       | _ \<Rightarrow> usage ''mount remove'')"

definition cliMount :: "program \<Rightarrow> string list \<Rightarrow> outcome cli" where
  "cliMount P args =
     (case args of
        [] \<Rightarrow> usage ''mount''
      | a # rest \<Rightarrow>
          if a \<in> {''-h'', ''-help'', ''--help''} then fail (FlagErr ErrHelp)
          else if a = ''add'' then cliMountAdd P rest
          else if a = ''list'' then cliMountList P rest
          else if a = ''remove'' \<or> a = ''rm'' then cliMountRemove P rest
          else usage ''mount'')"

definition cliGateway :: "program \<Rightarrow> string list \<Rightarrow> outcome cli" where
  "cliGateway P args =
     with_flags [bool_flag ''confirm-single-writer''] args (\<lambda>ss ps.
       case ps of
         [action, name] \<Rightarrow>
           run_as (\<lambda>_. Completed)
             (cmdGateway (p_system P) action (bool_value ss ''confirm-single-writer'') name)
       | _ \<Rightarrow> usage ''gateway'')"

definition cliOpen :: "program \<Rightarrow> string list \<Rightarrow> outcome cli" where
  "cliOpen P args =
     with_flags [] args (\<lambda>ss ps.
       requireBoxName ''open'' ps (\<lambda>name. run_as DashboardOpened (cmdOpen (p_system P) (p_front P) name)))"

definition cliDoctor :: "program \<Rightarrow> string list \<Rightarrow> outcome cli" where
  "cliDoctor P args =
     with_flags [] args (\<lambda>ss ps.
       requireBoxName ''doctor'' ps (\<lambda>name.
         run_as (\<lambda>_. Completed) (cmdDoctor (p_system P) (p_front P) name)))"

text \<open>The self-update works on the installed binaries; the last of its states is the one it leaves.\<close>

definition self_upgrade :: "program \<Rightarrow> bool \<Rightarrow> outcome cli" where
  "self_upgrade P force s =
     (case cmdUpgradeSelf (p_machine P) (Version (p_system P)) force (cli_binaries s) of
        (r, states) \<Rightarrow>
          (case r of Inl e \<Rightarrow> Inl (UpgradeErr e) | Inr x \<Rightarrow> Inr (SelfUpgraded x), s\<lparr>cli_binaries := last states\<rparr>))"

definition cliUpgrade :: "program \<Rightarrow> string list \<Rightarrow> outcome cli" where
  "cliUpgrade P args =
     with_flags (bool_flag ''force'' # addExecutorConfigFlags @ addResourceConfigFlags) args (\<lambda>ss ps.
       case ps of
         [] \<Rightarrow>
           if executor_hasOverrides (executor_flags_of ss) \<or> hasOverrides (resource_flags_of ss) then usage ''upgrade''
           else self_upgrade P (bool_value ss ''force'')
       | [name] \<Rightarrow>
           run_as (\<lambda>_. Completed) (cmdUpgrade (p_system P) (executor_flags_of ss) (resource_args P ss) name)
       | _ \<Rightarrow> usage ''upgrade'')"

definition cliDelete :: "program \<Rightarrow> string list \<Rightarrow> outcome cli" where
  "cliDelete P args =
     with_flags [bool_flag ''force''] args (\<lambda>ss ps.
       requireBoxName ''delete'' ps (\<lambda>name.
         run_as (\<lambda>_. Completed)
           (cmdDelete (p_system P) (bool_value ss ''force'') (typed_line (p_terminal P)) name)))"

definition cliPrune :: "program \<Rightarrow> string list \<Rightarrow> outcome cli" where
  "cliPrune P args =
     with_flags [] args (\<lambda>ss ps.
       if ps \<noteq> [] then usage ''prune''
       else run_as (\<lambda>(images, files). Pruned images files) (cmdPrune (p_system P)))"

section \<open>The table of commands\<close>

datatype command =
    CmdCreate | CmdList | CmdEnter | CmdStart | CmdStop | CmdLogs | CmdResources | CmdBackup | CmdImport
  | CmdMount | CmdGateway | CmdOpen | CmdDoctor | CmdUpgrade | CmdDelete | CmdPrune

definition commandSpecs :: "(string \<times> string \<times> string list \<times> command) list" where
  "commandSpecs =
     [
      (''create'', ''generate/build if needed, create and start a new box'', [''new''], CmdCreate),
      (''list'', ''list boxes on this machine (state, image version, dashboard URL)'', [''ls''], CmdList),
      (''enter'', (''exec into a box'' @ [CHR 0x27] @ ''s agent container (--executor for the executor container)''), [''ssh'', ''shell''], CmdEnter),
      (''start'', ''start a stopped box'', [], CmdStart),
      (''stop'', ''stop a running box'', [], CmdStop),
      (''logs'', ''query/export durable agent, Executor, Hermes, Codex, Claude, and custom-service events'', [], CmdLogs),
      (''resources'', ''show/update container limits and volume budgets'', [], CmdResources),
      (''backup'', ''archive a box to a .tx9 file'', [''export'', ''save''], CmdBackup),
      (''import'', ''restore a box from a .tx9 file'', [''load'', ''restore''], CmdImport),
      (''mount'', ''add/list/remove persistent agent host mounts'', [], CmdMount),
      (''gateway'', ''status/enable/disable the supervised Hermes gateway'', [], CmdGateway),
      (''open'', (''print/open a box'' @ [CHR 0x27] @ ''s authenticated dashboard URL''), [], CmdOpen),
      (''doctor'', ''run health checks against a box'', [], CmdDoctor),
      (''upgrade'', ''self-update the CLI, or move a box onto the current image'', [''update''], CmdUpgrade),
      (''delete'', (''delete a box'' @ [CHR 0x27] @ ''s containers, volumes, and state''), [''rm'', ''remove''], CmdDelete),
      (''prune'', ''remove unused tx9-box images and stale state'', [], CmdPrune)
]"

text \<open>\<open>registerCommands\<close>: the tables of commands and of aliases.\<close>

definition commands_table :: "(string \<times> command) list" where
  "commands_table = map (\<lambda>(name, _, _, c). (name, c)) commandSpecs"

definition aliases_table :: "(string \<times> string) list" where
  "aliases_table = concat (map (\<lambda>(name, _, als, _). map (\<lambda>a. (a, name)) als) commandSpecs)"

fun run_command :: "program \<Rightarrow> command \<Rightarrow> string list \<Rightarrow> outcome cli" where
  "run_command P CmdCreate = cliCreate P"
| "run_command P CmdList = cliList P"
| "run_command P CmdEnter = cliEnter P"
| "run_command P CmdStart = cliStart P"
| "run_command P CmdStop = cliStop P"
| "run_command P CmdLogs = cliLogs P"
| "run_command P CmdResources = cliResources P"
| "run_command P CmdBackup = cliBackup P"
| "run_command P CmdImport = cliImport P"
| "run_command P CmdMount = cliMount P"
| "run_command P CmdGateway = cliGateway P"
| "run_command P CmdOpen = cliOpen P"
| "run_command P CmdDoctor = cliDoctor P"
| "run_command P CmdUpgrade = cliUpgrade P"
| "run_command P CmdDelete = cliDelete P"
| "run_command P CmdPrune = cliPrune P"

section \<open>Usage texts\<close>

definition pad10 :: "string \<Rightarrow> string" where
  "pad10 s = ''  '' @ pad_right 10 s @ '' ''"

definition printCommandList :: "string list" where
  "printCommandList = ['''', ''Commands:''] @ map (\<lambda>(name, help, _, _). pad10 name @ help) commandSpecs"

text \<open>The dash in the first line is the three bytes of U+2014.\<close>

definition printUsage :: "system \<Rightarrow> string list" where
  "printUsage E =
     [''tx9 '' @ Version E @ '' '' @ [CHR 0xE2, CHR 0x80, CHR 0x94] @ '' manage hermes boxes'', '''',
      ''Usage: tx9 <command> [args]''] @
     printCommandList @
     ['''', ''Aliases:''] @ map (\<lambda>(a, name). pad10 a @ name) aliases_table @
     ['''', ''Other:'', ''  help       show this message'', ''  version    print the CLI version'',
      '''', ''Flags:'', ''  -h, --help     show this message'', ''  -v, --version  print the CLI version'']"

section \<open>Dispatch\<close>

text \<open>What a run prints, as far as it is modelled.\<close>

datatype printed =
    OverviewShown "string list option" "overview_warning list"
  | OverviewUnavailable cli_error "string list"
  | UsageShown "string list"
  | VersionShown string
  | UnknownCommand string "string list"
  | HelpOfCommand
  | CommandFailed cli_error
  | CommandDone outcome

text \<open>\<open>args\<close> starts with the program name; the result is the exit code and what was printed.\<close>

definition runWithOverview ::
  "program \<Rightarrow> (string list option \<times> overview_warning list) cli \<Rightarrow> string list \<Rightarrow> cli_state
     \<Rightarrow> (int \<times> printed) \<times> cli_state" where
  "runWithOverview P overview args s =
     (case args of
        _ # sub # rest \<Rightarrow>
          if sub \<in> {''-h'', ''-help'', ''--help'', ''help''} then ((0, UsageShown (printUsage (p_system P))), s)
          else if sub \<in> {''-v'', ''-version'', ''--version'', ''version''} then
            ((0, VersionShown (Version (p_system P))), s)
          else
            let sub' = (case map_of aliases_table sub of Some canonical \<Rightarrow> canonical | None \<Rightarrow> sub) in
            (case map_of commands_table sub' of
               None \<Rightarrow> ((1, UnknownCommand sub' (printUsage (p_system P))), s)
             | Some c \<Rightarrow>
                 (case run_command P c rest s of
                    (Inl e, s') \<Rightarrow> if e = FlagErr ErrHelp then ((0, HelpOfCommand), s') else ((1, CommandFailed e), s')
                  | (Inr x, s') \<Rightarrow> ((0, CommandDone x), s')))
      | _ \<Rightarrow>
          (case overview s of
             (Inl e, s') \<Rightarrow> ((0, OverviewUnavailable e printCommandList), s')
           | (Inr (ls, ws), s') \<Rightarrow> ((0, OverviewShown (map_option (\<lambda>l. l @ printCommandList) ls) ws), s')))"

definition Run :: "program \<Rightarrow> string list \<Rightarrow> cli_state \<Rightarrow> (int \<times> printed) \<times> cli_state" where
  "Run P = runWithOverview P (in_world (showOverview (p_system P) (p_front P)
     (float_text (p_terminal P)) (size_text (p_terminal P))))"

end
