(* ===== verification/IntLiterals.thy ===== *)
theory IntLiterals
  imports FlagValues
begin

text \<open>
  The integer literals of Go as a grammar, and that \<open>strconv.ParseInt(s, 0, 64)\<close>, the parser of integer
  flags in \<open>FlagValues\<close>, reads exactly these: an optional sign; a decimal number without a leading zero,
  or a base prefix with digits of that base, or a leading zero with octal digits; underscores only
  singly between digits, the prefix counting as one; and a value that fits 64 bits.
\<close>

section \<open>The grammar\<close>

definition digit_of :: "nat \<Rightarrow> char \<Rightarrow> bool" where
  "digit_of b c \<longleftrightarrow> (case char_val c of None \<Rightarrow> False | Some d \<Rightarrow> d < b)"

text \<open>Groups of digits with single underscores between them.\<close>

definition grouped :: "nat \<Rightarrow> string \<Rightarrow> bool" where
  "grouped b s \<longleftrightarrow> list_all (\<lambda>g. g \<noteq> [] \<and> list_all (digit_of b) g) (split_on CHR ''_'' s)"

definition digits_value :: "nat \<Rightarrow> string \<Rightarrow> nat" where
  "digits_value b s = foldl (\<lambda>n c. n * b + the (char_val c)) 0 (filter (\<lambda>c. c \<noteq> CHR ''_'') s)"

inductive go_natural :: "string \<Rightarrow> nat \<Rightarrow> bool" where
  decimal: "c \<noteq> CHR ''0'' \<Longrightarrow> grouped 10 (c # s) \<Longrightarrow> go_natural (c # s) (digits_value 10 (c # s))"
| octal: "grouped 8 (CHR ''0'' # s) \<Longrightarrow> go_natural (CHR ''0'' # s) (digits_value 8 (CHR ''0'' # s))"
| prefixed: "(p, b) \<in> set [(CHR ''b'', 2), (CHR ''B'', 2), (CHR ''o'', 8), (CHR ''O'', 8), (CHR ''x'', 16), (CHR ''X'', 16)]
    \<Longrightarrow> s \<noteq> [] \<Longrightarrow> grouped b (CHR ''0'' # s) \<Longrightarrow> go_natural (CHR ''0'' # p # s) (digits_value b s)"

definition go_integer :: "string \<Rightarrow> int \<Rightarrow> bool" where
  "go_integer s i \<longleftrightarrow> in_int64 i \<and>
     (\<exists>n. i = int n \<and> (go_natural s n \<or> (\<exists>t. s = CHR ''+'' # t \<and> go_natural t n)) \<or>
        i = - int n \<and> (\<exists>t. s = CHR ''-'' # t \<and> go_natural t n))"

section \<open>Digits and underscores\<close>

definition digits_only :: "nat \<Rightarrow> string \<Rightarrow> bool" where
  "digits_only b s \<longleftrightarrow> list_all (\<lambda>c. c = CHR ''_'' \<or> digit_of b c) s"

definition no_gap :: "string \<Rightarrow> bool" where
  "no_gap s \<longleftrightarrow> [] \<notin> set (split_on CHR ''_'' s)"

lemma digit_of_underscore [simp]: "\<not> digit_of b CHR ''_''"
  by (simp add: digit_of_def char_val_def)

lemma digits_in_iff:
  "digits_in b n s =
     (if digits_only b s then Some (foldl (\<lambda>n c. n * b + the (char_val c)) n (filter (\<lambda>c. c \<noteq> CHR ''_'') s))
      else None)"
  by (induction s arbitrary: n) (auto simp: digits_only_def digit_of_def split: option.splits)

lemma grouped_iff: "grouped b s \<longleftrightarrow> digits_only b s \<and> no_gap s"
proof -
  have "list_all (list_all (digit_of b)) (split_on CHR ''_'' s) \<longleftrightarrow> digits_only b s"
  proof (induction s)
    case (Cons c s)
    then show ?case
      by (cases "split_on CHR ''_'' s") (auto simp: digits_only_def)
  qed (simp add: digits_only_def)
  then show ?thesis by (auto simp: grouped_def no_gap_def list_all_iff)
qed

lemma no_gap_Cons:
  "no_gap (c # s) \<longleftrightarrow> (if c = CHR ''_'' then False else s = [] \<or> (if hd s = CHR ''_'' then no_gap (tl s) else no_gap s))"
  by (cases s) (auto simp: no_gap_def split: list.splits)

lemma underscores_no_gap:
  assumes "\<And>c. digit_of b c \<Longrightarrow> 48 \<le> (of_char c :: nat) \<and> (of_char c :: nat) \<le> 57 \<or>
      hex \<and> (97 \<le> (of_char c :: nat) \<and> (of_char c :: nat) \<le> 102 \<or> 65 \<le> (of_char c :: nat) \<and> (of_char c :: nat) \<le> 70)"
    and "digits_only b s"
  shows "underscores hex SawUnderscore s = no_gap s"
    and "underscores hex SawDigit s \<longleftrightarrow> s = [] \<or> (if hd s = CHR ''_'' then no_gap (tl s) else no_gap s)"
    and "s \<noteq> [] \<Longrightarrow> underscores hex SawStart s = no_gap s"
proof -
  have "underscores hex SawUnderscore s = no_gap s \<and>
     (underscores hex SawDigit s \<longleftrightarrow> s = [] \<or> (if hd s = CHR ''_'' then no_gap (tl s) else no_gap s)) \<and>
     (s \<noteq> [] \<longrightarrow> underscores hex SawStart s = no_gap s)"
    using assms(2)
  proof (induction s)
    case Nil
    then show ?case by (simp add: no_gap_def)
  next
    case (Cons c s)
    then have IH: "underscores hex SawUnderscore s = no_gap s"
      "underscores hex SawDigit s \<longleftrightarrow> s = [] \<or> (if hd s = CHR ''_'' then no_gap (tl s) else no_gap s)"
      by (simp_all add: digits_only_def)
    show ?case
    proof (cases "c = CHR ''_''")
      case True
      then show ?thesis using IH by (simp add: no_gap_Cons)
    next
      case False
      then have "digit_of b c" using Cons.prems by (simp add: digits_only_def)
      from assms(1) [OF this] show ?thesis using IH False by (auto simp: no_gap_Cons Let_def)
    qed
  qed
  then show "underscores hex SawUnderscore s = no_gap s"
    and "underscores hex SawDigit s \<longleftrightarrow> s = [] \<or> (if hd s = CHR ''_'' then no_gap (tl s) else no_gap s)"
    and "s \<noteq> [] \<Longrightarrow> underscores hex SawStart s = no_gap s" by simp_all
qed

lemma digit_of_range:
  "digit_of b c \<Longrightarrow> b \<le> 10 \<Longrightarrow> 48 \<le> (of_char c :: nat) \<and> (of_char c :: nat) \<le> 57"
  "digit_of 16 c \<Longrightarrow> 48 \<le> (of_char c :: nat) \<and> (of_char c :: nat) \<le> 57 \<or>
     97 \<le> (of_char c :: nat) \<and> (of_char c :: nat) \<le> 102 \<or> 65 \<le> (of_char c :: nat) \<and> (of_char c :: nat) \<le> 70"
  by (auto simp: digit_of_def char_val_def Let_def split: if_splits)

lemma no_gap_without: "CHR ''_'' \<notin> set s \<Longrightarrow> s \<noteq> [] \<Longrightarrow> no_gap s"
  by (simp add: no_gap_def split_on_no_sep)

lemma underscores_start:
  "digits_only b s \<Longrightarrow> b \<le> 10 \<Longrightarrow> s \<noteq> [] \<Longrightarrow> underscores False SawStart s = no_gap s"
  by (rule underscores_no_gap(3)) (use digit_of_range(1) in auto)

lemma underscores_prefix:
  assumes "digits_only b s" and "s \<noteq> []" and "b \<le> 10 \<or> b = 16 \<and> hex"
  shows "underscores hex SawDigit s = no_gap (CHR ''0'' # s)"
proof -
  have "underscores hex SawDigit s \<longleftrightarrow> s = [] \<or> (if hd s = CHR ''_'' then no_gap (tl s) else no_gap s)"
    by (rule underscores_no_gap(2) [OF _ assms(1)]) (use assms(3) digit_of_range in blast)
  then show ?thesis by (simp add: no_gap_Cons)
qed

section \<open>The parser reads the grammar\<close>

lemma digit_zero [simp]: "digit_of b CHR ''0'' \<longleftrightarrow> 0 < b"
  by (simp add: digit_of_def char_val_def)

lemma value_zero: "digits_value b (CHR ''0'' # s) = digits_value b s"
  by (simp add: digits_value_def char_val_def)

lemma digits_in_value: "digits_in b 0 s = (if digits_only b s then Some (digits_value b s) else None)"
  by (simp add: digits_in_iff digits_value_def)

lemma plain_parse:
  assumes "s \<noteq> []" and "base_prefix s = (b, body)" and "digits_only b body \<longleftrightarrow> digits_only b s"
    and "digits_value b body = digits_value b s" and "b \<le> 10" and "underscoreOK s = underscores False SawStart s"
  shows "ParseUint0 s = (if grouped b s then Some (digits_value b s) else None)"
  using assms underscores_start [of b s] no_gap_without [of s]
  by (auto simp: ParseUint0_def digits_in_value grouped_iff)

lemma prefixed_parse:
  assumes "base_prefix (CHR ''0'' # p # s) = (b, s)" and "s \<noteq> []" and "p \<noteq> CHR ''_''"
    and "b \<le> 10 \<or> b = 16 \<and> hex" and "underscoreOK (CHR ''0'' # p # s) = underscores hex SawDigit s"
    and "0 < b"
  shows "ParseUint0 (CHR ''0'' # p # s) = (if grouped b (CHR ''0'' # s) then Some (digits_value b s) else None)"
  using assms underscores_prefix [of b s hex] no_gap_without [of "CHR ''0'' # s"]
  by (auto simp: ParseUint0_def digits_in_value grouped_iff digits_only_def)

lemma ParseUint0_cases:
  obtains "s = []"
  | c t where "s = c # t" "c \<noteq> CHR ''0''"
  | p t and b :: nat where "s = CHR ''0'' # p # t" "t \<noteq> []"
      "(p, b) \<in> set [(CHR ''b'', 2), (CHR ''B'', 2), (CHR ''o'', 8), (CHR ''O'', 8), (CHR ''x'', 16), (CHR ''X'', 16)]"
  | t where "s = CHR ''0'' # t" "length t \<le> 1 \<or> hd t \<notin> set ''bBoOxX''"
proof (cases s)
  case (Cons c t)
  then show thesis using that by (cases t; cases "tl t") auto
qed (rule that(1))

lemma ParseUint0_decimal:
  "c \<noteq> CHR ''0'' \<Longrightarrow> ParseUint0 (c # t) = (if grouped 10 (c # t) then Some (digits_value 10 (c # t)) else None)"
  by (rule plain_parse [where body = "c # t"]) (auto simp: base_prefix_def underscoreOK_def split: list.splits)

lemma ParseUint0_octal:
  assumes "length t \<le> 1 \<or> hd t \<notin> set ''bBoOxX''"
  shows "ParseUint0 (CHR ''0'' # t) = (if grouped 8 (CHR ''0'' # t) then Some (digits_value 8 (CHR ''0'' # t)) else None)"
proof (cases "\<exists>c. t = [c] \<and> c \<in> set ''bBoOxX''")
  case True
  then obtain c where c: "t = [c]" "c \<in> set ''bBoOxX''" by blast
  then have "\<not> digits_only 8 t" and "base_prefix (CHR ''0'' # t) = (8, t)"
    by (auto simp: digits_only_def digit_of_def char_val_def base_prefix_def)
  then show ?thesis
    by (simp add: ParseUint0_def digits_in_value grouped_iff digits_only_def)
next
  case False
  then have letters: "t = [] \<or> hd t \<notin> set ''bBoOxX''"
    using assms by (cases t; cases "tl t") simp_all
  have "base_prefix (CHR ''0'' # t) = (8, t)"
    using letters by (cases t) (simp_all add: base_prefix_def)
  moreover have "underscoreOK (CHR ''0'' # t) = underscores False SawStart (CHR ''0'' # t)"
    using letters by (cases t) (simp_all add: underscoreOK_def del: underscores.simps)
  ultimately show ?thesis
    by (intro plain_parse [where body = t]) (simp_all add: value_zero digits_only_def)
qed

lemma ParseUint0_prefixed:
  assumes "(p, b) \<in> set [(CHR ''b'', 2), (CHR ''B'', 2), (CHR ''o'', 8), (CHR ''O'', 8), (CHR ''x'', 16), (CHR ''X'', 16)]"
    and "t \<noteq> []"
  shows "ParseUint0 (CHR ''0'' # p # t) = (if grouped b (CHR ''0'' # t) then Some (digits_value b t) else None)"
  using assms
  by (intro prefixed_parse [where hex = "p \<in> set ''xX''"])
    (auto simp: base_prefix_def underscoreOK_def simp del: underscores.simps)

inductive_cases go_naturalE: "go_natural s n"

lemma ParseUint0_iff: "ParseUint0 s = Some n \<longleftrightarrow> go_natural s n"
proof (cases s rule: ParseUint0_cases)
  case 1
  then show ?thesis by (auto simp: ParseUint0_def elim: go_naturalE)
next
  case (2 c t)
  then show ?thesis
    by (auto simp: ParseUint0_decimal intro: go_natural.decimal elim: go_naturalE split: if_splits)
next
  case (3 p t b)
  have "\<not> grouped 8 (CHR ''0'' # p # t)"
    using 3(3) by (auto simp: grouped_iff digits_only_def digit_of_def char_val_def)
  then show ?thesis
    using 3 ParseUint0_prefixed [OF 3(3,2)] go_natural.prefixed [OF 3(3,2)]
    by (auto elim!: go_naturalE split: if_splits)
next
  case (4 t)
  show ?thesis
    using 4 ParseUint0_octal [OF 4(2)] go_natural.octal [of t]
    by (auto elim!: go_naturalE split: if_splits)
qed

lemma go_natural_unsigned: "go_natural s n \<Longrightarrow> \<not> has_prefix s ''-'' \<and> \<not> has_prefix s ''+''"
  by (auto elim!: go_naturalE simp: has_prefix_def grouped_iff digits_only_def digit_of_def char_val_def)

theorem ParseInt0_iff: "ParseInt0 s = Some i \<longleftrightarrow> go_integer s i"
proof -
  consider (neg) t where "s = CHR ''-'' # t" | (pos) t where "s = CHR ''+'' # t"
    | (plain) "\<not> has_prefix s ''-''" "\<not> has_prefix s ''+''"
    by (cases s) (auto simp: has_prefix_def)
  then show ?thesis
  proof cases
    case neg
    then have "\<not> go_natural s n" for n using go_natural_unsigned [of s n] by (auto simp: has_prefix_def)
    then show ?thesis using neg
      by (auto simp: ParseInt0_def go_integer_def has_prefix_def ParseUint0_iff Let_def
          simp flip: ParseUint0_iff split: option.splits)
  next
    case pos
    then have "\<not> go_natural s n" for n using go_natural_unsigned [of s n] by (auto simp: has_prefix_def)
    then show ?thesis using pos
      by (auto simp: ParseInt0_def go_integer_def has_prefix_def Let_def
          simp flip: ParseUint0_iff split: option.splits)
  next
    case plain
    then have "s \<noteq> CHR ''-'' # t" "s \<noteq> CHR ''+'' # t" for t by (auto simp: has_prefix_def)
    then show ?thesis using plain
      by (auto simp: ParseInt0_def go_integer_def Let_def simp flip: ParseUint0_iff split: option.splits)
  qed
qed

end
