(* ===== verification/DispatchSafety.thy ===== *)
theory DispatchSafety
  imports Dispatch OverviewSafety ImportSafety SelfUpdateSafety IntLiterals
begin

text \<open>
  What holds for every command line: no run leaves a lock behind or takes one away, a run that fails
  on its flags or its usage has done nothing, an alias is its command, and the exit code is 0 or 1.
\<close>

section \<open>Computations that give locks back\<close>

definition balanced :: "'a tx9 \<Rightarrow> bool" where
  "balanced m \<longleftrightarrow> (\<forall>w. lock_inv (locks w) \<longrightarrow>
     lock_inv (locks (snd (m w))) \<and> holder (locks (snd (m w))) = holder (locks w))"

named_theorems balanced_rules \<open>computations that give back the locks they take\<close>

lemma balanced_keeps: "keeps_locks m \<Longrightarrow> balanced m"
  by (simp add: balanced_def keeps_def)

lemma balanced_pure [balanced_rules]: "balanced (ret x)" "balanced (fail e)" "balanced (lift_result r)"
  by (simp_all add: balanced_def ret_def fail_def lift_result_def)

lemma balanced_bind [balanced_rules]:
  "balanced m \<Longrightarrow> (\<And>x. balanced (f x)) \<Longrightarrow> balanced (bind_comp m f)"
  unfolding balanced_def bind_comp_def by (auto split: prod.splits sum.splits)

lemma balanced_split [balanced_rules]:
  "(b \<Longrightarrow> balanced m) \<Longrightarrow> (\<not> b \<Longrightarrow> balanced m') \<Longrightarrow> balanced (if b then m else m')"
  "(\<And>e. r = Inl e \<Longrightarrow> balanced (fl e)) \<Longrightarrow> (\<And>x. r = Inr x \<Longrightarrow> balanced (fr x)) \<Longrightarrow>
     balanced (case r of Inl e \<Rightarrow> fl e | Inr x \<Rightarrow> fr x)"
  "balanced n \<Longrightarrow> (\<And>x. v = Some x \<Longrightarrow> balanced (fs x)) \<Longrightarrow>
     balanced (case v of None \<Rightarrow> n | Some x \<Rightarrow> fs x)"
  "(\<And>x y. p = (x, y) \<Longrightarrow> balanced (fp x y)) \<Longrightarrow> balanced (case p of (x, y) \<Rightarrow> fp x y)"
  by (auto split: sum.splits option.splits prod.splits)

lemma acquire_release:
  assumes inv: "lock_inv (locks w)" and acq: "AcquireLock E path w = (Inr h, w1)"
    and kept: "lock_inv l" "holder l = holder (locks w1)"
  shows "lock_inv (release h l) \<and> holder (release h l) = holder (locks w)"
proof -
  have w1: "holder (locks w1) = (holder (locks w))(path \<mapsto> h)" "holder (locks w) path = None"
    using acq by (auto simp: AcquireLock_def Acquire_def Let_def split: prod.splits if_splits)
  then have "handle l h = Some path" using kept unfolding lock_inv_def by (metis fun_upd_same)
  then show ?thesis
    using w1 kept(2) lock_inv_release [OF kept(1), of h] by (simp add: release_def fun_upd_idem)
qed

lemma balanced_acquired:
  assumes "\<And>h. keeps_locks (m h)"
  shows "balanced (\<lambda>w. case AcquireLock E path w of (Inl e, w') \<Rightarrow> (f e, w')
     | (Inr h, w') \<Rightarrow> with_defer (m h) (ReleaseLock h) w')"
  unfolding balanced_def
proof (intro allI impI)
  fix w :: world assume inv: "lock_inv (locks w)"
  obtain q w1 where acq: "AcquireLock E path w = (q, w1)" by fastforce
  have inv1: "lock_inv (locks w1)" using inv acq lock_inv_Acquire
    by (auto simp: AcquireLock_def split: prod.splits)
  let ?w' = "snd (case AcquireLock E path w of (Inl e, w') \<Rightarrow> (f e, w')
     | (Inr h, w') \<Rightarrow> with_defer (m h) (ReleaseLock h) w')"
  show "lock_inv (locks ?w') \<and> holder (locks ?w') = holder (locks w)"
  proof (cases q)
    case (Inl e)
    then have "holder (locks w1) = holder (locks w)"
      using acq by (auto simp: AcquireLock_def Acquire_def Let_def split: prod.splits if_splits)
    then show ?thesis using acq Inl inv1 by simp
  next
    case (Inr h)
    obtain r w2 where m: "m h w1 = (r, w2)" by fastforce
    have "locks w2 = locks w1" by (rule keepsD [OF assms m])
    then have "lock_inv (release h (locks w2)) \<and> holder (release h (locks w2)) = holder (locks w)"
      using acquire_release [OF inv acq [unfolded Inr]] inv1 by simp
    then show ?thesis using acq Inr m by (simp add: with_defer_def ReleaseLock_def)
  qed
qed

lemma balanced_with_lock [balanced_rules]:
  assumes "keeps_locks m"
  shows "balanced (with_lock E path m)"
proof -
  have "with_lock E path m = (\<lambda>w. case AcquireLock E path w of (Inl e, w') \<Rightarrow> (Inl e, w')
     | (Inr h, w') \<Rightarrow> with_defer m (ReleaseLock h) w')"
    by (rule ext) (auto simp: with_lock_def bind_comp_def split: prod.splits sum.splits)
  then show ?thesis using balanced_acquired [where m = "\<lambda>_. m" and f = Inl] assms by simp
qed

lemma keeps_locks_withDocker [call_rules]: "keeps_locks m \<Longrightarrow> keeps_locks (withDocker E m)"
  unfolding withDocker_def by (intro call_rules)

lemma balanced_withBoxLock [balanced_rules]:
  "keeps_locks m \<Longrightarrow> balanced (withBoxLock E name m)"
  unfolding withBoxLock_def by (intro balanced_rules call_rules)

section \<open>The commands give locks back\<close>

lemma balanced_locked_commands:
  "balanced (cmdStart E name)" "balanced (cmdStop E name)" "balanced (cmdDelete E force typed name)"
  "balanced (cmdResourcesSet E rf ov name)" "balanced (cmdResourcesReset E name)"
  "balanced (cmdUpgrade E xf rf name)" "balanced (cmdMountRemove E name target)"
  "balanced (cmdGateway E action confirmed name)" "balanced (enter_target E name x)"
  unfolding cmdStart_def cmdStop_def cmdDelete_def cmdResourcesSet_def cmdResourcesReset_def cmdUpgrade_def
    cmdMountRemove_def Let_def cmdGateway_def enter_target_def
  by (intro balanced_rules call_rules)+

lemma balanced_reading:
  "(\<And>x. balanced (f x)) \<Longrightarrow> balanced (\<lambda>w. bind_comp (lift_result (q w)) f w)"
  by (auto simp: balanced_def bind_comp_def lift_result_def split: sum.splits)

lemma balanced_MountAdd: "balanced (cmdMountAdd E name source target ro rm)"
  unfolding cmdMountAdd_def by (intro balanced_reading balanced_rules call_rules)

lemma keeps_locks_fresh_name [call_rules]: "keeps_locks (fresh_name_loop E taken n)"
proof (induction n arbitrary: taken)
  case (Suc n)
  have "keeps_locks (bind_comp (attempt (PreflightFreshObjects E name)) (\<lambda>r. case r of Inr _ \<Rightarrow> ret name
      | Inl (ObjectsExist k o') \<Rightarrow> fresh_name_loop E (name # taken) n | Inl e \<Rightarrow> fail e))" for name
    by (rule keeps_bind, intro call_rules, rule keeps_split(2)) (simp_all add: keeps_pure Suc split: tx9_error.split)
  then show ?case
    unfolding keeps_def fresh_name_loop.simps by (auto split: sum.split)
qed (simp add: keeps_pure)

lemma balanced_Create: "balanced (cmdCreate E xf rf requested)"
  unfolding cmdCreate_def generateFreshBoxName_def List_def
  by (intro balanced_bind balanced_pure balanced_split balanced_with_lock balanced_keeps call_rules)

lemma balanced_archives:
  "balanced (cmdBackup E L path password noEncrypt name)"
  "balanced (cmdImport E L xf rf name' password archivePath)"
proof -
  have check: "keeps_locks (local_check L f)" for f :: "(file_op \<Rightarrow> bool) \<Rightarrow> files \<Rightarrow> local_error + Metadata"
    by (intro call_rules)
  show "balanced (cmdBackup E L path password noEncrypt name)"
    unfolding cmdBackup_def by (intro balanced_rules call_rules)
  show "balanced (cmdImport E L xf rf name' password archivePath)"
    unfolding cmdImport_def Let_def
    by (intro balanced_bind balanced_pure balanced_split balanced_withBoxLock balanced_keeps check call_rules)
qed

lemma balanced_logs:
  "balanced (cmdLogs E opts name)" "balanced (cmdLogsExport E L Abs opts output name)"
proof -
  have logs: "balanced (logs_of E name action opts)" for action
    unfolding logs_of_def runLogsHelper_def logsHelperEnvironment_def boxImageRef_def
    by (intro balanced_rules call_rules)
  show "balanced (cmdLogs E opts name)"
    unfolding cmdLogs_def by (intro balanced_rules logs)
  have "balanced (write_export E L opts name d)" for d
  proof -
    have "keeps_locks (bind_comp (lift_result (helper_output r)) (\<lambda>_. local_check L (finish_export d)))" for r
      by (intro call_rules)
    then have "balanced (\<lambda>w. bind_comp (lift_result (helper_output r)) (\<lambda>_. local_check L (finish_export d))
        (put_output d (snd r) w))" for r
      by (simp add: balanced_def keeps_def put_output_def)
    then show ?thesis unfolding write_export_def by (intro balanced_bind logs)
  qed
  moreover have "balanced (remove_unless_ok L d m)" if "balanced m" for d and m :: "unit tx9"
    using that by (auto simp: balanced_def remove_unless_ok_def remove_one_def split: prod.splits sum.splits)
  ultimately show "balanced (cmdLogsExport E L Abs opts output name)"
    unfolding cmdLogsExport_def
    by (intro balanced_bind balanced_pure balanced_split balanced_keeps [OF keeps_locks_local(1)]) auto
qed

lemma keeps_locks_List [call_rules]: "keeps_locks (List E)"
  unfolding List_def by (intro call_rules)

lemma balanced_Prune: "balanced (cmdPrune E)"
proof -
  have present: "keeps_locks (present m)" if "keeps_locks m" for m :: "'a tx9"
    unfolding present_def by (intro call_rules that)
  have body: "keeps_locks (bind_comp (boxStateInUse E name) (\<lambda>live. if live then ret False else remove_state E name))" for name
  proof -
    have "keeps_locks (remove_state E name)"
      by (auto simp: keeps_def remove_state_def logged_def split: sum.split)
    then show ?thesis unfolding boxStateInUse_def by (intro call_rules present)
  qed
  have one: "balanced (pruneStateFile E name)" for name
  proof -
    have "balanced (\<lambda>w. case AcquireLock E path w of
         (Inl e, w') \<Rightarrow> ((case e of LockErr (Busy n) \<Rightarrow> Inr False | _ \<Rightarrow> Inl e), w')
       | (Inr h, w') \<Rightarrow> with_defer (bind_comp (boxStateInUse E name)
           (\<lambda>live. if live then ret False else remove_state E name)) (ReleaseLock h) w')" for path
      by (rule balanced_acquired) (rule body)
    moreover have "(\<lambda>w. case AcquireLock E path w of
         (Inl (LockErr (Busy n)), w') \<Rightarrow> (Inr False, w') | (Inl e, w') \<Rightarrow> (Inl e, w')
       | (Inr h, w') \<Rightarrow> with_defer (bind_comp (boxStateInUse E name)
           (\<lambda>live. if live then ret False else remove_state E name)) (ReleaseLock h) w') =
       (\<lambda>w. case AcquireLock E path w of
         (Inl e, w') \<Rightarrow> ((case e of LockErr (Busy n) \<Rightarrow> Inr False | _ \<Rightarrow> Inl e), w')
       | (Inr h, w') \<Rightarrow> with_defer (bind_comp (boxStateInUse E name)
           (\<lambda>live. if live then ret False else remove_state E name)) (ReleaseLock h) w')" for path
      by (rule ext) (auto split: prod.split sum.split tx9_error.split lock_error.split)
    ultimately show ?thesis unfolding pruneStateFile_def prune_with_def by (intro balanced_bind balanced_pure) simp
  qed
  have entries: "balanced (prune_entries E known es removed)" for known es removed
    by (induction es arbitrary: removed) (auto simp: Let_def intro!: balanced_rules one)
  have files: "balanced (pruneStateFiles E)"
  proof -
    have "balanced (\<lambda>w. case read_dir E (events w) of None \<Rightarrow> (Inl ReadDirErr, logged ReadDir False w)
       | Some entries \<Rightarrow> prune_entries E known entries [] (logged ReadDir True w))" for known
      using entries by (auto simp: balanced_def logged_def split: option.split)
    then show ?thesis
      unfolding pruneStateFiles_def by (intro balanced_bind balanced_pure balanced_keeps [OF keeps_locks_List])
  qed
  have tags: "keeps_locks (remove_tags E ts)" for ts
    by (induction ts) (auto intro!: call_rules)
  have images: "keeps_locks (pruneImages E)"
    unfolding pruneImages_def Let_def by (intro call_rules tags)
  show ?thesis
    unfolding cmdPrune_def withDocker_def
    by (intro balanced_bind balanced_pure files balanced_keeps [OF images]) (intro balanced_keeps call_rules)
qed

lemma keeps_locks_reports:
  "keeps_locks (cmdList E F)" "keeps_locks (cmdOpen E F name)" "keeps_locks (cmdDoctor E F name)"
  "keeps_locks (cmdMountList E name)" "keeps_locks (cmdResourcesShow E ff fb name)"
  "keeps_locks (showOverview E F ff fb)"
proof -
  have hb [call_rules]: "keeps_locks (HostBinding E b)" for b
    unfolding HostBinding_def by (intro call_rules)
  have get [call_rules]: "keeps_locks (http_request F url)" for url
    by (auto simp: keeps_def http_request_def logged_def split: option.splits)
  have usage [call_rules]: "keeps_locks (VolumeUsage E ns)" for ns
    unfolding VolumeUsage_def by (intro call_rules)
  have urls [call_rules]: "keeps_locks (list_urls E F bs)" for bs
    by (induction bs) (auto simp: dashboard_of_def intro!: call_rules)
  have once [call_rules]: "keeps_locks (probe_once F url)" for url
    unfolding probe_once_def by (intro call_rules)
  have loop [call_rules]: "keeps_locks (probe_loop E F url k)" for url k
    by (induction k) (auto intro!: call_rules)
  have pop [call_rules]: "keeps_locks (populateOverviewContainer E i c)" for i c
    unfolding populateOverviewContainer_def by (intro call_rules)
  have boxes [call_rules]: "keeps_locks (overview_boxes E F bs)" for bs
    by (induction bs) (auto simp: collectOverviewBox_def intro!: call_rules)
  show "keeps_locks (cmdList E F)" unfolding cmdList_def by (intro call_rules)
  show "keeps_locks (cmdOpen E F name)" unfolding cmdOpen_def Let_def by (intro call_rules)
  show "keeps_locks (cmdDoctor E F name)"
    unfolding cmdDoctor_def Let_def host_probe_def probeHostPort_def public_probe_def probeExecutorPublicURL_def
    by (intro call_rules)
  show "keeps_locks (cmdMountList E name)" unfolding cmdMountList_def by (intro call_rules)
  show "keeps_locks (cmdResourcesShow E ff fb name)" unfolding cmdResourcesShow_def by (intro call_rules)
  show "keeps_locks (showOverview E F ff fb)"
    unfolding showOverview_def collectOverview_def Let_def by (intro call_rules)
qed

section \<open>A concrete program\<close>

definition demo_terminal :: terminal where
  "demo_terminal = \<lparr>typed_line = None, abs_path = Some, parse_float = \<lambda>s. None, ram_bytes_of = \<lambda>s. None,
     float_text = \<lambda>n. ''1'', size_text = \<lambda>n. ''1'', docker_path = Some ''/d'', exec_works = True, environ_list = []\<rparr>"

definition demo_program :: program where
  "demo_program = \<lparr>p_system = demo box_daemon, p_tools = demo_tools, p_front = demo_front,
     p_machine = demo_machine, p_terminal = demo_terminal\<rparr>"

definition demo_state :: cli_state where
  "demo_state = \<lparr>cli_world = token_world, cli_binaries = Map.empty\<rparr>"

section \<open>Every run gives its locks back\<close>

definition cli_balanced :: "'a cli \<Rightarrow> bool" where
  "cli_balanced m \<longleftrightarrow> (\<forall>s. lock_inv (locks (cli_world s)) \<longrightarrow>
     lock_inv (locks (cli_world (snd (m s)))) \<and>
     holder (locks (cli_world (snd (m s)))) = holder (locks (cli_world s)))"

text \<open>
  The two facts that are shown of every command: it gives its locks back, and when it fails on its
  flags nothing has happened yet.
\<close>

definition flag_clean :: "'a cli \<Rightarrow> bool" where
  "flag_clean m \<longleftrightarrow> (\<forall>s s' e. m s = (Inl (FlagErr e), s') \<longrightarrow> s' = s)"

definition well_behaved :: "'a cli \<Rightarrow> bool" where
  "well_behaved m \<longleftrightarrow> cli_balanced m \<and> flag_clean m"

named_theorems cli_rules \<open>commands that are well behaved\<close>

lemma well_behaved_pure [cli_rules]: "well_behaved (fail e)" "well_behaved (usage cmd)"
  by (auto simp: well_behaved_def cli_balanced_def flag_clean_def usage_def fail_def)

lemma in_world_cases:
  assumes "in_world m s = (r, s')"
  shows "cli_world s' = snd (m (cli_world s)) \<and> r \<noteq> Inl (FlagErr e)"
  using assms by (auto simp: in_world_def map_error_def split: prod.splits sum.splits)

lemma well_behaved_in_world [cli_rules]: "balanced m \<Longrightarrow> well_behaved (in_world m)"
  unfolding well_behaved_def cli_balanced_def flag_clean_def balanced_def
  using in_world_cases by (metis surjective_pairing)

lemma well_behaved_then [cli_rules]:
  assumes "balanced m" and quiet: "\<And>x s. \<exists>r. f x s = (r, s) \<and> (\<forall>e. r \<noteq> Inl (FlagErr e))"
  shows "well_behaved (bind_comp (in_world m) f)"
  unfolding well_behaved_def
proof
  have same: "snd (bind_comp (in_world m) f s) = snd (in_world m s)" for s
  proof (cases "in_world m s")
    case (Pair r s1)
    show ?thesis
    proof (cases r)
      case (Inr x)
      obtain q where "f x s1 = (q, s1)" using quiet by blast
      then show ?thesis using Pair Inr by (simp add: bind_comp_def)
    qed (simp add: bind_comp_def Pair)
  qed
  then show "cli_balanced (bind_comp (in_world m) f)"
    using well_behaved_in_world [OF assms(1)] by (simp add: well_behaved_def cli_balanced_def)
  show "flag_clean (bind_comp (in_world m) f)"
    unfolding flag_clean_def
  proof (intro allI impI)
    fix s s' e assume run: "bind_comp (in_world m) f s = (Inl (FlagErr e), s')"
    obtain r s1 where r: "in_world m s = (r, s1)" by fastforce
    show "s' = s"
      using run r in_world_cases [OF r, of e] quiet by (cases r) (auto simp: bind_comp_def, metis prod.inject)
  qed
qed

lemma well_behaved_run_as [cli_rules]: "balanced m \<Longrightarrow> well_behaved (run_as f m)"
  unfolding run_as_def by (intro cli_rules) (auto simp: ret_def)

lemma well_behaved_with_flags [cli_rules]:
  "(\<And>ss ps. well_behaved (k ss ps)) \<Longrightarrow> well_behaved (with_flags F args k)"
  by (auto simp: with_flags_def well_behaved_pure split: sum.split)

lemma well_behaved_name [cli_rules]:
  "(\<And>name. well_behaved (k name)) \<Longrightarrow> well_behaved (requireBoxName cmd ps k)"
  by (auto simp: requireBoxName_def well_behaved_pure split: list.split)

lemma well_behaved_split [cli_rules]:
  "(b \<Longrightarrow> well_behaved m) \<Longrightarrow> (\<not> b \<Longrightarrow> well_behaved m') \<Longrightarrow> well_behaved (if b then m else m')"
  "well_behaved n \<Longrightarrow> (\<And>x xs. well_behaved (c x xs)) \<Longrightarrow> well_behaved (case ps of [] \<Rightarrow> n | x # xs \<Rightarrow> c x xs)"
  "(\<And>x y. well_behaved (fp x y)) \<Longrightarrow> well_behaved (case p of (x, y) \<Rightarrow> fp x y)"
  by (auto split: list.split prod.split)

lemma well_behaved_self_upgrade [cli_rules]: "well_behaved (self_upgrade P force)"
  by (auto simp: well_behaved_def cli_balanced_def flag_clean_def self_upgrade_def split: prod.splits sum.splits)

lemma well_behaved_command: "well_behaved (run_command P c args)"
proof -
  note defs = cliCreate_def cliList_def cliEnter_def cliStart_def cliStop_def cliLogs_def cliLogsExport_def
    cliResources_def cliResourcesShow_def cliResourcesSet_def cliResourcesReset_def cliBackup_def cliImport_def
    cliMount_def cliMountAdd_def cliMountList_def cliMountRemove_def cliGateway_def cliOpen_def cliDoctor_def
    cliUpgrade_def cliDelete_def cliPrune_def
  note bal = balanced_locked_commands balanced_MountAdd balanced_Create balanced_archives balanced_logs balanced_Prune
    balanced_keeps [OF keeps_locks_reports(1)] balanced_keeps [OF keeps_locks_reports(2)]
    balanced_keeps [OF keeps_locks_reports(3)] balanced_keeps [OF keeps_locks_reports(4)]
    balanced_keeps [OF keeps_locks_reports(5)]
  show ?thesis
    by (cases c; simp only: run_command.simps; unfold defs Let_def; intro cli_rules bal)
      (auto simp: ret_def fail_def split: option.split prod.split)
qed

section \<open>The whole program\<close>

lemma well_behaved_overview: "cli_balanced (in_world (showOverview E F ff fb))"
  using well_behaved_in_world [OF balanced_keeps [OF keeps_locks_reports(6)]] by (simp add: well_behaved_def)

text \<open>A run is an overview, an answer that needs no command, or a command.\<close>

lemma Run_cases:
  obtains (overview) q s' where "in_world (showOverview (p_system P) (p_front P)
        (float_text (p_terminal P)) (size_text (p_terminal P))) s = (q, s')" "snd (Run P args s) = s'"
      "fst (fst (Run P args s)) = 0"
      "(\<exists>ls ws. snd (fst (Run P args s)) = OverviewShown ls ws) \<or> (\<exists>e ls. snd (fst (Run P args s)) = OverviewUnavailable e ls)"
  | (answer) "snd (Run P args s) = s"
      "fst (fst (Run P args s)) = (case snd (fst (Run P args s)) of UnknownCommand _ _ \<Rightarrow> 1 | _ \<Rightarrow> 0)"
      "\<forall>e. snd (fst (Run P args s)) \<noteq> CommandFailed e"
  | (command) c rest q s' where "run_command P c rest s = (q, s')" "snd (Run P args s) = s'"
      "fst (Run P args s) = (case q of
          Inl e \<Rightarrow> if e = FlagErr ErrHelp then (0, HelpOfCommand) else (1, CommandFailed e)
        | Inr x \<Rightarrow> (0, CommandDone x))"
proof -
  consider "length args < 2" | t sub rest where "args = t # sub # rest"
    by (cases args; cases "tl args") auto
  then show thesis
  proof cases
    case 1
    then show thesis
      using overview
      by (cases args; cases "tl args"; cases "in_world (showOverview (p_system P) (p_front P)
        (float_text (p_terminal P)) (size_text (p_terminal P))) s")
        (auto simp: Run_def runWithOverview_def split: sum.splits prod.splits)
  next
    case (2 t sub rest)
    define sub' where "sub' = (case map_of aliases_table sub of Some canonical \<Rightarrow> canonical | None \<Rightarrow> sub)"
    show thesis
    proof (cases "sub \<in> {''-h'', ''-help'', ''--help'', ''help''} \<or> sub \<in> {''-v'', ''-version'', ''--version'', ''version''} \<or>
        map_of commands_table sub' = None")
      case True
      then show thesis using answer 2 by (auto simp: Run_def runWithOverview_def sub'_def)
    next
      case False
      then obtain c where c: "map_of commands_table sub' = Some c" by auto
      obtain q s' where run: "run_command P c rest s = (q, s')" by fastforce
      show thesis
        by (rule command [OF run])
          (use False c run in \<open>auto simp: Run_def runWithOverview_def 2 sub'_def split: sum.split\<close>)
    qed
  qed
qed

text \<open>C14: from a consistent lock table, every run of the program, with any arguments and any failing
  call, ends with a consistent table in which the same locks are held as before: no command leaves a lock
  behind or takes one from somebody else.\<close>

theorem every_run_frees_its_locks:
  assumes "lock_inv (locks (cli_world s))"
  shows "lock_inv (locks (cli_world (snd (Run P args s)))) \<and>
    holder (locks (cli_world (snd (Run P args s)))) = holder (locks (cli_world s))"
proof (cases rule: Run_cases [of P s args])
  case (overview q s')
  then show ?thesis using well_behaved_overview assms unfolding cli_balanced_def by (metis snd_conv)
next
  case (command c rest q s')
  then show ?thesis using well_behaved_command assms unfolding well_behaved_def cli_balanced_def by (metis snd_conv)
qed (use assms in simp)

lemma every_run_frees_its_locks_witness:
  "holder (locks (cli_world (snd (Run demo_program [''tx9'', ''start'', ''a''] demo_state)))) = Map.empty"
proof -
  have "lock_inv (locks (cli_world demo_state))" "holder (locks (cli_world demo_state)) = Map.empty"
    using lock_inv_initial by (simp_all add: demo_state_def token_world_def) (simp add: initial_locks_def)
  then show ?thesis using every_run_frees_its_locks [of demo_state demo_program "[''tx9'', ''start'', ''a'']"] by simp
qed

text \<open>Runs that only answered: help, version, an unknown word, wrong flags.\<close>

definition only_answered :: "printed \<Rightarrow> bool" where
  "only_answered p \<longleftrightarrow>
     (case p of
        UsageShown _ \<Rightarrow> True
      | VersionShown _ \<Rightarrow> True
      | UnknownCommand _ _ \<Rightarrow> True
      | HelpOfCommand \<Rightarrow> True
      | CommandFailed (FlagErr _) \<Rightarrow> True
      | _ \<Rightarrow> False)"

text \<open>C15: a run that only answers (usage, version, an unknown word, help or an error of a flag) leaves
  the whole state as it was: no request was made, no file written, no lock taken.\<close>

theorem answers_do_nothing:
  assumes "only_answered (snd (fst (Run P args s)))"
  shows "snd (Run P args s) = s"
proof (cases rule: Run_cases [of P s args])
  case (command c rest q s')
  then obtain e where "q = Inl (FlagErr e)"
    using assms by (auto simp: only_answered_def split: sum.splits if_splits cli_error.splits)
  then show ?thesis
    using command(1,2) well_behaved_command unfolding well_behaved_def flag_clean_def by metis
qed (use assms in \<open>auto simp: only_answered_def\<close>)

lemma answers_do_nothing_witness:
  "snd (Run demo_program [''tx9'', ''delete'', ''a'', ''--forse''] demo_state) = demo_state"
proof (rule answers_do_nothing)
  have "map_of aliases_table ''delete'' = None" "map_of commands_table ''delete'' = Some CmdDelete"
    by (simp_all add: aliases_table_def commands_table_def commandSpecs_def)
  moreover have "parseFlagsAnywhere [bool_flag ''force''] [''a'', ''--forse''] = Inl (Undefined ''forse'')"
    by code_simp
  ultimately show "only_answered (snd (fst (Run demo_program [''tx9'', ''delete'', ''a'', ''--forse''] demo_state)))"
    by (simp add: Run_def runWithOverview_def cliDelete_def with_flags_def fail_def only_answered_def)
qed

lemma exit_codes:
  "fst (fst (Run P args s)) =
     (case snd (fst (Run P args s)) of UnknownCommand _ _ \<Rightarrow> 1 | CommandFailed _ \<Rightarrow> 1 | _ \<Rightarrow> 0)"
proof (cases rule: Run_cases [of P s args])
  case answer
  then show ?thesis by (auto split: printed.splits)
next
  case (command c rest q s')
  then show ?thesis by (auto split: sum.splits)
qed auto

section \<open>Words\<close>

lemma aliases_are:
  "aliases_table = [(''new'', ''create''), (''ls'', ''list''), (''ssh'', ''enter''), (''shell'', ''enter''),
     (''export'', ''backup''), (''save'', ''backup''), (''load'', ''import''), (''restore'', ''import''),
     (''update'', ''upgrade''), (''rm'', ''delete''), (''remove'', ''delete'')]"
  by (simp add: aliases_table_def commandSpecs_def)

definition no_help_word :: "string \<Rightarrow> bool" where
  "no_help_word w \<longleftrightarrow> w \<notin> {''-h'', ''-help'', ''--help'', ''help''} \<and>
     w \<notin> {''-v'', ''-version'', ''--version'', ''version''}"

lemma alias_words:
  assumes "map_of aliases_table a = Some c"
  shows "no_help_word a" "no_help_word c" "map_of aliases_table c = None"
proof -
  have "list_all (\<lambda>(a, c). no_help_word a \<and> no_help_word c \<and> map_of aliases_table c = None) aliases_table"
    by (simp add: aliases_are no_help_word_def)
  moreover have "(a, c) \<in> set aliases_table" using assms by (rule map_of_SomeD)
  ultimately show "no_help_word a" "no_help_word c" "map_of aliases_table c = None"
    by (auto simp: list_all_iff)
qed

lemma runWithOverview_word:
  "no_help_word sub \<Longrightarrow> runWithOverview P overview (t # sub # rest) s =
     (let sub' = (case map_of aliases_table sub of Some canonical \<Rightarrow> canonical | None \<Rightarrow> sub) in
      case map_of commands_table sub' of
        None \<Rightarrow> ((1, UnknownCommand sub' (printUsage (p_system P))), s)
      | Some c \<Rightarrow>
          (case run_command P c rest s of
             (Inl e, s') \<Rightarrow> if e = FlagErr ErrHelp then ((0, HelpOfCommand), s') else ((1, CommandFailed e), s')
           | (Inr x, s') \<Rightarrow> ((0, CommandDone x), s')))"
  unfolding runWithOverview_def no_help_word_def by (simp only: list.case if_False simp_thms)

lemma alias_is_command:
  assumes "map_of aliases_table a = Some c"
  shows "runWithOverview P overview (t # a # rest) s = runWithOverview P overview (t # c # rest) s"
  by (simp only: runWithOverview_word alias_words [OF assms] assms option.case)

lemma alias_is_command_witness:
  "runWithOverview demo_program (fail NoDockerBinary) [''tx9'', ''rm'', ''a''] demo_state =
   runWithOverview demo_program (fail NoDockerBinary) [''tx9'', ''delete'', ''a''] demo_state"
  by (rule alias_is_command) (simp add: aliases_are)

text \<open>The words of the command line that a box may nevertheless be called.\<close>

lemma only_mount_unreserved:
  "filter (\<lambda>n. Validate n = Inr ()) (map fst commands_table @ map fst aliases_table) = [''mount'']"
  by code_simp

section \<open>Values of flags\<close>

lemma tail_setting:
  assumes "parseFlagsAnywhere logs_flags args = Inr (ss, ps)" and "(''tail'', v) \<in> set ss"
  obtains i where "ParseInt0 v = Some i" and "go_integer v i"
proof -
  obtain a where "Parse logs_flags a = Inr (ss, ps)"
    using assms by (auto simp: parseFlagsAnywhere_def split: prod.splits if_splits)
  then obtain f where "Lookup logs_flags ''tail'' = Some f" "flag_accepts f v"
    using Parse_accepts assms(2) by blast
  then show thesis using that
    by (auto simp: Lookup_def logs_flags_def string_flag_def int_flag_def ParseInt0_iff)
qed

text \<open>C40: the number of lines of a log query is a 64-bit integer whatever the arguments are, and it is the
  value of the last setting of the tail flag, or 200 without one.  Every accepted setting of the flag is
  an integer literal of Go that fits 64 bits, and every such literal is accepted: a value out of range
  is refused and never wrapped, and so are a digit that its base does not have and an underscore that
  does not stand singly between digits.\<close>

theorem logs_tail_int64:
  assumes "parseFlagsAnywhere logs_flags args = Inr (ss, ps)"
  shows "in_int64 (lq_Tail (logs_options ss)) \<and>
    (case map_of (rev ss) ''tail'' of
       None \<Rightarrow> lq_Tail (logs_options ss) = 200
     | Some v \<Rightarrow> go_integer v (lq_Tail (logs_options ss))) \<and>
    (\<forall>v. (''tail'', v) \<in> set ss \<longrightarrow> (\<exists>i. go_integer v i)) \<and>
    (\<forall>v. flag_accepts (int_flag ''tail'') v \<longleftrightarrow> (\<exists>i. go_integer v i))"
proof (intro conjI allI impI)
  show "flag_accepts (int_flag ''tail'') v \<longleftrightarrow> (\<exists>i. go_integer v i)" for v
    by (simp add: int_flag_def flip: ParseInt0_iff)
  show "\<exists>i. go_integer v i" if "(''tail'', v) \<in> set ss" for v
    using tail_setting [OF assms that] by blast
  show *: "case map_of (rev ss) ''tail'' of None \<Rightarrow> lq_Tail (logs_options ss) = 200
    | Some v \<Rightarrow> go_integer v (lq_Tail (logs_options ss))"
  proof (cases "map_of (rev ss) ''tail''")
    case (Some v)
    then obtain i where "ParseInt0 v = Some i" "go_integer v i"
      using tail_setting [OF assms] map_of_SomeD [OF Some] by auto
    then show ?thesis using Some by (simp add: logs_options_def int_value_def)
  qed (simp add: logs_options_def int_value_def)
  show "in_int64 (lq_Tail (logs_options ss))"
    using * by (auto simp: go_integer_def in_int64_def min_int64_def max_int64_def split: option.splits)
qed

lemma logs_tail_int64_witness:
  "lq_Tail (logs_options [(''tail'', ''0x1_0'')]) = 16 \<and> go_integer ''0x1_0'' 16 \<and>
     \<not> flag_accepts (int_flag ''tail'') ''08'' \<and> \<not> (\<exists>i. go_integer ''1__0'' i)"
proof -
  have tail: "lq_Tail (logs_options [(''tail'', ''0x1_0'')]) = 16"
    and refused: "\<not> flag_accepts (int_flag ''tail'') ''08''" "\<not> flag_accepts (int_flag ''tail'') ''1__0''"
    by code_simp+
  have "parseFlagsAnywhere logs_flags [''a'', ''--tail'', ''0x1_0''] = Inr ([(''tail'', ''0x1_0'')], [''a''])"
    by code_simp
  from logs_tail_int64 [OF this] show ?thesis using tail refused by auto
qed

end
