(* ===== verification/Requests.thy ===== *)
theory Requests
  imports Box ContainerRuns
begin

text \<open>
  What the daemon is asked: the options each wrapper of \<open>internal/docker/client.go\<close> puts into its
  call of the Engine SDK.  \<open>World\<close> records a call by the arguments of the wrapper; \<open>request_of\<close>
  gives the request it becomes.
\<close>

section \<open>Creating a container\<close>

text \<open>
  The \<open>container.Config\<close>, \<open>container.HostConfig\<close> and \<open>network.NetworkingConfig\<close> of a creation,
  as far as the wrapper sets them.
\<close>

record container_request =
  q_Name :: string
  q_Image :: string
  q_Entrypoint :: "string list"
  q_Env :: "string list"
  q_Labels :: labels
  q_Hostname :: string
  q_ExposedPorts :: "string list"
  q_Binds :: "string list"
  q_GroupAdd :: "string list"
  q_PortBindings :: "(string \<times> (string \<times> string) list) list"
  q_DNS :: "string list"
  q_Sysctls :: "(string \<times> string) list"
  q_Init :: bool
  q_RestartPolicy :: string
  q_NanoCPUs :: int
  q_Memory :: int
  q_MemorySwap :: int
  q_Endpoints :: "(string \<times> string list) option"

definition create_request :: "ContainerSpec \<Rightarrow> int \<Rightarrow> container_request" where
  "create_request spec memorySwap =
     \<lparr>q_Name = spec_Name spec,
      q_Image = spec_Image spec,
      q_Entrypoint = spec_Entrypoint spec,
      q_Env = spec_Env spec,
      q_Labels = spec_Labels spec,
      q_Hostname = spec_Hostname spec,
      q_ExposedPorts = spec_ExposedPorts spec,
      q_Binds = spec_Binds spec,
      q_GroupAdd = spec_GroupAdd spec,
      q_PortBindings = spec_PortBindings spec,
      q_DNS = spec_DNS spec,
      q_Sysctls = spec_Sysctls spec,
      q_Init = True,
      q_RestartPolicy = ''unless-stopped'',
      q_NanoCPUs = spec_NanoCPUs spec,
      q_Memory = spec_MemoryBytes spec,
      q_MemorySwap = memorySwap,
      q_Endpoints =
        (if spec_NetworkID spec \<noteq> '''' then Some (spec_NetworkID spec, spec_NetworkAliases spec)
         else None)\<rparr>"

section \<open>All requests\<close>

definition DockerfilePath :: string where
  "DockerfilePath = ''docker/Dockerfile''"

text \<open>A filter is a pair of its kind and its value.\<close>

datatype request =
    Ping
  | ContainerInspectRequest string
  | ContainerListRequest bool "(string \<times> string) list"
  | ContainerStartRequest string
  | ContainerStopRequest string "int option"
  | ContainerRemoveRequest string bool bool
  | ContainerCreateRequest container_request
  | ContainerUpdateRequest string int int int
  | NetworkInspectRequest string
  | NetworkCreateRequest string string bool labels
  | NetworkRemoveRequest string
  | VolumeInspectRequest string
  | VolumeCreateRequest string labels
  | VolumeRemoveRequest string bool
  | ImageInspectRequest string
  | ImageBuildRequest "string list" string bool "tar_entry list"
  | ImageListRequest "(string \<times> string) list"
  | ImageRemoveRequest string
  | ExecRequest string "string list" string
  | EphemeralRequest eph_config
  | DiskUsageRequest "string list"

text \<open>
  The requests of the wrappers one by one.  A stop passes no timeout, and containers and volumes are
  removed with force, as every caller asks.
\<close>

definition list_request :: request where
  "list_request = ContainerListRequest True [(''label'', LabelManaged @ ''=1'')]"

definition network_create_request :: "string \<Rightarrow> labels \<Rightarrow> request" where
  "network_create_request name ls = NetworkCreateRequest name ''bridge'' False ls"

definition volume_create_request :: "string \<Rightarrow> labels \<Rightarrow> request" where
  "volume_create_request name ls = VolumeCreateRequest name ls"

definition volume_remove_request :: "string \<Rightarrow> request" where
  "volume_remove_request name = VolumeRemoveRequest name True"

definition container_stop_request :: "string \<Rightarrow> request" where
  "container_stop_request i = ContainerStopRequest i None"

definition container_remove_request :: "string \<Rightarrow> request" where
  "container_remove_request i = ContainerRemoveRequest i True False"

definition image_build_request :: "string \<Rightarrow> tar_entry list \<Rightarrow> request" where
  "image_build_request tag buildContext = ImageBuildRequest [tag] DockerfilePath True buildContext"

definition image_list_request :: "string \<Rightarrow> request" where
  "image_list_request ref = ImageListRequest [(''reference'', ref)]"

definition usage_request :: request where
  "usage_request = DiskUsageRequest [''volume'']"

fun request_of :: "call \<Rightarrow> request option" where
  "request_of Connect = Some Ping"
| "request_of (InspectContainer i) = Some (ContainerInspectRequest i)"
| "request_of ListContainers = Some list_request"
| "request_of (StartContainer i) = Some (ContainerStartRequest i)"
| "request_of (StopContainer i) = Some (container_stop_request i)"
| "request_of (RemoveContainer i) = Some (container_remove_request i)"
| "request_of (CreateContainer spec swap) = Some (ContainerCreateRequest (create_request spec swap))"
| "request_of (UpdateContainer i cpus mem swap) = Some (ContainerUpdateRequest i cpus mem swap)"
| "request_of (InspectNetwork n) = Some (NetworkInspectRequest n)"
| "request_of (CreateNetwork n ls) = Some (network_create_request n ls)"
| "request_of (RemoveNetwork n) = Some (NetworkRemoveRequest n)"
| "request_of (InspectVolume n) = Some (VolumeInspectRequest n)"
| "request_of (CreateVolume n ls) = Some (volume_create_request n ls)"
| "request_of (RemoveVolume n) = Some (volume_remove_request n)"
| "request_of (InspectImage ref) = Some (ImageInspectRequest ref)"
| "request_of (BuildImage tag ctxt) = Some (image_build_request tag ctxt)"
| "request_of (ListImages ref) = Some (image_list_request ref)"
| "request_of (RemoveImage ref) = Some (ImageRemoveRequest ref)"
| "request_of (RunExec i cmd user) = Some (ExecRequest i cmd user)"
| "request_of (call.RunEphemeral img entry cmd env binds stdin) =
     Some (EphemeralRequest (eph_config
       \<lparr>e_Image = img, e_Entrypoint = entry, e_Cmd = cmd, e_Env = env, e_Binds = binds,
        e_Stdin = stdin\<rparr>))"
| "request_of DiskUsage = Some usage_request"
| "request_of Sleep = None"
| "request_of ReadDir = None"
| "request_of (ReadEnv n) = None"
| "request_of (WriteEnv n) = None"
| "request_of (RemoveEnv n) = None"
| "request_of (HttpGet url) = None"

end
