(* ===== verification/Confinement.thy ===== *)
theory Confinement
  imports Requests DispatchSafety
begin

text \<open>
  What the daemon can be asked for at all.  \<open>permitted\<close> lists, for every request of \<open>Requests\<close>, what
  \<open>docs/security-model.md\<close> promises of it: boxes are confined containers of their own network and
  volumes, helpers have no network, nothing outside tx9's objects is listed, built or pruned.  Every
  request of every run of the program is one of these.
\<close>

section \<open>Permitted requests\<close>

text \<open>
  A container of a box: an init process, restarted unless stopped, IPv6 off, no swap beyond as much
  again as its memory, and on no network but the one it was given, under its role's alias.
\<close>

definition box_container :: "string \<Rightarrow> container_request \<Rightarrow> bool" where
  "box_container alias q \<longleftrightarrow>
     q_Init q \<and> q_RestartPolicy q = ''unless-stopped'' \<and> q_Sysctls q = ipv6DisableSysctl \<and>
     q_Hostname q = '''' \<and> 0 \<le> q_Memory q \<and> q_MemorySwap q = 2 * q_Memory q \<and> q_MemorySwap q \<le> max_int64 \<and>
     (\<forall>n as. q_Endpoints q = Some (n, as) \<longrightarrow> as = [alias])"

text \<open>
  An agent: its own data volume and host directories that passed the checks of mounts, no published port;
  an executor: its own data volume alone, and one published port.
\<close>

definition agent_container_of :: "system \<Rightarrow> container_request \<Rightarrow> bool" where
  "agent_container_of E q \<longleftrightarrow> box_container ''agent'' q \<and>
     (\<exists>name ver ms binds groups h.
        q_Name q = agent_container name \<and> q_Labels q = BoxLabels name ver agent_role \<and>
        prepareAgentMounts (mounts_at E h) ms = Inr (binds, groups) \<and>
        q_Binds q = (agent_volume name @ '':/data'') # binds \<and> q_GroupAdd q = groups) \<and>
     q_ExposedPorts q = [] \<and> q_PortBindings q = [] \<and> q_DNS q = []"

definition executor_container_of :: "container_request \<Rightarrow> bool" where
  "executor_container_of q \<longleftrightarrow> box_container ''executor'' q \<and>
     (\<exists>name. q_Name q = executor_container name \<and> ownedByBox (q_Labels q) name \<and>
        label_at (q_Labels q) LabelRole = executor_role \<and>
        q_Binds q = [executor_volume name @ '':/data'']) \<and>
     q_GroupAdd q = [] \<and> q_ExposedPorts q = [executorPort] \<and>
     (\<exists>ip port. ip \<noteq> '''' \<and> q_PortBindings q = [(executorPort, [(ip, port)])])"

text \<open>
  A helper: without network and without new privileges, and either it sees no volume, or both
  volumes of a box read-only and no input, or the agent's volume of a box and the input to restore.
\<close>

definition helper_container :: "eph_config \<Rightarrow> bool" where
  "helper_container cfg \<longleftrightarrow>
     c_NetworkMode cfg = ''none'' \<and> c_SecurityOpt cfg = [''no-new-privileges:true''] \<and>
     (c_Binds cfg = [] \<and> \<not> c_Stdin cfg \<or>
      (\<exists>name. c_Binds cfg = [agent_volume name @ '':/agent:ro'', executor_volume name @ '':/executor:ro'']) \<and>
        c_Entrypoint cfg = [logsHelperPath] \<and> \<not> c_Stdin cfg \<or>
      (\<exists>name. c_Binds cfg = [agent_volume name @ '':/data'']) \<and>
        c_Cmd cfg = [''-c'', restoreStageScript] \<and> c_Stdin cfg)"

text \<open>A command inside a container is one of hb, as the agent, or one of the two fixed scripts.\<close>

definition fixed_command :: "string list \<Rightarrow> bool" where
  "fixed_command cmd \<longleftrightarrow>
     (\<exists>token. cmd = hb_prefix token @ [quiesce_script]) \<or>
     (\<exists>token args. cmd = hb_prefix token @ [hb_script, ''hb''] @ args) \<or>
     (\<exists>g. cmd = [''bash'', ''-c'', configureAgentMountGroupScript, ''tx9-mount-group'', g]) \<or>
     cmd = [''bash'', ''-c'', buildTarScript]"

fun permitted :: "system \<Rightarrow> request \<Rightarrow> bool" where
  "permitted E (ContainerListRequest everything filters) = (filters = [(''label'', ''tx9=1'')])"
| "permitted E (ContainerStopRequest i timeout) = (timeout = None)"
| "permitted E (ContainerRemoveRequest i force vols) = (\<not> vols)"
| "permitted E (ContainerCreateRequest q) = (agent_container_of E q \<or> executor_container_of q)"
| "permitted E (ContainerUpdateRequest i cpus memory swap) =
     (0 \<le> memory \<and> swap = 2 * memory \<and> swap \<le> max_int64)"
| "permitted E (NetworkCreateRequest n driver ipv6 ls) =
     (driver = ''bridge'' \<and> \<not> ipv6 \<and> (\<exists>name ver. n = NetworkName name \<and> ls = BoxLabels name ver ''''))"
| "permitted E (VolumeCreateRequest n ls) =
     (\<exists>name ver. n \<in> {agent_volume name, executor_volume name} \<and> ls = BoxLabels name ver '''')"
| "permitted E (ImageBuildRequest tags dockerfile remove entries) =
     (tags = [image_tag E] \<and> dockerfile = ''docker/Dockerfile'' \<and>
      BuildContextTar (bad_header E) (build_files E) = Inr entries)"
| "permitted E (ImageListRequest filters) = (filters = [(''reference'', ''tx9-box:*'')])"
| "permitted E (ImageRemoveRequest ref) = has_prefix ref ''tx9-box:''"
| "permitted E (ExecRequest i cmd user) = fixed_command cmd"
| "permitted E (EphemeralRequest cfg) = helper_container cfg"
| "permitted E (DiskUsageRequest types) = (types = [''volume''])"
| "permitted E q = True"

definition permitted_call :: "system \<Rightarrow> call \<Rightarrow> bool" where
  "permitted_call E c \<longleftrightarrow> (case request_of c of None \<Rightarrow> True | Some q \<Rightarrow> permitted E q)"

abbreviation sends_permitted :: "system \<Rightarrow> 'a tx9 \<Rightarrow> bool" where
  "sends_permitted E m \<equiv> makes_only (permitted_call E) m"

lemma permitted_requests [simp]:
  "permitted_call E Connect" "permitted_call E (InspectContainer i)" "permitted_call E ListContainers"
  "permitted_call E (StartContainer i)" "permitted_call E (StopContainer i)"
  "permitted_call E (RemoveContainer i)" "permitted_call E (InspectNetwork n)"
  "permitted_call E (RemoveNetwork n)" "permitted_call E (InspectVolume n)"
  "permitted_call E (RemoveVolume n)" "permitted_call E (InspectImage t)" "permitted_call E DiskUsage"
  "permitted_call E (ListImages ''tx9-box:*'')"
  "permitted_call E Sleep" "permitted_call E ReadDir" "permitted_call E (ReadEnv n)"
  "permitted_call E (WriteEnv n)" "permitted_call E (RemoveEnv n)" "permitted_call E (HttpGet url)"
  by (simp_all add: permitted_call_def list_request_def LabelManaged_def container_remove_request_def
      container_stop_request_def volume_remove_request_def
      usage_request_def image_list_request_def)

text \<open>What the creation of a container needs to know of the results in front of it.\<close>

lemma makes_only_lift [call_rules]:
  "(\<And>x. r = Inr x \<Longrightarrow> makes_only P (f x)) \<Longrightarrow> makes_only P (bind_comp (lift_result r) f)"
  by (cases r) (simp_all add: makes_only_def bind_comp_def lift_result_def)

lemma makes_only_prepared:
  "(\<And>h x. prepareAgentMounts (mounts_at E h) ms = Inr x \<Longrightarrow> makes_only P (f x)) \<Longrightarrow>
     makes_only P (bind_comp (PrepareMounts E ms) f)"
  by (auto simp: makes_only_def bind_comp_def PrepareMounts_def map_error_def split: sum.split)

section \<open>The daemon wrappers\<close>

lemma permitted_wrappers [call_rules]:
  "sends_permitted E (NewClient E)" "sends_permitted E (ImageExists E tag)"
  "sends_permitted E (ListBoxContainers E)" "sends_permitted E (NetworkInspect E n)"
  "sends_permitted E (NetworkRemove E i)" "sends_permitted E (VolumeInspect E n)"
  "sends_permitted E (VolumeRemove E n)" "sends_permitted E (ContainerStart E i)"
  "sends_permitted E (ContainerStop E i)" "sends_permitted E (ContainerRemove E i)"
  "sends_permitted E (ContainerInspect E i)"
  unfolding NewClient_def ImageExists_def wrapper_defs by (intro call_rules; simp)+

lemma swap_limit_fits:
  assumes "defaultMemorySwapLimit memory = Inr swap"
  shows "0 \<le> memory \<and> swap = 2 * memory \<and> swap \<le> max_int64"
  using assms by (auto simp: defaultMemorySwapLimit_def max_int64_def split: if_splits)

lemma permitted_update [call_rules]: "sends_permitted E (ContainerUpdateResources E i cpus memory)"
  unfolding ContainerUpdateResources_def
  by (intro call_rules) (auto dest: swap_limit_fits simp: permitted_call_def)

lemma permitted_create:
  assumes "\<And>swap. 0 \<le> spec_MemoryBytes spec \<Longrightarrow> swap = 2 * spec_MemoryBytes spec \<Longrightarrow> swap \<le> max_int64 \<Longrightarrow>
    agent_container_of E (create_request spec swap) \<or> executor_container_of (create_request spec swap)"
  shows "sends_permitted E (ContainerCreate E spec)"
  unfolding ContainerCreate_def using assms
  by (intro call_rules) (auto dest: swap_limit_fits simp: permitted_call_def)

lemma permitted_agent:
  assumes "prepareAgentMounts (mounts_at E h) ms = Inr (binds, groups)"
  shows "sends_permitted E (ContainerCreate E
    (newAgentContainerSpecWithResources name img token ver net (agent_volume name) binds groups res))"
  using assms
  by (intro permitted_create) (auto simp: agent_container_of_def box_container_def create_request_def
      newAgentContainerSpecWithResources_def)

lemma permitted_executor: "sends_permitted E (ContainerCreate E (executor_spec opts ver net))"
  by (rule permitted_create)
    (auto simp: executor_container_of_def box_container_def create_request_def executor_spec_def Let_def
      BoxLabels_def ownedByBox_def label_at_def label_defs LabelExecutorWebBaseURL_def executor_role_def)

lemma permitted_ensures [call_rules]:
  "sends_permitted E (ensureNetwork E (NetworkName name) name ver)"
  "sends_permitted E (ensureVolume E (agent_volume name) name ver)"
  "sends_permitted E (ensureVolume E (executor_volume name) name ver)"
proof -
  have "permitted_call E (CreateNetwork (NetworkName name) (BoxLabels name ver ''''))"
    "permitted_call E (CreateVolume (agent_volume name) (BoxLabels name ver ''''))"
    "permitted_call E (CreateVolume (executor_volume name) (BoxLabels name ver ''''))"
    by (auto simp: permitted_call_def network_create_request_def volume_create_request_def)
  then show "sends_permitted E (ensureNetwork E (NetworkName name) name ver)"
    "sends_permitted E (ensureVolume E (agent_volume name) name ver)"
    "sends_permitted E (ensureVolume E (executor_volume name) name ver)"
    unfolding ensureNetwork_def ensureVolume_def wrapper_defs by (intro call_rules; simp)+
qed

lemma permitted_ensureBoxImage [call_rules]: "sends_permitted E (ensureBoxImage E (image_tag E))"
  unfolding ensureBoxImage_def ImageBuild_def
  by (intro call_rules)
    (auto simp: permitted_call_def image_build_request_def DockerfilePath_def map_error_def split: sum.splits)

lemma permitted_exec:
  "fixed_command cmd \<Longrightarrow> sends_permitted E (Exec E i cmd user)"
  unfolding Exec_def by (intro call_rules) (simp add: permitted_call_def)

lemma permitted_HB [call_rules]:
  "sends_permitted E (HB E b token args)" "sends_permitted E (AgentQuiesced E b token)"
  unfolding HB_def AgentQuiesced_def
  by (intro call_rules permitted_exec; auto simp: fixed_command_def)+

lemma permitted_groups [call_rules]: "sends_permitted E (configureAgentMountGroups E cid groups)"
  by (induction groups) (auto intro!: call_rules permitted_exec simp: fixed_command_def)

lemma permitted_ephemeral:
  assumes "binds = [] \<and> stdin = None \<or>
    binds = [agent_volume name @ '':/agent:ro'', executor_volume name @ '':/executor:ro''] \<and>
      entry = [logsHelperPath] \<and> stdin = None \<or>
    binds = [agent_volume name @ '':/data''] \<and> cmd = [''-c'', restoreStageScript] \<and> stdin \<noteq> None"
  shows "sends_permitted E (Ephemeral E img entry cmd env binds stdin)"
  unfolding Ephemeral_def using assms
  by (intro call_rules) (auto simp: permitted_call_def helper_container_def eph_config_def)

section \<open>The operations on boxes\<close>

lemma makes_only_oracles [call_rules]:
  "makes_only P (MintToken E)" "makes_only P (PreflightMounts E ms)"
  by (simp_all add: makes_only_def MintToken_def PreflightMounts_def)

lemma makes_only_list_case [call_rules]:
  "makes_only P n \<Longrightarrow> (\<And>x xs. l = x # xs \<Longrightarrow> makes_only P (c x xs)) \<Longrightarrow>
     makes_only P (case l of [] \<Rightarrow> n | x # xs \<Rightarrow> c x xs)"
  by (cases l) auto

lemma makes_only_collect [call_rules]:
  "makes_only P m \<Longrightarrow> makes_only P (collect m)" "makes_only P m \<Longrightarrow> makes_only P (collect_removal m)"
  unfolding collect_def collect_removal_def by (intro call_rules; assumption)+

lemma makes_only_absent [call_rules]:
  "makes_only P m \<Longrightarrow> makes_only P (must_be_absent kind name m)" "makes_only P m \<Longrightarrow> makes_only P (present m)"
  unfolding must_be_absent_def present_def by (intro call_rules; assumption)+

lemma permitted_settings [call_rules]:
  "sends_permitted E (LoadResources E name)" "sends_permitted E (SaveResources E name r)"
  "sends_permitted E (ResetResources E name)" "sends_permitted E (LoadAgentMounts E name)"
  "sends_permitted E (SaveAgentMounts E name ms)" "sends_permitted E (LoadExecutorConfig E name ov)"
  "sends_permitted E (SaveExecutorConfig E name token cfg)" "sends_permitted E (BoxToken E name)"
  unfolding LoadResources_def SaveResources_def ResetResources_def LoadAgentMounts_def
    SaveAgentMounts_def LoadExecutorConfig_def SaveExecutorConfig_def BoxToken_def update_env_def Let_def
  by (intro call_rules; simp)+

lemma permitted_Get [call_rules]:
  "sends_permitted E (List E)" "sends_permitted E (Get E name)" "sends_permitted E (Exists E name)"
proof -
  show l: "sends_permitted E (List E)" unfolding List_def by (intro call_rules)
  show g: "sends_permitted E (Get E name)" unfolding Get_def by (intro call_rules l)
  show "sends_permitted E (Exists E name)"
    unfolding Exists_def by (intro call_rules g) (auto split: tx9_error.splits intro!: call_rules)
qed

lemma permitted_retry_wait [call_rules]: "sends_permitted E (retry_wait E)"
  by (simp add: makes_only_def retry_wait_def logged_def)

lemma permitted_lifecycle [call_rules]:
  "sends_permitted E (Start E b)" "sends_permitted E (Stop E b)" "sends_permitted E (HostBinding E b)"
  "sends_permitted E (HostPort E b)" "sends_permitted E (drop_leaked_agent E i err)"
  unfolding Start_def Stop_def HostPort_def HostBinding_def drop_leaked_agent_def
  by (intro call_rules)+

lemma permitted_preflights [call_rules]:
  "sends_permitted E (PreflightFreshObjects E name)" "sends_permitted E (inspectOwnedContainer E ref name)"
  "sends_permitted E (inspectOwnedNetwork E ref name)" "sends_permitted E (inspectOwnedVolume E ref name)"
  unfolding PreflightFreshObjects_def inspectOwnedContainer_def inspectOwnedNetwork_def
    inspectOwnedVolume_def
  by (intro call_rules)+

lemma permitted_loops [call_rules]:
  "sends_permitted E (target_loop E name ids refs)" "sends_permitted E (volume_loop E name vs refs)"
  by (induction refs arbitrary: ids vs) (auto intro!: call_rules)

lemma permitted_targets [call_rules]:
  "sends_permitted E (inspectDestroyTargets E name)" "sends_permitted E (PreflightExistingObjects E name)"
  unfolding PreflightExistingObjects_def inspectDestroyTargets_def by (intro call_rules)+

lemma permitted_removals [call_rules]:
  "sends_permitted E (remove_containers E ids)" "sends_permitted E (remove_volumes E name vs)"
  "sends_permitted E (remove_network E i)"
proof -
  show "sends_permitted E (remove_containers E ids)"
    by (induction ids) (auto intro!: call_rules)
  have v: "sends_permitted E (remove_volume E name v)" for v
    unfolding remove_volume_def by (intro call_rules)
  show "sends_permitted E (remove_volumes E name vs)"
    by (induction vs) (auto intro!: call_rules v)
  show "sends_permitted E (remove_network E i)"
    unfolding remove_network_def by (intro call_rules)
qed

lemma permitted_Destroy [call_rules]: "sends_permitted E (Destroy E name)"
  unfolding Destroy_def by (intro call_rules) simp

lemma permitted_runtime [call_rules]:
  "sends_permitted E (hb_up_loop E b token n)" "sends_permitted E (PrepareRuntime E b token)"
proof -
  show l: "sends_permitted E (hb_up_loop E b token n)" for n
    by (induction n) (auto simp: hb_up_loop.simps intro!: call_rules)
  show "sends_permitted E (PrepareRuntime E b token)"
    unfolding PrepareRuntime_def by (intro call_rules l)
qed

lemma permitted_Create [call_rules]: "sends_permitted E (Create E opts)"
  unfolding Create_def Let_def
  by (intro makes_only_lift makes_only_prepared makes_only_split) (intro call_rules permitted_agent permitted_executor; assumption?; simp)

lemma permitted_groups_setup [call_rules]:
  "sends_permitted E (probe_groups E name img running groups)" "sends_permitted E (restart_for_groups E i groups)"
  unfolding probe_groups_def imageConfiguresMountGroups_def restart_for_groups_def
  by (intro call_rules permitted_ephemeral; simp)+

lemma permitted_RecreateAgent [call_rules]: "sends_permitted E (RecreateAgent E b token mounts)"
  unfolding RecreateAgent_def
  by (intro makes_only_split call_rules makes_only_prepared) (intro call_rules permitted_agent; assumption?; simp)

section \<open>The commands\<close>

lemma permitted_inspect [call_rules]:
  "sends_permitted E (InspectResources E b)" "sends_permitted E (requireCompleteResources E b)"
  unfolding requireCompleteResources_def InspectResources_def inspect_role_def by (intro call_rules)+

lemma permitted_limits [call_rules]:
  "sends_permitted E (update_limits E i a)" "sends_permitted E (roll_back E u i a)"
  unfolding roll_back_def update_limits_def by (intro call_rules)+

lemma permitted_transaction [call_rules]:
  "sends_permitted E persist \<Longrightarrow> sends_permitted E (applyResourcesTransaction E b old new persist)"
  unfolding applyResourcesTransaction_def update_agent_def update_executor_def
    persist_or_roll_back_def
  by (intro call_rules)

lemma permitted_upgrade [call_rules]:
  "sends_permitted E (remove_each E ids)" "sends_permitted E (hb_each E b token cmds)"
  by (induction ids; auto intro!: call_rules) (induction cmds; auto intro!: call_rules)

lemma permitted_removeBoxContainers [call_rules]: "sends_permitted E (removeBoxContainers E ids)"
  unfolding removeBoxContainers_def by (intro call_rules)

lemma permitted_bodies [call_rules]:
  "sends_permitted E (create_fresh E cfg res name)" "sends_permitted E (upgrade_checks E xf rf name)"
  "sends_permitted E (upgrade_rest E name x)" "sends_permitted E (applyAgentMounts E b name mounts)"
  unfolding create_fresh_def create_setup_def create_box_def fail_and_destroy_def upgrade_checks_def upgrade_rest_def applyAgentMounts_def
  by (intro call_rules)+

text \<open>The lock and the files of the local steps are not the daemon's business.\<close>

lemma makes_only_with_lock [call_rules]:
  assumes "makes_only P m"
  shows "makes_only P (with_lock E path m)"
proof -
  have "makes_only P (with_defer m (ReleaseLock h))" for h
    by (rule makes_only_defer [OF assms]) (simp add: ReleaseLock_def)
  moreover have "makes_only P (AcquireLock E path)"
    by (auto simp: makes_only_def AcquireLock_def split: prod.split)
  ultimately show ?thesis unfolding with_lock_def by (intro makes_only_bind)
qed

lemma permitted_withBoxLock [call_rules]:
  "sends_permitted E m \<Longrightarrow> sends_permitted E (withDocker E m)"
  "sends_permitted E m \<Longrightarrow> sends_permitted E (withBoxLock E name m)"
  unfolding withBoxLock_def withDocker_def by (intro call_rules; assumption)+

lemma permitted_commands:
  "sends_permitted E (cmdStart E name)" "sends_permitted E (cmdStop E name)"
  "sends_permitted E (cmdDelete E force typed name)"
  "sends_permitted E (cmdResourcesSet E rf ov name)" "sends_permitted E (cmdResourcesReset E name)"
  "sends_permitted E (cmdUpgrade E xf rf name)" "sends_permitted E (cmdMountRemove E name target)"
  "sends_permitted E (cmdGateway E action confirmed name)" "sends_permitted E (enter_target E name x)"
  unfolding cmdStart_def cmdStop_def cmdDelete_def cmdResourcesSet_def cmdResourcesReset_def cmdUpgrade_def
    cmdMountRemove_def Let_def cmdGateway_def enter_target_def
  by (intro call_rules)+

lemma makes_only_reading_host:
  "(\<And>x. makes_only P (f x)) \<Longrightarrow> makes_only P (\<lambda>w. bind_comp (lift_result (q w)) f w)"
  by (auto simp: makes_only_def bind_comp_def lift_result_def split: sum.splits)

lemma permitted_MountAdd: "sends_permitted E (cmdMountAdd E name source target ro rm)"
  unfolding cmdMountAdd_def by (intro makes_only_reading_host call_rules)

lemma permitted_fresh_name [call_rules]: "sends_permitted E (fresh_name_loop E taken n)"
proof (induction n arbitrary: taken)
  case (Suc n)
  have "sends_permitted E (bind_comp (attempt (PreflightFreshObjects E name)) (\<lambda>r. case r of Inr _ \<Rightarrow> ret name
      | Inl (ObjectsExist k o') \<Rightarrow> fresh_name_loop E (name # taken) n | Inl e \<Rightarrow> fail e))" for name
    by (rule makes_only_bind, intro call_rules, rule makes_only_split(2))
      (simp_all add: makes_only_pure Suc split: tx9_error.split)
  then show ?case
    unfolding makes_only_def fresh_name_loop.simps by (auto split: sum.split)
qed (simp add: makes_only_pure)

lemma permitted_cmdCreate: "sends_permitted E (cmdCreate E xf rf requested)"
  unfolding cmdCreate_def generateFreshBoxName_def by (intro call_rules)

section \<open>Archives, logs and reports\<close>

lemma permitted_restore [call_rules]:
  "sends_permitted E (import_restore E L name dataPath tok b)"
  unfolding import_restore_def destroy_then_def
  by (intro call_rules permitted_ephemeral [where name = name]) (auto intro!: call_rules)

lemma permitted_capture [call_rules]: "sends_permitted E (capture E L b raw)"
  unfolding capture_def by (intro call_rules permitted_exec) (auto simp: fixed_command_def)

lemma permitted_resume:
  assumes "sends_permitted E m"
  shows "sends_permitted E (with_defer m (resume E b token))"
proof (rule makes_onlyI)
  fix w
  obtain r w1 where m: "m w = (r, w1)" by fastforce
  obtain r2 w2 where h: "HB E b token [''resume''] w1 = (r2, w2)" by fastforce
  obtain es where es: "events w1 = events w @ es" "\<And>e. e \<in> set es \<Longrightarrow> permitted_call E (fst e)"
    using makes_onlyD [OF assms m] by blast
  obtain fs where fs: "events w2 = events w1 @ fs" "\<And>e. e \<in> set fs \<Longrightarrow> permitted_call E (fst e)"
    using makes_onlyD [OF permitted_HB(1) h] by blast
  show "\<exists>es. events (snd (with_defer m (resume E b token) w)) = events w @ es \<and>
      (\<forall>e \<in> set es. permitted_call E (fst e))"
    using m h es fs by (intro exI [of _ "es @ fs"]) (auto simp: with_defer_def resume_def)
qed

lemma permitted_archives:
  "sends_permitted E (cmdBackup E L path password noEncrypt name)"
  "sends_permitted E (cmdImport E L xf rf name' password archivePath)"
proof -
  show "sends_permitted E (cmdBackup E L path password noEncrypt name)"
    unfolding cmdBackup_def backup_body_def quiesceForBackup_def backup_snapshot_def backup_archive_def
      encrypt_raw_def place_def Let_def
    by (intro permitted_resume call_rules)
  show "sends_permitted E (cmdImport E L xf rf name' password archivePath)"
    unfolding cmdImport_def import_body_def import_payload_def import_create_def destroy_then_def Let_def
    by (intro call_rules)
qed

lemma permitted_logs_of: "sends_permitted E (logs_of E name action opts)"
proof -
  have img: "sends_permitted E (image_ref_loop E ids errs)" for ids errs
    by (induction ids arbitrary: errs) (auto intro!: call_rules split: option.split)
  show ?thesis
    unfolding logs_of_def runLogsHelper_def logsHelperEnvironment_def boxImageRef_def
    by (intro call_rules img permitted_ephemeral [where name = name]) simp_all
qed

lemma permitted_logs:
  "sends_permitted E (cmdLogs E opts name)" "sends_permitted E (cmdLogsExport E L Abs opts output name)"
proof -
  show "sends_permitted E (cmdLogs E opts name)"
    unfolding cmdLogs_def by (intro call_rules permitted_logs_of)
  have put: "makes_only P (\<lambda>w. m (put_output d out w))" if "makes_only P m" for P and m :: "unit tx9" and d out
  proof (rule makes_onlyI)
    fix w
    have "events (put_output d out w) = events w" by (simp add: put_output_def)
    then show "\<exists>es. events (snd (m (put_output d out w))) = events w @ es \<and> (\<forall>e \<in> set es. P (fst e))"
      using that unfolding makes_only_def by metis
  qed
  have written: "sends_permitted E (write_export E L opts name d)" for d
    unfolding write_export_def by (intro makes_only_bind permitted_logs_of put call_rules)
  have kept: "makes_only P (remove_unless_ok L d m)" if "makes_only P m" for P d and m :: "unit tx9"
    using that by (auto simp: makes_only_def remove_unless_ok_def local_events split: prod.split sum.split) (metis snd_conv)+
  show "sends_permitted E (cmdLogsExport E L Abs opts output name)"
    unfolding cmdLogsExport_def by (intro call_rules kept written)
qed

lemma permitted_remove_tags:
  "list_all (\<lambda>t. has_prefix t ''tx9-box:'') ts \<Longrightarrow> sends_permitted E (remove_tags E ts)"
  by (induction ts) (auto simp: ImageRemove_def permitted_call_def intro!: call_rules)

lemma permitted_pruneImages: "sends_permitted E (pruneImages E)"
proof -
  have "list_all (\<lambda>t. has_prefix t ''tx9-box:'') (concat (map (stale_tags tag cs) images))" for tag cs images
    by (auto simp: list_all_iff stale_tags_def Let_def split: if_splits)
  then show ?thesis
    unfolding pruneImages_def ImageList_def Let_def by (intro call_rules permitted_remove_tags) simp_all
qed

lemma permitted_pruneStateFile: "sends_permitted E (pruneStateFile E name)"
proof -
  have state: "sends_permitted E (remove_state E name)"
    by (auto simp: makes_only_def remove_state_def logged_def split: sum.split)
  have "sends_permitted E (bind_comp (boxStateInUse E name) (\<lambda>live. if live then ret False else remove_state E name))"
    unfolding boxStateInUse_def by (intro call_rules state)
  then have body: "sends_permitted E (with_defer (bind_comp (boxStateInUse E name)
      (\<lambda>live. if live then ret False else remove_state E name)) (ReleaseLock h))" for h
    by (rule makes_only_defer) (simp add: ReleaseLock_def)
  have "sends_permitted E (\<lambda>w. case AcquireLock E path w of
       (Inl (LockErr (Busy n)), w') \<Rightarrow> (Inr False, w')
     | (Inl e, w') \<Rightarrow> (Inl e, w')
     | (Inr h, w') \<Rightarrow> with_defer (bind_comp (boxStateInUse E name)
         (\<lambda>live. if live then ret False else remove_state E name)) (ReleaseLock h) w')" for path
  proof (rule makes_onlyI)
    fix w
    obtain q w1 where acq: "AcquireLock E path w = (q, w1)" by fastforce
    then have "events w1 = events w" by (auto simp: AcquireLock_def split: prod.splits)
    then show "\<exists>es. events (snd (case AcquireLock E path w of
         (Inl (LockErr (Busy n)), w') \<Rightarrow> (Inr False, w') | (Inl e, w') \<Rightarrow> (Inl e, w')
       | (Inr h, w') \<Rightarrow> with_defer (bind_comp (boxStateInUse E name)
           (\<lambda>live. if live then ret False else remove_state E name)) (ReleaseLock h) w')) = events w @ es \<and>
       (\<forall>e \<in> set es. permitted_call E (fst e))"
      using body [THEN makes_only_def [THEN iffD1], THEN spec, of _ w1] acq
      by (auto split: sum.split tx9_error.split lock_error.split)
  qed
  then show ?thesis unfolding pruneStateFile_def prune_with_def by (intro call_rules)
qed

lemma permitted_cmdPrune: "sends_permitted E (cmdPrune E)"
proof -
  have entries: "sends_permitted E (prune_entries E known es removed)" for known es removed
    by (induction es arbitrary: removed) (auto simp: Let_def intro!: call_rules permitted_pruneStateFile)
  have "sends_permitted E (\<lambda>w. case read_dir E (events w) of None \<Rightarrow> (Inl ReadDirErr, logged ReadDir False w)
     | Some entries \<Rightarrow> prune_entries E known entries [] (logged ReadDir True w))" for known
  proof (rule makes_onlyI)
    fix w
    show "\<exists>es. events (snd (case read_dir E (events w) of None \<Rightarrow> (Inl ReadDirErr, logged ReadDir False w)
       | Some entries \<Rightarrow> prune_entries E known entries [] (logged ReadDir True w))) = events w @ es \<and>
       (\<forall>e \<in> set es. permitted_call E (fst e))"
    proof (cases "read_dir E (events w)")
      case (Some xs)
      obtain es where "events (snd (prune_entries E known xs [] (logged ReadDir True w))) =
          events (logged ReadDir True w) @ es" "\<forall>e \<in> set es. permitted_call E (fst e)"
        using entries [of known xs "[]"] unfolding makes_only_def by blast
      then show ?thesis using Some by (intro exI [of _ "(ReadDir, True) # es"]) (simp add: logged_def)
    qed (simp add: logged_def)
  qed
  then have "sends_permitted E (pruneStateFiles E)"
    unfolding pruneStateFiles_def by (intro call_rules)
  then show ?thesis
    unfolding cmdPrune_def by (intro call_rules permitted_pruneImages)
qed

lemma permitted_reports:
  "sends_permitted E (cmdList E F)" "sends_permitted E (cmdOpen E F name)" "sends_permitted E (cmdDoctor E F name)"
  "sends_permitted E (cmdMountList E name)" "sends_permitted E (cmdResourcesShow E ff fb name)"
  "sends_permitted E (showOverview E F ff fb)"
proof -
  have get [call_rules]: "sends_permitted E (http_request F url)" for url
    by (auto simp: makes_only_def http_request_def logged_def split: option.splits)
  have usage [call_rules]: "sends_permitted E (VolumeUsage E ns)" for ns
    unfolding VolumeUsage_def by (intro call_rules) simp
  have urls [call_rules]: "sends_permitted E (list_urls E F bs)" for bs
    by (induction bs) (auto simp: dashboard_of_def intro!: call_rules)
  have once [call_rules]: "sends_permitted E (probe_once F url)" for url
    unfolding probe_once_def by (intro call_rules)
  have loop [call_rules]: "sends_permitted E (probe_loop E F url k)" for url k
    by (induction k) (auto intro!: call_rules)
  have pop [call_rules]: "sends_permitted E (populateOverviewContainer E i c)" for i c
    unfolding populateOverviewContainer_def by (intro call_rules)
  have boxes [call_rules]: "sends_permitted E (overview_boxes E F bs)" for bs
    by (induction bs) (auto simp: collectOverviewBox_def intro!: call_rules)
  show "sends_permitted E (cmdList E F)" unfolding cmdList_def by (intro call_rules)
  show "sends_permitted E (cmdOpen E F name)" unfolding cmdOpen_def Let_def by (intro call_rules)
  show "sends_permitted E (cmdDoctor E F name)"
    unfolding cmdDoctor_def Let_def host_probe_def probeHostPort_def public_probe_def probeExecutorPublicURL_def
    by (intro call_rules)
  show "sends_permitted E (cmdMountList E name)" unfolding cmdMountList_def by (intro call_rules)
  show "sends_permitted E (cmdResourcesShow E ff fb name)" unfolding cmdResourcesShow_def by (intro call_rules)
  show "sends_permitted E (showOverview E F ff fb)"
    unfolding showOverview_def collectOverview_def Let_def by (intro call_rules)
qed

section \<open>Every command line\<close>

definition cli_permitted :: "system \<Rightarrow> 'a cli \<Rightarrow> bool" where
  "cli_permitted E m \<longleftrightarrow>
     (\<forall>s. \<exists>es. events (cli_world (snd (m s))) = events (cli_world s) @ es \<and>
        (\<forall>e \<in> set es. permitted_call E (fst e)))"

named_theorems permitted_rules \<open>commands that send permitted requests only\<close>

lemma cli_permitted_pure [permitted_rules]: "cli_permitted E (fail e)" "cli_permitted E (usage cmd)"
  by (auto simp: cli_permitted_def usage_def fail_def)

lemma cli_permitted_in_world [permitted_rules]:
  assumes "sends_permitted E m"
  shows "cli_permitted E (in_world m)"
proof -
  have "cli_world (snd (in_world m s)) = snd (m (cli_world s))" for s
    by (auto simp: in_world_def split: prod.split)
  then show ?thesis using assms by (simp add: cli_permitted_def makes_only_def)
qed

lemma cli_permitted_then [permitted_rules]:
  assumes "sends_permitted E m" and quiet: "\<And>x s. snd (f x s) = s"
  shows "cli_permitted E (bind_comp (in_world m) f)"
proof -
  have "snd (bind_comp (in_world m) f s) = snd (in_world m s)" for s
    by (auto simp: bind_comp_def quiet split: prod.split sum.split)
  then show ?thesis using cli_permitted_in_world [OF assms(1)] by (simp add: cli_permitted_def)
qed

lemma cli_permitted_run_as [permitted_rules]: "sends_permitted E m \<Longrightarrow> cli_permitted E (run_as f m)"
  unfolding run_as_def by (intro permitted_rules) (auto simp: ret_def)

lemma cli_permitted_with_flags [permitted_rules]:
  "(\<And>ss ps. cli_permitted E (k ss ps)) \<Longrightarrow> cli_permitted E (with_flags F args k)"
  by (auto simp: with_flags_def cli_permitted_pure split: sum.split)

lemma cli_permitted_name [permitted_rules]:
  "(\<And>name. cli_permitted E (k name)) \<Longrightarrow> cli_permitted E (requireBoxName cmd ps k)"
  by (auto simp: requireBoxName_def cli_permitted_pure split: list.split)

lemma cli_permitted_split [permitted_rules]:
  "(b \<Longrightarrow> cli_permitted E m) \<Longrightarrow> (\<not> b \<Longrightarrow> cli_permitted E m') \<Longrightarrow> cli_permitted E (if b then m else m')"
  "cli_permitted E n \<Longrightarrow> (\<And>x xs. cli_permitted E (c x xs)) \<Longrightarrow> cli_permitted E (case ps of [] \<Rightarrow> n | x # xs \<Rightarrow> c x xs)"
  "(\<And>x y. cli_permitted E (fp x y)) \<Longrightarrow> cli_permitted E (case p of (x, y) \<Rightarrow> fp x y)"
  by (auto split: list.split prod.split)

lemma cli_permitted_self_upgrade [permitted_rules]: "cli_permitted E (self_upgrade P force)"
  by (auto simp: cli_permitted_def self_upgrade_def split: prod.splits sum.splits)

lemma cli_permitted_command: "cli_permitted (p_system P) (run_command P c args)"
proof -
  note defs = cliCreate_def cliList_def cliEnter_def cliStart_def cliStop_def cliLogs_def cliLogsExport_def
    cliResources_def cliResourcesShow_def cliResourcesSet_def cliResourcesReset_def cliBackup_def cliImport_def
    cliMount_def cliMountAdd_def cliMountList_def cliMountRemove_def cliGateway_def cliOpen_def cliDoctor_def
    cliUpgrade_def cliDelete_def cliPrune_def
  note sent = permitted_commands permitted_MountAdd permitted_cmdCreate permitted_archives permitted_logs
    permitted_cmdPrune permitted_reports
  show ?thesis
    by (cases c; simp only: run_command.simps; unfold defs Let_def; intro permitted_rules sent)
      (auto simp: ret_def fail_def split: option.split prod.split)
qed


end
