(* ===== verification/LogRedaction.thy ===== *)
theory LogRedaction
  imports GoStrings "HOL-Library.Sublist"
begin

text \<open>
  The redaction of exact secrets in \<open>guest/tx9-logs\<close>, which captures the output of the services
  inside a box: \<open>StreamingExactRedactor\<close> replaces the values of secret environment variables in a byte
  stream that arrives in arbitrary chunks.
\<close>

section \<open>Matching and substitution\<close>

definition REDACTED :: string where "REDACTED = ''[REDACTED]''"

text \<open>The non-empty values without repetition, the longest first.\<close>

definition ordered_values :: "string list \<Rightarrow> string list" where
  "ordered_values vs = sort_key (\<lambda>v. - int (length v)) (remdups (filter (\<lambda>v. v \<noteq> []) vs))"

text \<open>
  The pattern is the alternation of the values: at a position it matches the first value in the list
  that stands there.  No value is empty.
\<close>

definition match_at :: "string list \<Rightarrow> string \<Rightarrow> string option" where
  "match_at vs s = find (\<lambda>v. v \<noteq> [] \<and> prefix v s) vs"

lemma match_at_Some: "match_at vs s = Some v \<Longrightarrow> v \<in> set vs \<and> v \<noteq> [] \<and> prefix v s"
  by (auto simp: match_at_def find_Some_iff)

lemma match_at_shorter: "match_at vs s = Some v \<Longrightarrow> 0 < length v \<and> length v \<le> length s"
  by (auto dest!: match_at_Some prefix_length_le)

text \<open>\<open>pattern.sub\<close> and \<open>pattern.finditer\<close>: from left to right, without overlaps.\<close>

function substitute :: "string list \<Rightarrow> string \<Rightarrow> string" where
  "substitute vs s =
     (if s = [] then []
      else case match_at vs s of
        Some v \<Rightarrow> REDACTED @ substitute vs (drop (length v) s)
      | None \<Rightarrow> hd s # substitute vs (tl s))"
  by pat_completeness auto
termination
  by (relation "measure (\<lambda>(vs, s). length s)") (auto dest: match_at_shorter)

declare substitute.simps [simp del]

function spans :: "string list \<Rightarrow> nat \<Rightarrow> string \<Rightarrow> (nat \<times> nat) list" where
  "spans vs i s =
     (if s = [] then []
      else case match_at vs s of
        Some v \<Rightarrow> (i, i + length v) # spans vs (i + length v) (drop (length v) s)
      | None \<Rightarrow> spans vs (Suc i) (tl s))"
  by pat_completeness auto
termination
  by (relation "measure (\<lambda>(vs, i, s). length s)") (auto dest: match_at_shorter)

declare spans.simps [simp del]

section \<open>What has to be held back\<close>

text \<open>
  The search of one value's beginnings among the ends of \<open>s\<close>, from the longest: \<open>find\<close> skips to the
  first byte of the value.
\<close>

fun longest_suffix :: "string \<Rightarrow> nat \<Rightarrow> string \<Rightarrow> nat" where
  "longest_suffix v best [] = best"
| "longest_suffix v best (c # cs) =
     (if c \<noteq> hd v then longest_suffix v best cs
      else if length (c # cs) \<le> best then best
      else if prefix (c # cs) v then length (c # cs)
      else longest_suffix v best cs)"

definition partial_suffix_step :: "string \<Rightarrow> nat \<Rightarrow> string \<Rightarrow> nat" where
  "partial_suffix_step payload best v =
     (let maximum = min (length v - 1) (length payload) in
      if maximum \<le> best then best
      else longest_suffix v best (drop (length payload - maximum) payload))"

definition partial_suffix_length :: "string list \<Rightarrow> string \<Rightarrow> nat" where
  "partial_suffix_length vs payload = foldl (partial_suffix_step payload) 0 vs"

text \<open>The end is moved in front of every match that it would cut, until it cuts none.\<close>

definition shrink :: "(nat \<times> nat) list \<Rightarrow> nat \<Rightarrow> nat" where
  "shrink ms safe_end =
     foldl (\<lambda>protected_end (b, e). if b < safe_end \<and> safe_end < e then min protected_end b else protected_end)
       safe_end ms"

lemma shrink_fold_le: "foldl (\<lambda>p (b, f). if b < e \<and> e < f then min p b else p) p ms \<le> (p :: nat)"
  by (induction ms arbitrary: p) (auto simp: min_def intro: order_trans, meson le_less_linear less_imp_le order_trans)

lemma shrink_le: "shrink ms e \<le> e"
  unfolding shrink_def by (rule shrink_fold_le)

function protect :: "(nat \<times> nat) list \<Rightarrow> nat \<Rightarrow> nat" where
  "protect ms safe_end =
     (if shrink ms safe_end = safe_end then safe_end else protect ms (shrink ms safe_end))"
  by pat_completeness auto
termination
  by (relation "measure snd") (auto intro!: le_neq_implies_less shrink_le)

declare protect.simps [simp del]

section \<open>The stream\<close>

text \<open>The state is the pending bytes; \<open>feed\<close> gives the bytes to pass on and the new state.\<close>

definition feed_exact :: "string list \<Rightarrow> string \<Rightarrow> string \<Rightarrow> string \<times> string" where
  "feed_exact vs pending payload =
     (if vs = [] then (payload, pending)
      else
        (let combined = pending @ payload;
             safe_end = protect (spans vs 0 combined) (length combined - partial_suffix_length vs combined)
         in (substitute vs (take safe_end combined), drop safe_end combined)))"

definition finish_exact :: "string list \<Rightarrow> string \<Rightarrow> string" where
  "finish_exact vs pending = (if vs = [] then pending else substitute vs pending)"

fun feed_all_exact :: "string list \<Rightarrow> string \<Rightarrow> string list \<Rightarrow> string" where
  "feed_all_exact vs pending [] = finish_exact vs pending"
| "feed_all_exact vs pending (payload # ps) =
     (case feed_exact vs pending payload of (out, pending') \<Rightarrow> out @ feed_all_exact vs pending' ps)"

definition redact_exact :: "string list \<Rightarrow> string list \<Rightarrow> string" where
  "redact_exact values chunks = feed_all_exact (ordered_values values) [] chunks"

section \<open>Correctness\<close>

text \<open>What is held back is at least every end of the bytes that a value could still continue.\<close>

lemma longest_suffix_ge: "best \<le> longest_suffix v best s"
  by (induction v best s rule: longest_suffix.induct) auto

lemma longest_suffix_covers:
  assumes "q \<noteq> []" and "suffix q s" and "prefix q v"
  shows "length q \<le> longest_suffix v best s"
  using assms
proof (induction v best s rule: longest_suffix.induct)
  case (2 v best c cs)
  have same: "c = hd v" if "q = c # cs" using that 2(5) by (cases v) auto
  show ?case
  proof (cases "q = c # cs")
    case True
    then show ?thesis using same 2(5) by auto
  next
    case False
    then have q: "suffix q cs" using 2(4) by (auto simp: suffix_Cons)
    then have "length q \<le> length cs" by (rule suffix_length_le)
    then show ?thesis using 2 q by auto
  qed
qed simp

lemma partial_suffix_step_ge: "best \<le> partial_suffix_step s best v"
  using longest_suffix_ge by (auto simp: partial_suffix_step_def Let_def)

lemma foldl_steps_ge: "best \<le> foldl (partial_suffix_step s) best vs"
  by (induction vs arbitrary: best) (auto intro: order_trans [OF partial_suffix_step_ge])

lemma suffix_of_end:
  assumes "suffix q s" and "length q \<le> m" and "m \<le> length s"
  shows "suffix q (drop (length s - m) s)"
proof -
  obtain p where s: "s = p @ q" using assms(1) by (auto simp: suffix_def)
  then have "drop (length s - m) s = drop (length s - m) p @ q" using assms by simp
  then show ?thesis by (simp add: suffix_def)
qed

lemma partial_suffix_step_covers:
  assumes "q \<noteq> []" "suffix q s" "strict_prefix q v"
  shows "length q \<le> partial_suffix_step s best v"
proof -
  let ?m = "min (length v - 1) (length s)"
  have m: "length q \<le> ?m"
    using assms(2,3) by (auto dest!: suffix_length_le prefix_length_less)
  then have "suffix q (drop (length s - ?m) s)" by (intro suffix_of_end [OF assms(2)]) auto
  then show ?thesis
    using m longest_suffix_covers [OF assms(1)] assms(3) by (auto simp: partial_suffix_step_def Let_def)
qed

lemma partial_suffix_covers:
  assumes "v \<in> set vs" "q \<noteq> []" "suffix q s" "strict_prefix q v"
  shows "length q \<le> partial_suffix_length vs s"
proof -
  obtain us ws where vs: "vs = us @ v # ws" using assms(1) by (auto dest: split_list)
  let ?b = "foldl (partial_suffix_step s) 0 us"
  have "length q \<le> partial_suffix_step s ?b v" by (rule partial_suffix_step_covers [OF assms(2-4)])
  also have "\<dots> \<le> foldl (partial_suffix_step s) (partial_suffix_step s ?b v) ws" by (rule foldl_steps_ge)
  finally show ?thesis by (simp add: partial_suffix_length_def vs)
qed

text \<open>The protected end cuts no match.\<close>

definition straddles :: "(nat \<times> nat) list \<Rightarrow> nat \<Rightarrow> bool" where
  "straddles ms e \<longleftrightarrow> list_ex (\<lambda>(b, f). b < e \<and> e < f) ms"

lemma shrink_fixed:
  assumes "shrink ms e = e"
  shows "\<not> straddles ms e"
proof -
  have below: "foldl (\<lambda>p (b, f). if b < e \<and> e < f then min p b else p) p ms < e" if "straddles ms e" and "p \<le> e" for p
    using that
  proof (induction ms arbitrary: p)
    case (Cons m ms)
    obtain b f where m: "m = (b, f)" by fastforce
    show ?case
    proof (cases "b < e \<and> e < f")
      case True
      then show ?thesis using shrink_fold_le [of e "min p b" ms] m by auto
    next
      case False
      then show ?thesis using Cons m by (auto simp: straddles_def)
    qed
  qed (simp add: straddles_def)
  show ?thesis using below [of e] assms by (auto simp: shrink_def)
qed

lemma protect_cuts_none: "\<not> straddles ms (protect ms e) \<and> protect ms e \<le> e"
proof (induction ms e rule: protect.induct)
  case (1 ms e)
  show ?case
  proof (cases "shrink ms e = e")
    case True
    then have "protect ms e = e" by (subst protect.simps) simp
    then show ?thesis using shrink_fixed [OF True] by simp
  next
    case False
    then have "protect ms e = protect ms (shrink ms e)" by (subst protect.simps) simp
    then show ?thesis using 1 [OF False] shrink_le [of ms e] by simp
  qed
qed

text \<open>
  Cutting a stream: no match of the first part crosses the cut, and no position in front of the cut
  would match otherwise if more bytes followed.
\<close>

lemma find_cong_list: "(\<And>x. x \<in> set xs \<Longrightarrow> P x = Q x) \<Longrightarrow> find P xs = find Q xs"
  by (induction xs) auto

lemma find_stronger:
  "find P xs = Some v \<Longrightarrow> Q v \<Longrightarrow> (\<And>x. Q x \<Longrightarrow> P x) \<Longrightarrow> find Q xs = Some v"
  by (induction xs) (auto split: if_splits)

lemma match_at_cong:
  "(\<And>v. v \<in> set vs \<Longrightarrow> v \<noteq> [] \<Longrightarrow> prefix v s \<longleftrightarrow> prefix v s') \<Longrightarrow> match_at vs s = match_at vs s'"
  unfolding match_at_def by (rule find_cong_list) auto

lemma match_at_take:
  assumes "match_at vs s = None \<or> (\<exists>v. match_at vs s = Some v \<and> length v \<le> e)"
  shows "match_at vs (take e s) = match_at vs s"
proof -
  have short: "prefix v (take e s) \<longleftrightarrow> prefix v s \<and> length v \<le> e" for v
    using prefix_length_le [of v "take e s"] prefix_order.trans [OF _ take_is_prefix, of v e s]
      prefix_length_prefix [OF _ take_is_prefix, of v s e] prefix_length_le [of v s] by auto
  from assms show ?thesis
  proof
    assume "match_at vs s = None"
    then show ?thesis by (intro match_at_cong) (auto simp: match_at_def find_None_iff short)
  next
    assume "\<exists>v. match_at vs s = Some v \<and> length v \<le> e"
    then obtain v where v: "match_at vs s = Some v" "length v \<le> e" by blast
    then have "prefix v s" by (simp add: match_at_Some)
    then show ?thesis
      unfolding v(1) using v match_at_Some [OF v(1)] unfolding match_at_def
      by (intro find_stronger [OF v(1) [unfolded match_at_def]]) (simp_all only: short, blast+)
  qed
qed

lemma substitute_Nil [simp]: "substitute vs [] = []" by (simp add: substitute.simps)

lemma substitute_match: "match_at vs s = Some v \<Longrightarrow> substitute vs s = REDACTED @ substitute vs (drop (length v) s)"
  by (subst substitute.simps) (auto dest: match_at_shorter)

lemma substitute_step: "match_at vs (c # s) = None \<Longrightarrow> substitute vs (c # s) = c # substitute vs s"
  by (subst substitute.simps) simp

lemma substitute_none [simp]: "substitute [] s = s"
  by (induction s) (simp_all add: substitute_step match_at_def)

lemma spans_match: "match_at vs s = Some v \<Longrightarrow> spans vs i s = (i, i + length v) # spans vs (i + length v) (drop (length v) s)"
  by (subst spans.simps) (auto dest: match_at_shorter)

lemma spans_step: "match_at vs (c # s) = None \<Longrightarrow> spans vs i (c # s) = spans vs (Suc i) s"
  by (subst spans.simps) simp

lemma substitute_cut:
  assumes "\<not> straddles (spans vs i s) (i + e)" and "e \<le> length s"
    and "\<And>p. p < e \<Longrightarrow> match_at vs (drop p s @ t) = match_at vs (drop p s)"
  shows "substitute vs (s @ t) = substitute vs (take e s) @ substitute vs (drop e s @ t)"
  using assms
proof (induction "length s" arbitrary: i e s rule: less_induct)
  case less
  show ?case
  proof (cases "e = 0")
    case False
    then have same: "match_at vs (s @ t) = match_at vs s" using less.prems(3) [of 0] by simp
    obtain c s' where s: "s = c # s'" using False less.prems(2) by (cases s) auto
    show ?thesis
    proof (cases "match_at vs s")
      case None
      have "substitute vs (s' @ t) = substitute vs (take (e - 1) s') @ substitute vs (drop (e - 1) s' @ t)"
      proof (rule less.hyps)
        show "\<not> straddles (spans vs (Suc i) s') (Suc i + (e - 1))"
          using less.prems(1) None False s by (simp add: spans_step)
        show "match_at vs (drop p s' @ t) = match_at vs (drop p s')" if "p < e - 1" for p
          using less.prems(3) [of "Suc p"] that s by simp
      qed (use s less.prems(2) in auto)
      moreover have "match_at vs (take e s) = None" using None match_at_take [of vs s e] by simp
      ultimately show ?thesis
        using None same s False by (cases e) (simp_all add: substitute_step)
    next
      case (Some v)
      have v: "0 < length v" "length v \<le> length s" using match_at_shorter [OF Some] by simp_all
      have inside: "length v \<le> e"
        using less.prems(1) False by (auto simp: spans_match [OF Some] straddles_def)
      have "substitute vs (drop (length v) s @ t) =
          substitute vs (take (e - length v) (drop (length v) s)) @
          substitute vs (drop (e - length v) (drop (length v) s) @ t)"
      proof (rule less.hyps)
        show "\<not> straddles (spans vs (i + length v) (drop (length v) s)) (i + length v + (e - length v))"
          using less.prems(1) inside by (simp add: spans_match [OF Some] straddles_def)
        show "match_at vs (drop p (drop (length v) s) @ t) = match_at vs (drop p (drop (length v) s))"
          if "p < e - length v" for p
          using less.prems(3) [of "p + length v"] that by (simp add: add.commute)
      qed (use v less.prems(2) in \<open>simp_all del: length_greater_0_conv\<close>)
      moreover have "match_at vs (take e s) = Some v" using Some inside match_at_take [of vs s e] by auto
      moreover have "match_at vs (s @ t) = Some v" using Some same by simp
      ultimately show ?thesis
        using v inside by (simp add: substitute_match drop_take)
    qed
  qed simp
qed

lemma held_back_matches:
  assumes "p < length s - partial_suffix_length vs s"
  shows "match_at vs (drop p s @ t) = match_at vs (drop p s)"
proof (rule match_at_cong)
  fix v assume v: "v \<in> set vs" "v \<noteq> []"
  show "prefix v (drop p s @ t) \<longleftrightarrow> prefix v (drop p s)"
  proof
    assume ext: "prefix v (drop p s @ t)"
    show "prefix v (drop p s)"
    proof (rule ccontr)
      assume "\<not> prefix v (drop p s)"
      then have "strict_prefix (drop p s) v"
        using ext by (auto simp: prefix_append strict_prefix_def)
      moreover have "suffix (drop p s) s" by (rule suffix_drop)
      moreover have "drop p s \<noteq> []" using assms by simp
      ultimately have "length (drop p s) \<le> partial_suffix_length vs s"
        using partial_suffix_covers [OF v(1)] by blast
      then show False using assms by simp
    qed
  qed simp
qed

lemma feed_exact_ok:
  assumes "feed_exact vs pending payload = (out, pending')" and "vs = [] \<Longrightarrow> pending = []"
  shows "(vs = [] \<longrightarrow> pending' = []) \<and>
    substitute vs (pending @ payload @ rest) = out @ substitute vs (pending' @ rest)"
proof (cases "vs = []")
  case True
  then show ?thesis using assms by (auto simp: feed_exact_def)
next
  case False
  let ?s = "pending @ payload"
  let ?e = "protect (spans vs 0 ?s) (length ?s - partial_suffix_length vs ?s)"
  have e: "\<not> straddles (spans vs 0 ?s) (0 + ?e)" "?e \<le> length ?s - partial_suffix_length vs ?s"
    using protect_cuts_none [of "spans vs 0 ?s"] by simp_all
  have "substitute vs (?s @ rest) = substitute vs (take ?e ?s) @ substitute vs (drop ?e ?s @ rest)"
    by (rule substitute_cut [OF e(1)]) (use e(2) held_back_matches [of _ ?s vs rest] in auto)
  then show ?thesis using assms False by (auto simp: feed_exact_def Let_def)
qed

lemma feed_all_exact_ok:
  "(vs = [] \<Longrightarrow> pending = []) \<Longrightarrow> feed_all_exact vs pending chunks = substitute vs (pending @ concat chunks)"
proof (induction chunks arbitrary: pending)
  case Nil
  then show ?case by (simp add: finish_exact_def)
next
  case (Cons c cs)
  obtain out pending' where f: "feed_exact vs pending c = (out, pending')" by fastforce
  note ok = feed_exact_ok [OF f Cons.prems, of "concat cs"]
  then have "feed_all_exact vs pending' cs = substitute vs (pending' @ concat cs)"
    by (intro Cons.IH) simp
  then show ?case using f ok by simp
qed

theorem redaction_ignores_chunks:
  "redact_exact values chunks = substitute (ordered_values values) (concat chunks)"
  by (simp add: redact_exact_def feed_all_exact_ok)

section \<open>No secret gets through\<close>

text \<open>
  The output once more, by positions: a byte outside of every match is copied, a match is replaced as a
  whole.  Whatever the values are, the first byte of every occurrence of one of them is inside a match.
\<close>

definition in_span :: "(nat \<times> nat) list \<Rightarrow> nat \<Rightarrow> bool" where
  "in_span ms p \<longleftrightarrow> list_ex (\<lambda>(b, f). b \<le> p \<and> p < f) ms"

fun render :: "(nat \<times> nat) list \<Rightarrow> nat \<Rightarrow> string \<Rightarrow> string" where
  "render ms i [] = []"
| "render ms i (c # cs) =
     (if list_ex (\<lambda>(b, f). b = i) ms then REDACTED else if in_span ms i then [] else [c]) @ render ms (Suc i) cs"

definition secret_at :: "string list \<Rightarrow> string \<Rightarrow> nat \<Rightarrow> bool" where
  "secret_at values s p \<longleftrightarrow> list_ex (\<lambda>v. v \<noteq> [] \<and> prefix v (drop p s)) values"

lemma spans_from: "list_all (\<lambda>(b, f). i \<le> b \<and> b < f) (spans vs i s)"
proof (induction vs i s rule: spans.induct)
  case (1 vs i s)
  show ?case
  proof (cases s)
    case Nil
    then show ?thesis by (simp add: spans.simps)
  next
    case (Cons c cs)
    show ?thesis
    proof (cases "match_at vs s")
      case None
      then show ?thesis using 1(1) [OF _ None] Cons by (fastforce simp: spans_step list_all_iff)
    next
      case (Some v)
      have "list_all (\<lambda>(b, f). i + length v \<le> b \<and> b < f) (spans vs (i + length v) (drop (length v) s))"
        using 1(2) [OF _ Some] Cons by simp
      then show ?thesis using match_at_shorter [OF Some]
        unfolding spans_match [OF Some] list_all_iff by fastforce
    qed
  qed
qed

lemma render_skips:
  "(\<And>q. q < n \<Longrightarrow> in_span ms (i + q) \<and> \<not> list_ex (\<lambda>(b, f). b = i + q) ms) \<Longrightarrow>
     render ms i s = render ms (i + n) (drop n s)"
proof (induction n arbitrary: i s)
  case (Suc n)
  show ?case
  proof (cases s)
    case (Cons c cs)
    have "render ms (Suc i) cs = render ms (Suc i + n) (drop n cs)"
    proof (rule Suc.IH)
      show "in_span ms (Suc i + q) \<and> \<not> list_ex (\<lambda>(b, f). b = Suc i + q) ms" if "q < n" for q
        using Suc.prems [of "Suc q"] that by simp
    qed
    then show ?thesis using Suc.prems [of 0] Cons by simp
  qed simp
qed simp

lemma render_passed: "b < i \<Longrightarrow> f \<le> i \<Longrightarrow> render ((b, f) # ms) i s = render ms i s"
  by (induction ms i s rule: render.induct) (auto simp: in_span_def)

lemma render_spans: "render (spans vs i s) i s = substitute vs s"
proof (induction vs i s rule: spans.induct)
  case (1 vs i s)
  show ?case
  proof (cases s)
    case Nil
    then show ?thesis by simp
  next
    case (Cons c cs)
    show ?thesis
    proof (cases "match_at vs s")
      case None
      have "\<not> list_ex (\<lambda>(b, f). b = i) (spans vs (Suc i) cs) \<and> \<not> in_span (spans vs (Suc i) cs) i"
        using spans_from [of "Suc i" vs cs] by (auto simp: list_ex_iff list_all_iff in_span_def)
      then show ?thesis using 1(1) [OF _ None] None Cons by (simp add: spans_step substitute_step)
    next
      case (Some v)
      let ?rest = "spans vs (i + length v) (drop (length v) s)"
      have v: "0 < length v" "length v \<le> length s" using match_at_shorter [OF Some] by simp_all
      have rest: "list_all (\<lambda>(b, f). i + length v \<le> b \<and> b < f) ?rest" by (rule spans_from)
      have "render ((i, i + length v) # ?rest) (Suc i) cs =
          render ((i, i + length v) # ?rest) (Suc i + (length v - 1)) (drop (length v - 1) cs)"
        using rest by (intro render_skips) (auto simp: in_span_def list_ex_iff list_all_iff)
      also have "\<dots> = render ?rest (i + length v) (drop (length v) s)"
        using v Cons by (cases v) (simp_all add: render_passed)
      also have "\<dots> = substitute vs (drop (length v) s)" using 1(2) [OF _ Some] Cons by simp
      finally show ?thesis
        using Some Cons by (simp add: spans_match substitute_match)
    qed
  qed
qed

lemma occurrence_hit:
  assumes "v \<in> set vs" and "v \<noteq> []" and "prefix v (drop p s)"
  shows "in_span (spans vs i s) (i + p)"
  using assms
proof (induction vs i s arbitrary: p rule: spans.induct)
  case (1 vs i s)
  then obtain c cs where s: "s = c # cs" by (cases s) auto
  show ?case
  proof (cases "match_at vs s")
    case None
    then have "p \<noteq> 0"
      using 1(3-5) unfolding match_at_def find_None_iff by (cases p) auto
    then obtain q where q: "p = Suc q" by (cases p) auto
    have "in_span (spans vs (Suc i) (tl s)) (Suc i + q)"
      using 1(1) [OF _ None] 1(3-5) s q by simp
    then show ?thesis using None s q by (simp add: spans_step)
  next
    case (Some w)
    show ?thesis
    proof (cases "p < length w")
      case True
      then show ?thesis by (simp add: spans_match [OF Some] in_span_def)
    next
      case False
      have "in_span (spans vs (i + length w) (drop (length w) s)) (i + length w + (p - length w))"
        using 1(2) [OF _ Some, of "p - length w"] 1(3-5) s False by simp
      then show ?thesis using False by (simp add: spans_match [OF Some] in_span_def)
    qed
  qed
qed

lemma set_ordered_values: "set (ordered_values values) = {v \<in> set values. v \<noteq> []}"
  by (auto simp: ordered_values_def)

text \<open>
  However the stream is cut into chunks, the output is the stream with the matches of the pattern
  replaced, and the first byte of every occurrence of a secret is inside one of them.
\<close>

theorem exact_redacted:
  "let s = concat chunks; ms = spans (ordered_values values) 0 s in
     redact_exact values chunks = render ms 0 s \<and>
     filter (\<lambda>p. secret_at values s p \<and> \<not> in_span ms p) [0..<length s] = []"
proof -
  let ?s = "concat chunks"
  let ?ms = "spans (ordered_values values) 0 ?s"
  have "in_span ?ms p" if secret: "secret_at values ?s p" for p
  proof -
    obtain v where "v \<in> set values" "v \<noteq> []" "prefix v (drop p ?s)"
      using secret by (auto simp: secret_at_def list_ex_iff)
    then show ?thesis using occurrence_hit [of v "ordered_values values" p ?s 0] by (simp add: set_ordered_values)
  qed
  then have "filter (\<lambda>p. secret_at values ?s p \<and> \<not> in_span ?ms p) [0..<length ?s] = []"
    by (auto simp: filter_empty_conv)
  then show ?thesis
    by (simp add: Let_def redaction_ignores_chunks render_spans)
qed

end
