(* ===== verification/LogPatterns.thy ===== *)
theory LogPatterns
  imports LogRedaction
begin

text \<open>
  \<open>StreamingPatternRedactor\<close> of \<open>guest/tx9-logs\<close>: a scanner that replaces what follows a
  credential-shaped key in a byte stream, and \<open>StreamingRedactor\<close>, which runs it in front of the
  redaction of exact values.
\<close>

section \<open>The scanner\<close>

datatype scan_state =
    Scan | SuppressQuoted | Suppress | BearerGap | AfterKey | KeyPercent | KeyPercent3 | ValueGap

record scanner =
  scan_state :: scan_state
  word_length :: nat
  word_tail :: string
  word_sensitive :: bool
  key_kind :: string
  key_quote_allowed :: bool
  value_quote_allowed :: bool
  value_delimiters :: "char list"
  value_quote :: char
  value_escaped :: bool
  value_suppressed :: nat

definition WORD_TAIL_BYTES :: nat where "WORD_TAIL_BYTES = 24"
definition MAX_QUOTED_SECRET_BYTES :: nat where "MAX_QUOTED_SECRET_BYTES = 8 * 1024"

definition hspace :: "char list" where "hspace = [CHR '' '', CHR 0x09]"
definition quotes :: "char list" where "quotes = [CHR 0x22, CHR 0x27]"
definition line_ends :: "char list" where "line_ends = [CHR 0x0D, CHR 0x0A]"

definition BEARER_DELIMITERS :: "char list" where
  "BEARER_DELIMITERS = hspace @ line_ends @ [CHR '','', CHR '';''] @ quotes"

definition VALUE_DELIMITERS :: "char list" where
  "VALUE_DELIMITERS = hspace @ line_ends @ [CHR ''&'', CHR '';'', CHR '','', CHR ''}'', CHR '']''] @ quotes"

definition LINE_DELIMITERS :: "char list" where "LINE_DELIMITERS = line_ends"

definition SENSITIVE_MARKERS :: "string list" where
  "SENSITIVE_MARKERS =
     [''password'', ''passwd'', ''secret'', ''apikey'', ''api_key'', ''api-key'', ''authorization'', ''cookie'']"

text \<open>The bytes of \<open>[A-Za-z0-9_.-]\<close>.\<close>

definition word_byte :: "char \<Rightarrow> bool" where
  "word_byte c \<longleftrightarrow>
     (let n = of_char c :: nat in
      65 \<le> n \<and> n \<le> 90 \<or> 97 \<le> n \<and> n \<le> 122 \<or> 48 \<le> n \<and> n \<le> 57 \<or> n = 95 \<or> n = 46 \<or> n = 45)"

definition last_bytes :: "nat \<Rightarrow> string \<Rightarrow> string" where
  "last_bytes n s = drop (length s - n) s"

definition start_scanner :: scanner where
  "start_scanner =
     \<lparr>scan_state = Scan, word_length = 0, word_tail = [], word_sensitive = False, key_kind = [],
      key_quote_allowed = True, value_quote_allowed = True, value_delimiters = VALUE_DELIMITERS,
      value_quote = CHR 0x00, value_escaped = False, value_suppressed = 0\<rparr>"

section \<open>Words\<close>

definition word_ends :: "scanner \<Rightarrow> string \<Rightarrow> bool" where
  "word_ends \<sigma> value \<longleftrightarrow> length value \<le> word_length \<sigma> \<and> suffix value (word_tail \<sigma>)"

definition word_has_boundary_suffix :: "scanner \<Rightarrow> string \<Rightarrow> bool" where
  "word_has_boundary_suffix \<sigma> value \<longleftrightarrow>
     word_ends \<sigma> value \<and>
     (word_length \<sigma> = length value \<or>
      (let offset = length value + 1 in
       offset \<le> length (word_tail \<sigma>) \<and>
       word_tail \<sigma> ! (length (word_tail \<sigma>) - offset) \<in> {CHR ''.'', CHR ''-''}))"

definition append_word :: "scanner \<Rightarrow> string \<Rightarrow> scanner" where
  "append_word \<sigma> value =
     (let lowered = map lower_byte value;
          boundary = word_tail \<sigma> @ take WORD_TAIL_BYTES lowered in
      \<sigma>\<lparr>word_length := word_length \<sigma> + length value,
        word_sensitive := word_sensitive \<sigma> \<or>
          list_ex (\<lambda>m. sublist m lowered \<or> sublist m boundary) SENSITIVE_MARKERS,
        word_tail := last_bytes WORD_TAIL_BYTES (word_tail \<sigma> @ last_bytes WORD_TAIL_BYTES lowered)\<rparr>)"

definition reset_word :: "scanner \<Rightarrow> scanner" where
  "reset_word \<sigma> = \<sigma>\<lparr>word_length := 0, word_tail := [], word_sensitive := False\<rparr>"

definition classify_word :: "scanner \<Rightarrow> string" where
  "classify_word \<sigma> =
     (if word_has_boundary_suffix \<sigma> ''bearer'' then ''bearer''
      else if word_has_boundary_suffix \<sigma> ''authorization'' \<or> word_has_boundary_suffix \<sigma> ''proxy-authorization''
        then ''authorization''
      else if word_has_boundary_suffix \<sigma> ''cookie'' \<or> word_has_boundary_suffix \<sigma> ''set-cookie'' then ''cookie''
      else if word_ends \<sigma> ''token'' \<or> word_sensitive \<sigma> then ''value''
      else [])"

definition reset_scan :: "scanner \<Rightarrow> scanner" where
  "reset_scan \<sigma> =
     reset_word (\<sigma>\<lparr>scan_state := Scan, key_kind := [], key_quote_allowed := True, value_quote_allowed := True,
       value_delimiters := VALUE_DELIMITERS\<rparr>)"

definition start_suppression :: "scanner \<Rightarrow> char list \<Rightarrow> scanner" where
  "start_suppression \<sigma> delimiters = \<sigma>\<lparr>scan_state := Suppress, value_delimiters := delimiters\<rparr>"

section \<open>The loop\<close>

text \<open>
  \<open>feed\<close> on the rest of a chunk.  A state that does not take the byte resets the scan and looks at the
  same byte again, which can happen twice at most: from the end of a word to the gap after a key, and
  from there back to the scan.
\<close>

fun rank :: "scanner \<Rightarrow> nat" where
  "rank \<sigma> =
     (case scan_state \<sigma> of
        Scan \<Rightarrow> (if word_length \<sigma> = 0 then 0 else 2)
      | AfterKey \<Rightarrow> 1 | KeyPercent \<Rightarrow> 1 | KeyPercent3 \<Rightarrow> 1
      | _ \<Rightarrow> 0)"

definition put :: "string \<Rightarrow> string \<times> scanner \<Rightarrow> string \<times> scanner" where
  "put out r = (out @ fst r, snd r)"

definition quoted_byte :: "scanner \<Rightarrow> char \<Rightarrow> string \<times> scanner" where
  "quoted_byte \<sigma> c =
     (if \<not> value_escaped \<sigma> \<and> c \<noteq> CHR 0x5C \<and> c = value_quote \<sigma> then ([c], reset_scan \<sigma>)
      else
        (let \<sigma>1 = \<sigma>\<lparr>value_escaped := \<not> value_escaped \<sigma> \<and> c = CHR 0x5C,
                   value_suppressed := value_suppressed \<sigma> + 1\<rparr>
         in ([], if MAX_QUOTED_SECRET_BYTES \<le> value_suppressed \<sigma>1 then reset_scan \<sigma>1 else \<sigma>1)))"

definition key_delimiters :: "scanner \<Rightarrow> char \<Rightarrow> char list" where
  "key_delimiters \<sigma> c =
     (if key_kind \<sigma> = ''authorization'' \<or> key_kind \<sigma> = ''cookie'' \<and> c = CHR '':''
      then LINE_DELIMITERS else VALUE_DELIMITERS)"

definition open_quote :: "scanner \<Rightarrow> char \<Rightarrow> string \<times> scanner" where
  "open_quote \<sigma> c =
     (if value_delimiters \<sigma> \<noteq> LINE_DELIMITERS
      then (c # REDACTED, \<sigma>\<lparr>value_quote_allowed := False, value_quote := c, value_escaped := False,
              value_suppressed := 0, scan_state := SuppressQuoted\<rparr>)
      else ([c], \<sigma>\<lparr>value_quote_allowed := False\<rparr>))"

lemma dropWhile_shorter: "dropWhile P cs = d # ds \<Longrightarrow> length ds < length cs"
  by (metis length_dropWhile_le length_Cons Suc_le_lessD)

lemma resets [simp]:
  "scan_state (reset_scan \<sigma>) = Scan" "word_length (reset_scan \<sigma>) = 0"
  "word_length (reset_word \<sigma>) = 0" "scan_state (reset_word \<sigma>) = scan_state \<sigma>"
  "word_tail (reset_scan \<sigma>) = []" "\<not> word_sensitive (reset_scan \<sigma>)"
  "word_tail (reset_word \<sigma>) = []" "\<not> word_sensitive (reset_word \<sigma>)"
  "key_kind (reset_scan \<sigma>) = []"
  by (simp_all add: reset_scan_def reset_word_def)

function feed :: "scanner \<Rightarrow> string \<Rightarrow> string \<times> scanner" where
  "feed \<sigma> [] = ([], \<sigma>)"
| "feed \<sigma> (c # cs) =
     (case scan_state \<sigma> of
        SuppressQuoted \<Rightarrow> (case quoted_byte \<sigma> c of (out, \<sigma>') \<Rightarrow> put out (feed \<sigma>' cs))
      | Suppress \<Rightarrow>
          (case dropWhile (\<lambda>b. b \<notin> set (value_delimiters \<sigma>)) (c # cs) of
             [] \<Rightarrow> ([], \<sigma>)
           | d # ds \<Rightarrow> put [d] (feed (reset_scan \<sigma>) ds))
      | BearerGap \<Rightarrow>
          put (takeWhile (\<lambda>b. b \<in> set hspace) (c # cs))
            (case dropWhile (\<lambda>b. b \<in> set hspace) (c # cs) of
               [] \<Rightarrow> ([], \<sigma>)
             | d # ds \<Rightarrow>
                 if d \<in> set BEARER_DELIMITERS then put [d] (feed (reset_scan \<sigma>) ds)
                 else put REDACTED (feed (start_suppression \<sigma> BEARER_DELIMITERS) ds))
      | AfterKey \<Rightarrow>
          if key_quote_allowed \<sigma> \<and> c \<in> set quotes then put [c] (feed (\<sigma>\<lparr>key_quote_allowed := False\<rparr>) cs)
          else if c \<in> set hspace then
            put (takeWhile (\<lambda>b. b \<in> set hspace) (c # cs)) (feed \<sigma> (dropWhile (\<lambda>b. b \<in> set hspace) (c # cs)))
          else if c \<in> {CHR ''='', CHR '':''} then
            put [c] (feed (\<sigma>\<lparr>value_delimiters := key_delimiters \<sigma> c, scan_state := ValueGap\<rparr>) cs)
          else if c = CHR ''%'' then put [c] (feed (\<sigma>\<lparr>scan_state := KeyPercent\<rparr>) cs)
          else feed (reset_scan \<sigma>) (c # cs)
      | KeyPercent \<Rightarrow>
          if c = CHR ''3'' then put [c] (feed (\<sigma>\<lparr>scan_state := KeyPercent3\<rparr>) cs)
          else feed (reset_scan \<sigma>) (c # cs)
      | KeyPercent3 \<Rightarrow>
          if c \<in> {CHR ''d'', CHR ''D''} then
            put [c] (feed (\<sigma>\<lparr>value_delimiters := VALUE_DELIMITERS, scan_state := ValueGap\<rparr>) cs)
          else feed (reset_scan \<sigma>) (c # cs)
      | ValueGap \<Rightarrow>
          if c \<in> set hspace then
            put (takeWhile (\<lambda>b. b \<in> set hspace) (c # cs)) (feed \<sigma> (dropWhile (\<lambda>b. b \<in> set hspace) (c # cs)))
          else if value_quote_allowed \<sigma> \<and> c \<in> set quotes then
            (case open_quote \<sigma> c of (out, \<sigma>') \<Rightarrow> put out (feed \<sigma>' cs))
          else if c \<in> set (value_delimiters \<sigma>) then put [c] (feed (reset_scan \<sigma>) cs)
          else put REDACTED (feed (start_suppression \<sigma> (value_delimiters \<sigma>)) cs)
      | Scan \<Rightarrow>
          if word_byte c then
            put (takeWhile word_byte (c # cs))
              (feed (append_word \<sigma> (takeWhile word_byte (c # cs))) (dropWhile word_byte (c # cs)))
          else if word_length \<sigma> \<noteq> 0 then
            (let kind = classify_word \<sigma>; \<sigma>1 = reset_word \<sigma> in
             if kind = ''bearer'' \<and> c \<in> set hspace then put [c] (feed (\<sigma>1\<lparr>scan_state := BearerGap\<rparr>) cs)
             else if kind \<noteq> [] then
               feed (\<sigma>1\<lparr>key_kind := kind, key_quote_allowed := True, value_quote_allowed := True,
                       scan_state := AfterKey\<rparr>) (c # cs)
             else feed \<sigma>1 (c # cs))
          else
            put (takeWhile (\<lambda>b. \<not> word_byte b) (c # cs)) (feed \<sigma> (dropWhile (\<lambda>b. \<not> word_byte b) (c # cs))))"
  by pat_completeness auto

termination
proof (relation "measures [\<lambda>(\<sigma>, s). length s, \<lambda>(\<sigma>, s). rank \<sigma>]", goal_cases)
qed (auto dest: dropWhile_shorter intro: le_imp_less_Suc length_dropWhile_le split: if_splits)

declare feed.simps(2) [simp del]
declare rank.simps [simp del]

section \<open>Chunks do not matter\<close>

lemma put_simps [simp]:
  "put [] r = r" "put a (put b r) = put (a @ b) r" "fst (put out r) = out @ fst r" "snd (put out r) = snd r"
  by (simp_all add: put_def)

lemma last_bytes_rev: "last_bytes n s = rev (take n (rev s))"
  by (simp add: last_bytes_def rev_take)

lemma last_bytes_append: "last_bytes n (last_bytes n a @ b) = last_bytes n (a @ b)"
  by (simp add: last_bytes_rev min_def)

lemma last_bytes_inner: "last_bytes n (a @ last_bytes n b) = last_bytes n (a @ b)"
  by (cases "length b \<le> n") (simp_all add: last_bytes_rev)

text \<open>
  A marker in a word is found whether the word comes as a whole or in pieces: a marker that crosses two
  pieces lies within the 24 bytes around the cut.
\<close>

lemma sublist_cut:
  assumes "length m \<le> Suc n"
  shows "sublist m (a @ b) \<longleftrightarrow> sublist m a \<or> sublist m b \<or> sublist m (last_bytes n a @ take n b)"
proof
  assume "sublist m (a @ b)"
  then consider "sublist m a" | "sublist m b" | x y where "m = x @ y" "suffix x a" "prefix y b"
    by (auto simp: sublist_append)
  then show "sublist m a \<or> sublist m b \<or> sublist m (last_bytes n a @ take n b)"
  proof cases
    case (3 x y)
    show ?thesis
    proof (cases "x = [] \<or> y = []")
      case True
      then show ?thesis using 3 by (auto intro: prefix_imp_sublist suffix_imp_sublist)
    next
      case False
      then have "length x \<le> n" "length y \<le> n" using assms 3(1) by (cases x; cases y; simp)+
      moreover have "suffix x (last_bytes n a)"
        using 3(2) \<open>length x \<le> n\<close> by (auto simp: suffix_def last_bytes_def)
      moreover have "prefix y (take n b)"
        using 3(3) \<open>length y \<le> n\<close> by (auto simp: prefix_def)
      ultimately show ?thesis unfolding 3(1) sublist_append by blast
    qed
  qed auto
next
  assume "sublist m a \<or> sublist m b \<or> sublist m (last_bytes n a @ take n b)"
  moreover have "sublist (last_bytes n a @ take n b) (a @ b)"
    unfolding last_bytes_def
    by (metis append_assoc append_take_drop_id sublist_appendI)
  ultimately show "sublist m (a @ b)"
    by (auto intro: sublist_order.order.trans sublist_append_rightI sublist_append_leftI)
qed

lemma sublist_window:
  fixes m a b :: string
  assumes "length m \<le> Suc n"
  shows "sublist m b \<or> sublist m (a @ take n b) \<longleftrightarrow> sublist m (a @ b)"
proof -
  have "sublist (a @ take n b) (a @ b)" by (metis append_assoc append_take_drop_id sublist_append_rightI)
  moreover have "sublist (last_bytes n a @ take n b) (a @ take n b)"
    unfolding last_bytes_def by (metis append_assoc append_take_drop_id sublist_append_leftI)
  ultimately show ?thesis
    unfolding sublist_cut [OF assms, of a b]
    by (meson assms sublist_append sublist_cut sublist_order.order.trans)
qed

lemma markers_short: "m \<in> set SENSITIVE_MARKERS \<Longrightarrow> length m \<le> Suc WORD_TAIL_BYTES"
  by (auto simp: SENSITIVE_MARKERS_def WORD_TAIL_BYTES_def)

lemma append_word_append: "append_word (append_word \<sigma> a) b = append_word \<sigma> (a @ b)"
proof -
  let ?a = "map lower_byte a" and ?b = "map lower_byte b" and ?t = "word_tail \<sigma>" and ?n = WORD_TAIL_BYTES
  have one: "(sublist m ?a \<or> sublist m (?t @ take ?n ?a)) \<or>
        (sublist m ?b \<or> sublist m (last_bytes ?n (?t @ ?a) @ take ?n ?b)) \<longleftrightarrow>
      sublist m (?a @ ?b) \<or> sublist m (?t @ take ?n (?a @ ?b))"
    if "m \<in> set SENSITIVE_MARKERS" for m
    using sublist_window [OF markers_short [OF that], of ?a ?t] sublist_window [OF markers_short [OF that], of "?a @ ?b" ?t]
      sublist_cut [OF markers_short [OF that], of "?t @ ?a" ?b] by auto
  have "list_ex (\<lambda>m. sublist m ?a \<or> sublist m (?t @ take ?n ?a)) SENSITIVE_MARKERS \<or>
      list_ex (\<lambda>m. sublist m ?b \<or> sublist m (last_bytes ?n (?t @ ?a) @ take ?n ?b)) SENSITIVE_MARKERS \<longleftrightarrow>
      list_ex (\<lambda>m. sublist m (?a @ ?b) \<or> sublist m (?t @ take ?n (?a @ ?b))) SENSITIVE_MARKERS"
    using one unfolding list_ex_iff by blast
  then show ?thesis
    by (simp only: append_word_def Let_def map_append length_append last_bytes_inner last_bytes_append
        scanner.simps disj_assoc append_assoc) (simp add: last_bytes_append)
qed

text \<open>The equations of the states that take a whole run of bytes, for the empty rest as well.\<close>

definition in_gap :: "scanner \<Rightarrow> bool" where
  "in_gap \<sigma> \<longleftrightarrow> scan_state \<sigma> \<in> {AfterKey, ValueGap}"

lemma hspace_not_quote: "c \<in> set hspace \<Longrightarrow> c \<notin> set quotes"
  by (auto simp: hspace_def quotes_def)

lemma feed_suppress:
  "scan_state \<sigma> = Suppress \<Longrightarrow> feed \<sigma> s =
     (case dropWhile (\<lambda>b. b \<notin> set (value_delimiters \<sigma>)) s of
        [] \<Rightarrow> ([], \<sigma>) | d # ds \<Rightarrow> put [d] (feed (reset_scan \<sigma>) ds))"
  by (cases s) (simp_all add: feed.simps(2))

lemma feed_bearer_gap:
  "scan_state \<sigma> = BearerGap \<Longrightarrow> feed \<sigma> s =
     put (takeWhile (\<lambda>b. b \<in> set hspace) s)
       (case dropWhile (\<lambda>b. b \<in> set hspace) s of
          [] \<Rightarrow> ([], \<sigma>)
        | d # ds \<Rightarrow>
            if d \<in> set BEARER_DELIMITERS then put [d] (feed (reset_scan \<sigma>) ds)
            else put REDACTED (feed (start_suppression \<sigma> BEARER_DELIMITERS) ds))"
  by (cases s) (simp_all add: feed.simps(2))

lemma feed_gap_run:
  "in_gap \<sigma> \<Longrightarrow> feed \<sigma> s = put (takeWhile (\<lambda>b. b \<in> set hspace) s) (feed \<sigma> (dropWhile (\<lambda>b. b \<in> set hspace) s))"
proof (cases s)
  case (Cons c cs)
  assume "in_gap \<sigma>"
  then show ?thesis
    unfolding Cons by (cases "c \<in> set hspace") (auto simp: feed.simps(2) [of \<sigma> c cs] in_gap_def hspace_not_quote)
qed simp

lemma feed_scan_run:
  "scan_state \<sigma> = Scan \<Longrightarrow> word_length \<sigma> = 0 \<Longrightarrow>
     feed \<sigma> s = put (takeWhile (\<lambda>b. \<not> word_byte b) s) (feed \<sigma> (dropWhile (\<lambda>b. \<not> word_byte b) s))"
proof (cases s)
  case (Cons c cs)
  assume "scan_state \<sigma> = Scan" "word_length \<sigma> = 0"
  then show ?thesis
    unfolding Cons by (cases "word_byte c") (auto simp: feed.simps(2) [of \<sigma> c cs])
qed simp

lemma feed_word_run:
  assumes "scan_state \<sigma> = Scan" and "takeWhile word_byte s \<noteq> []"
  shows "feed \<sigma> s = put (takeWhile word_byte s) (feed (append_word \<sigma> (takeWhile word_byte s)) (dropWhile word_byte s))"
proof (cases s)
  case (Cons c cs)
  then have "word_byte c" using assms(2) by (auto split: if_splits)
  then show ?thesis using assms(1) unfolding Cons by (subst feed.simps(2)) simp
qed (use assms in simp)

text \<open>A run that ends inside the first chunk, and one that reaches its end.\<close>

lemma run_append:
  assumes run: "\<And>s. feed \<sigma> s = put (takeWhile P s) (feed \<sigma> (dropWhile P s))"
    and rest: "feed \<sigma> (dropWhile P s @ t) = put (fst (feed \<sigma> (dropWhile P s))) (feed (snd (feed \<sigma> (dropWhile P s))) t)"
  shows "feed \<sigma> (s @ t) = put (fst (feed \<sigma> s)) (feed (snd (feed \<sigma> s)) t)"
proof (cases "dropWhile P s = []")
  case True
  then have all: "\<And>x. x \<in> set s \<Longrightarrow> P x" by (simp add: dropWhile_eq_Nil_conv)
  then have "feed \<sigma> s = (s, \<sigma>)" using run [of s] True by (simp add: takeWhile_eq_all_conv put_def)
  moreover have "feed \<sigma> (s @ t) = put (s @ takeWhile P t) (feed \<sigma> (dropWhile P t))"
    using run [of "s @ t"] all by simp
  moreover have "put s (feed \<sigma> t) = put (s @ takeWhile P t) (feed \<sigma> (dropWhile P t))"
    by (subst run [of t]) simp
  ultimately show ?thesis by simp
next
  case False
  then obtain x where "x \<in> set s" "\<not> P x" by (auto simp: dropWhile_eq_Nil_conv)
  then have "takeWhile P (s @ t) = takeWhile P s" "dropWhile P (s @ t) = dropWhile P s @ t"
    by (simp_all add: takeWhile_append1 dropWhile_append1)
  then show ?thesis using run [of "s @ t"] run [of s] rest by simp
qed

abbreviation splits_at :: "scanner \<Rightarrow> string \<Rightarrow> string \<Rightarrow> bool" where
  "splits_at \<sigma> s t \<equiv> feed \<sigma> (s @ t) = put (fst (feed \<sigma> s)) (feed (snd (feed \<sigma> s)) t)"

lemma splits_at_Nil: "splits_at \<sigma> [] t" by simp

lemma word_append:
  assumes "scan_state \<sigma> = Scan" and w: "takeWhile word_byte s \<noteq> []"
    and rest: "splits_at (append_word \<sigma> (takeWhile word_byte s)) (dropWhile word_byte s) t"
  shows "splits_at \<sigma> s t"
proof (cases "dropWhile word_byte s = []")
  case True
  then have all: "\<And>x. x \<in> set s \<Longrightarrow> word_byte x" and s: "takeWhile word_byte s = s" "s \<noteq> []"
    using w by (auto simp: dropWhile_eq_Nil_conv takeWhile_eq_all_conv)
  have first: "feed \<sigma> s = (s, append_word \<sigma> s)"
    using feed_word_run [OF assms(1) w] True s by (simp add: put_def)
  have state: "scan_state (append_word \<sigma> s) = Scan" using assms(1) by (simp add: append_word_def Let_def)
  have "feed \<sigma> (s @ t) = put (s @ takeWhile word_byte t)
      (feed (append_word \<sigma> (s @ takeWhile word_byte t)) (dropWhile word_byte t))"
    using feed_word_run [OF assms(1), of "s @ t"] all s by simp
  also have "\<dots> = put s (feed (append_word \<sigma> s) t)"
  proof (cases "takeWhile word_byte t = []")
    case True
    then have "dropWhile word_byte t = t" by (metis takeWhile_dropWhile_id append_Nil)
    then show ?thesis using True by simp
  next
    case False
    show ?thesis
      using feed_word_run [OF state False] by (simp add: append_word_append)
  qed
  finally show ?thesis using first by simp
next
  case False
  then obtain x where "x \<in> set s" "\<not> word_byte x" by (auto simp: dropWhile_eq_Nil_conv)
  then have "takeWhile word_byte (s @ t) = takeWhile word_byte s" "dropWhile word_byte (s @ t) = dropWhile word_byte s @ t"
    by (simp_all add: takeWhile_append1 dropWhile_append1)
  then show ?thesis
    using feed_word_run [OF assms(1), of "s @ t"] feed_word_run [OF assms(1) w] w rest by simp
qed

lemma rank_le: "rank \<sigma> \<le> 2" by (simp add: rank.simps split: scan_state.split)

lemma feed_append: "splits_at \<sigma> s t"
proof (induction "3 * length s + rank \<sigma>" arbitrary: \<sigma> s rule: less_induct)
  case less
  have shorter: "splits_at \<sigma>' s' t" if "length s' < length s" for \<sigma>' s'
    by (rule less.hyps) (use that rank_le [of \<sigma>'] in linarith)
  have lower: "splits_at \<sigma>' s t" if "rank \<sigma>' < rank \<sigma>" for \<sigma>'
    by (rule less.hyps) (use that in simp)
  show ?case
  proof (cases s)
    case Nil
    then show ?thesis by simp
  next
    case (Cons c cs)
    have cs: "splits_at \<sigma>' cs t" for \<sigma>' by (rule shorter) (simp add: Cons)
    have ds: "splits_at \<sigma>' ds t" if "dropWhile P s = d # ds" for P d ds \<sigma>'
      by (rule shorter) (rule dropWhile_shorter [OF that])
    have dropped: "dropWhile P (s @ t) = dropWhile P s @ t" "takeWhile P (s @ t) = takeWhile P s"
      if "dropWhile P s = d # ds" for P d ds
      using that by (metis dropWhile_append1 dropWhile_eq_Nil_conv list.distinct(1),
        metis takeWhile_append1 dropWhile_eq_Nil_conv list.distinct(1))
    have all: "dropWhile P (s @ t) = dropWhile P t" "takeWhile P (s @ t) = s @ takeWhile P t" "takeWhile P s = s"
      if "dropWhile P s = []" for P
      using that by (simp_all add: dropWhile_eq_Nil_conv takeWhile_eq_all_conv)
    note step = feed.simps(2) [of \<sigma> c "cs @ t"] feed.simps(2) [of \<sigma> c cs]
    show ?thesis
    proof (cases "scan_state \<sigma>")
      case SuppressQuoted
      then show ?thesis unfolding Cons by (simp add: step cs split: prod.split)
    next
      case Suppress
      show ?thesis
      proof (cases "dropWhile (\<lambda>b. b \<notin> set (value_delimiters \<sigma>)) s")
        case Nil
        then show ?thesis
          using feed_suppress [OF Suppress, of s] feed_suppress [OF Suppress, of "s @ t"] feed_suppress [OF Suppress, of t]
          by (simp add: all del: dropWhile_eq_Nil_conv)
      next
        case (Cons d ds')
        then show ?thesis
          using feed_suppress [OF Suppress, of s] feed_suppress [OF Suppress, of "s @ t"]
          by (simp add: dropped ds)
      qed
    next
      case BearerGap
      show ?thesis
      proof (cases "dropWhile (\<lambda>b. b \<in> set hspace) s")
        case Nil
        have "feed \<sigma> s = (s, \<sigma>)"
          unfolding feed_bearer_gap [OF BearerGap, of s] Nil all(3) [OF Nil] by (simp add: put_def)
        moreover have "feed \<sigma> (s @ t) = put s (feed \<sigma> t)"
          unfolding feed_bearer_gap [OF BearerGap, of "s @ t"] feed_bearer_gap [OF BearerGap, of t]
            all(1,2) [OF Nil] by simp
        ultimately show ?thesis by simp
      next
        case (Cons d ds')
        then show ?thesis
          using feed_bearer_gap [OF BearerGap, of s] feed_bearer_gap [OF BearerGap, of "s @ t"]
          by (simp add: dropped ds)
      qed
    next
      case KeyPercent
      then have "rank (reset_scan \<sigma>) < rank \<sigma>" by (simp add: rank.simps)
      then have "splits_at (reset_scan \<sigma>) (c # cs) t" using lower Cons by simp
      then show ?thesis using KeyPercent unfolding Cons by (simp add: step cs)
    next
      case KeyPercent3
      then have "rank (reset_scan \<sigma>) < rank \<sigma>" by (simp add: rank.simps)
      then have "splits_at (reset_scan \<sigma>) (c # cs) t" using lower Cons by simp
      then show ?thesis using KeyPercent3 unfolding Cons by (simp add: step cs)
    next
      case AfterKey
      then have "rank (reset_scan \<sigma>) < rank \<sigma>" by (simp add: rank.simps)
      then have low: "splits_at (reset_scan \<sigma>) (c # cs) t" using lower Cons by simp
      show ?thesis
      proof (cases "c \<in> set hspace")
        case True
        have "splits_at \<sigma> (dropWhile (\<lambda>b. b \<in> set hspace) s) t"
          by (rule shorter) (use True Cons in \<open>simp add: le_imp_less_Suc length_dropWhile_le\<close>)
        then show ?thesis by (rule run_append [OF feed_gap_run, rotated]) (simp add: in_gap_def AfterKey)
      next
        case False
        then show ?thesis using AfterKey low unfolding Cons by (auto simp: step cs)
      qed
    next
      case ValueGap
      show ?thesis
      proof (cases "c \<in> set hspace")
        case True
        have "splits_at \<sigma> (dropWhile (\<lambda>b. b \<in> set hspace) s) t"
          by (rule shorter) (use True Cons in \<open>simp add: le_imp_less_Suc length_dropWhile_le\<close>)
        then show ?thesis by (rule run_append [OF feed_gap_run, rotated]) (simp add: in_gap_def ValueGap)
      next
        case False
        then show ?thesis using ValueGap unfolding Cons by (simp add: step cs split: prod.split)
      qed
    next
      case Scan
      show ?thesis
      proof (cases "word_byte c")
        case True
        show ?thesis
          by (rule word_append [OF Scan])
            (use True Cons in \<open>auto intro!: shorter simp: le_imp_less_Suc length_dropWhile_le\<close>)
      next
        case False
        show ?thesis
        proof (cases "word_length \<sigma> = 0")
          case True
          have "splits_at \<sigma> (dropWhile (\<lambda>b. \<not> word_byte b) s) t"
            by (rule shorter) (use False Cons in \<open>simp add: le_imp_less_Suc length_dropWhile_le\<close>)
          then show ?thesis by (rule run_append [OF feed_scan_run [OF Scan True]])
        next
          case pending: False
          have "splits_at \<sigma>' (c # cs) t" if "rank \<sigma>' \<le> 1" for \<sigma>'
            using lower [of \<sigma>'] that Scan pending Cons by (simp add: rank.simps)
          then show ?thesis
            using Scan False pending unfolding Cons by (simp add: step cs Let_def rank.simps)
        qed
      qed
    qed
  qed
qed

fun feed_all :: "scanner \<Rightarrow> string list \<Rightarrow> string" where
  "feed_all \<sigma> [] = []"
| "feed_all \<sigma> (c # cs) = (case feed \<sigma> c of (out, \<sigma>') \<Rightarrow> out @ feed_all \<sigma>' cs)"

theorem patterns_ignore_chunks: "feed_all \<sigma> chunks = fst (feed \<sigma> (concat chunks))"
  by (induction chunks arbitrary: \<sigma>) (simp_all add: feed_append split_def)

section \<open>A credential\<close>

lemma word_ends_append:
  assumes "suffix value (map lower_byte key)" and "length value \<le> WORD_TAIL_BYTES"
  shows "word_ends (append_word start_scanner key) value"
proof -
  have "suffix value (last_bytes WORD_TAIL_BYTES (map lower_byte key))"
  proof (cases "WORD_TAIL_BYTES \<le> length key")
    case True
    then show ?thesis using suffix_of_end [OF assms(1,2)] by (simp add: last_bytes_def)
  next
    case False
    then show ?thesis using assms(1) by (simp add: last_bytes_def)
  qed
  then show ?thesis
    using suffix_length_le [OF assms(1)]
    by (simp add: word_ends_def append_word_def Let_def start_scanner_def) (simp add: last_bytes_def)
qed

lemma classify_token:
  assumes "suffix ''token'' (map lower_byte key)"
  shows "classify_word (append_word start_scanner key) = ''value''"
proof -
  have ends: "word_ends (append_word start_scanner key) ''token''"
    by (rule word_ends_append [OF assms]) (simp add: WORD_TAIL_BYTES_def)
  then have "suffix ''token'' (word_tail (append_word start_scanner key))" by (simp add: word_ends_def)
  then have "\<not> suffix ''bearer'' (word_tail (append_word start_scanner key))"
    "\<not> suffix ''cookie'' (word_tail (append_word start_scanner key))"
    "\<not> suffix ''set-cookie'' (word_tail (append_word start_scanner key))"
    "\<not> suffix ''authorization'' (word_tail (append_word start_scanner key))"
    "\<not> suffix ''proxy-authorization'' (word_tail (append_word start_scanner key))"
    by (auto simp: suffix_def)
  then show ?thesis using ends
    by (simp add: classify_word_def word_has_boundary_suffix_def word_ends_def)
qed

text \<open>
  After a key that ends in \<open>token\<close>, the value up to its delimiter is replaced, and what follows is
  scanned as if the stream started there: nothing the scanner does later depends on the value.
\<close>

lemma reset_append_word: "scan_state \<sigma> = Scan \<Longrightarrow> word_tail \<sigma> = [] \<Longrightarrow> \<not> word_sensitive \<sigma> \<Longrightarrow> word_length \<sigma> = 0 \<Longrightarrow>
    reset_word (append_word \<sigma> w) = \<sigma>"
  by (simp add: reset_word_def append_word_def Let_def)

theorem token_value_hidden:
  assumes "list_all word_byte key" and "suffix ''token'' (map lower_byte key)"
    and "sep \<in> {CHR ''='', CHR '':''}"
    and "value \<noteq> []" and "list_all (\<lambda>b. b \<notin> set VALUE_DELIMITERS) value" and "d \<in> set VALUE_DELIMITERS"
    and "concat chunks = key @ sep # value @ d # rest"
  shows "feed_all start_scanner chunks = key @ sep # REDACTED @ d # fst (feed start_scanner rest)"
proof -
  have key: "key \<noteq> []" "takeWhile word_byte key = key" "dropWhile word_byte key = []"
    using assms(1,2) by (auto simp: list_all_iff takeWhile_eq_all_conv)
  have sep: "\<not> word_byte sep" "sep \<notin> set hspace" "sep \<notin> set quotes"
    using assms(3) by (auto simp: word_byte_def hspace_def quotes_def)
  have scan: "scan_state start_scanner = Scan" "word_length start_scanner = 0" "word_tail start_scanner = []"
    "\<not> word_sensitive start_scanner"
    by (simp_all add: start_scanner_def)
  let ?w = "append_word start_scanner key"
  let ?k = "start_scanner\<lparr>key_kind := ''value'', key_quote_allowed := True, value_quote_allowed := True,
      scan_state := AfterKey\<rparr>"
  let ?g = "?k\<lparr>value_delimiters := VALUE_DELIMITERS, scan_state := ValueGap\<rparr>"
  have word: "scan_state ?w = Scan" "word_length ?w \<noteq> 0"
    using key by (simp_all add: append_word_def Let_def start_scanner_def)
  obtain v vs where v: "value = v # vs" using assms(4) by (cases "value") auto
  then have "v \<notin> set VALUE_DELIMITERS" using assms(5) by simp
  then have v': "v \<notin> set hspace" "v \<notin> set quotes" "v \<notin> set VALUE_DELIMITERS" by (simp_all add: VALUE_DELIMITERS_def)
  have "feed start_scanner (key @ sep # value @ d # rest) = put key (feed ?w (sep # value @ d # rest))"
    using feed_word_run [OF scan(1), of "key @ sep # value @ d # rest"] key sep assms(1)
    by (simp add: list_all_iff)
  also have "feed ?w (sep # value @ d # rest) = feed ?k (sep # value @ d # rest)"
    by (subst feed.simps(2)) (simp add: word sep classify_token [OF assms(2)] reset_append_word scan)
  also have "\<dots> = put [sep] (feed ?g (value @ d # rest))"
    using sep assms(3) by (subst feed.simps(2)) (auto simp: key_delimiters_def)
  also have "feed ?g (value @ d # rest) = put REDACTED (feed (start_suppression ?g VALUE_DELIMITERS) (vs @ d # rest))"
    unfolding v append_Cons by (subst feed.simps(2)) (simp add: v')
  also have "feed (start_suppression ?g VALUE_DELIMITERS) (vs @ d # rest) =
      put [d] (feed start_scanner rest)"
  proof -
    have "dropWhile (\<lambda>b. b \<notin> set VALUE_DELIMITERS) (vs @ d # rest) = d # rest"
      using assms(5,6) v by (simp add: list_all_iff dropWhile_append2)
    then show ?thesis
      by (subst feed_suppress) (simp_all add: start_suppression_def reset_scan_def reset_word_def start_scanner_def)
  qed
  finally show ?thesis by (simp add: patterns_ignore_chunks assms(7))
qed

section \<open>Both redactions\<close>

text \<open>\<open>StreamingRedactor\<close>: the patterns first, then the exact values; only the latter hold bytes back.\<close>

fun feed_stream :: "string list \<Rightarrow> scanner \<Rightarrow> string \<Rightarrow> string list \<Rightarrow> string" where
  "feed_stream vs \<sigma> pending [] = finish_exact vs pending"
| "feed_stream vs \<sigma> pending (c # cs) =
     (case feed \<sigma> c of (mid, \<sigma>') \<Rightarrow>
      case feed_exact vs pending mid of (out, pending') \<Rightarrow> out @ feed_stream vs \<sigma>' pending' cs)"

definition redact_stream :: "string list \<Rightarrow> string list \<Rightarrow> string" where
  "redact_stream values chunks = feed_stream (ordered_values values) start_scanner [] chunks"

fun scanned_chunks :: "scanner \<Rightarrow> string list \<Rightarrow> string list" where
  "scanned_chunks \<sigma> [] = []"
| "scanned_chunks \<sigma> (c # cs) = (case feed \<sigma> c of (mid, \<sigma>') \<Rightarrow> mid # scanned_chunks \<sigma>' cs)"

lemma feed_stream_eq: "feed_stream vs \<sigma> pending chunks = feed_all_exact vs pending (scanned_chunks \<sigma> chunks)"
  by (induction chunks arbitrary: \<sigma> pending) (auto split: prod.split)

lemma concat_scanned: "concat (scanned_chunks \<sigma> chunks) = fst (feed \<sigma> (concat chunks))"
  by (induction chunks arbitrary: \<sigma>) (simp_all add: feed_append split_def)

text \<open>C36: however the output of a service is cut into reads, in the middle of a secret or of a credential's key,
  the bytes that are passed on are those of one pass over the whole stream: the scanner's output with the
  leftmost matches of the secret values replaced, and no occurrence of a secret lies outside what was
  replaced.\<close>

theorem stream_redacted:
  "let s = fst (feed start_scanner (concat chunks)); ms = spans (ordered_values values) 0 s in
     redact_stream values chunks = render ms 0 s \<and>
     filter (\<lambda>p. secret_at values s p \<and> \<not> in_span ms p) [0..<length s] = []"
  using exact_redacted [of "scanned_chunks start_scanner chunks" "values"]
  by (simp add: redact_stream_def redact_exact_def feed_stream_eq concat_scanned Let_def)

end
