(* ===== verification/LogCapture.thy ===== *)
theory LogCapture
  imports LogPatterns
begin

text \<open>
  The readers of \<open>guest/tx9-logs capture\<close>: the reader of a stream redacts the chunks it reads from a
  pipe and hands on lines, or pieces of a line that is too long, which are cut between code points.
\<close>

section \<open>Cutting at a code point\<close>

definition byte_of :: "char \<Rightarrow> nat" where "byte_of c = of_char c"

definition continuation :: "char \<Rightarrow> bool" where
  "continuation c \<longleftrightarrow> 128 \<le> byte_of c \<and> byte_of c < 192"

text \<open>How many bytes the code point has that starts with a byte; 1 for every other byte.\<close>

definition expected_bytes :: "char \<Rightarrow> nat" where
  "expected_bytes c =
     (if 194 \<le> byte_of c \<and> byte_of c \<le> 223 then 2
      else if 224 \<le> byte_of c \<and> byte_of c \<le> 239 then 3
      else if 240 \<le> byte_of c \<and> byte_of c \<le> 244 then 4
      else 1)"

fun step_back :: "string \<Rightarrow> nat \<Rightarrow> nat \<Rightarrow> nat" where
  "step_back payload end_pos 0 = 0"
| "step_back payload end_pos (Suc k) =
     (if end_pos - Suc k \<le> 3 \<and> continuation (payload ! Suc k) then step_back payload end_pos k else Suc k)"

definition utf8_safe_chunk_end :: "string \<Rightarrow> nat \<Rightarrow> nat" where
  "utf8_safe_chunk_end payload end_pos =
     (if length payload < end_pos then end_pos
      else
        (let start = step_back payload end_pos (end_pos - 1);
             expected = expected_bytes (payload ! start) in
         if 1 < expected \<and> end_pos - start < expected then start else end_pos))"

lemma step_back_bounds: "k \<le> e \<Longrightarrow> e - 4 \<le> step_back payload e k \<or> step_back payload e k = k"
  by (induction k) (auto simp: not_le)

section \<open>Lines and chunks\<close>

definition MAX_CAPTURE_CHUNK_BYTES :: nat where "MAX_CAPTURE_CHUNK_BYTES = 64 * 1024"

definition newline :: char where "newline = CHR 0x0A"

lemma safe_end_pos: "0 < utf8_safe_chunk_end payload MAX_CAPTURE_CHUNK_BYTES"
proof -
  have "0 < step_back payload MAX_CAPTURE_CHUNK_BYTES (MAX_CAPTURE_CHUNK_BYTES - 1)"
    using step_back_bounds [of "MAX_CAPTURE_CHUNK_BYTES - 1" MAX_CAPTURE_CHUNK_BYTES payload]
    by (auto simp: MAX_CAPTURE_CHUNK_BYTES_def)
  then show ?thesis by (simp add: utf8_safe_chunk_end_def Let_def) (simp add: MAX_CAPTURE_CHUNK_BYTES_def)
qed

text \<open>The inner loop of the reader: the pieces to hand on and what stays pending.\<close>

function drain :: "string \<Rightarrow> string list \<times> string" where
  "drain pending =
     (if newline \<in> set pending then
        (let e = length (takeWhile (\<lambda>c. c \<noteq> newline) pending) + 1 in
         apfst (Cons (take e pending)) (drain (drop e pending)))
      else if MAX_CAPTURE_CHUNK_BYTES \<le> length pending then
        (let e = utf8_safe_chunk_end pending MAX_CAPTURE_CHUNK_BYTES in
         apfst (Cons (take e pending)) (drain (drop e pending)))
      else ([], pending))"
  by pat_completeness auto
termination
proof (relation "measure length", goal_cases)
  case (2 pending e)
  then show ?case by (cases pending) auto
next
  case (3 pending e)
  then show ?case using safe_end_pos [of pending] by (cases pending) (auto simp: MAX_CAPTURE_CHUNK_BYTES_def)
qed simp

declare drain.simps [simp del]

text \<open>After the end of the stream only the size counts.\<close>

function drain_end :: "string \<Rightarrow> string list" where
  "drain_end pending =
     (if MAX_CAPTURE_CHUNK_BYTES \<le> length pending then
        (let e = utf8_safe_chunk_end pending MAX_CAPTURE_CHUNK_BYTES in
         take e pending # drain_end (drop e pending))
      else if pending \<noteq> [] then [pending] else [])"
  by pat_completeness auto
termination
proof (relation "measure length", goal_cases)
  case (2 pending e)
  then show ?case using safe_end_pos [of pending] by (cases pending) (auto simp: MAX_CAPTURE_CHUNK_BYTES_def)
qed simp

declare drain_end.simps [simp del]

text \<open>\<open>_reader\<close>: the chunks that were read, then the rest the redactor held back.\<close>

fun read_stream :: "string list \<Rightarrow> scanner \<Rightarrow> string \<Rightarrow> string \<Rightarrow> string list \<Rightarrow> string list" where
  "read_stream vs \<sigma> held pending [] = drain_end (pending @ finish_exact vs held)"
| "read_stream vs \<sigma> held pending (chunk # chunks) =
     (case feed \<sigma> chunk of (mid, \<sigma>') \<Rightarrow>
      case feed_exact vs held mid of (out, held') \<Rightarrow>
      case drain (pending @ out) of (pieces, pending') \<Rightarrow>
        pieces @ read_stream vs \<sigma>' held' pending' chunks)"

definition reader :: "string list \<Rightarrow> string list \<Rightarrow> string list" where
  "reader values chunks = read_stream (ordered_values values) start_scanner [] [] chunks"

definition cut_of :: "string \<Rightarrow> nat" where
  "cut_of pending =
     (if newline \<in> set pending then length (takeWhile (\<lambda>c. c \<noteq> newline) pending) + 1
      else utf8_safe_chunk_end pending MAX_CAPTURE_CHUNK_BYTES)"

lemma drain_cut:
  "newline \<in> set pending \<or> MAX_CAPTURE_CHUNK_BYTES \<le> length pending \<Longrightarrow>
     drain pending = apfst (Cons (take (cut_of pending) pending)) (drain (drop (cut_of pending) pending))"
  by (subst drain.simps) (auto simp: cut_of_def Let_def)

lemma drain_stop:
  "newline \<notin> set pending \<Longrightarrow> length pending < MAX_CAPTURE_CHUNK_BYTES \<Longrightarrow> drain pending = ([], pending)"
  by (subst drain.simps) simp

lemma cut_of_pos: "0 < cut_of pending"
  using safe_end_pos by (simp add: cut_of_def)

lemma drain_ok:
  "drain pending = (pieces, rest) \<Longrightarrow>
     concat pieces @ rest = pending \<and> newline \<notin> set rest \<and> length rest < MAX_CAPTURE_CHUNK_BYTES \<and>
     list_all (\<lambda>p. newline \<notin> set (butlast p)) pieces"
proof (induction "length pending" arbitrary: pending pieces rest rule: less_induct)
  case less
  show ?case
  proof (cases "newline \<in> set pending \<or> MAX_CAPTURE_CHUNK_BYTES \<le> length pending")
    case False
    then show ?thesis using less.prems by (simp add: drain_stop)
  next
    case True
    let ?e = "cut_of pending"
    obtain ps r where d: "drain (drop ?e pending) = (ps, r)" by fastforce
    have parts: "pieces = take ?e pending # ps" "rest = r" using less.prems True d by (auto simp: drain_cut)
    have "pending \<noteq> []" using True by (auto simp: MAX_CAPTURE_CHUNK_BYTES_def)
    then have "length (drop ?e pending) < length pending" using cut_of_pos [of pending] by simp
    note ih = less.hyps [OF this d]
    have "newline \<notin> set (butlast (take ?e pending))"
    proof (cases "newline \<in> set pending")
      case True
      let ?t = "takeWhile (\<lambda>c. c \<noteq> newline) pending"
      have "dropWhile (\<lambda>c. c \<noteq> newline) pending \<noteq> []" using True by (auto simp: dropWhile_eq_Nil_conv)
      moreover have split: "pending = ?t @ dropWhile (\<lambda>c. c \<noteq> newline) pending" by simp
      ultimately have "length ?t < length pending" by (metis length_append length_greater_0_conv less_add_same_cancel1)
      then have "butlast (take ?e pending) = take (length ?t) pending"
        using True by (simp add: cut_of_def butlast_take)
      also have "\<dots> = ?t" using split by (metis append_eq_conv_conj)
      finally show ?thesis by (auto dest: set_takeWhileD)
    next
      case False
      then show ?thesis by (meson in_set_butlastD in_set_takeD)
    qed
    then show ?thesis using ih parts by simp
  qed
qed

lemma drain_end_concat: "concat (drain_end pending) = pending"
proof (induction pending rule: drain_end.induct)
  case (1 pending)
  then show ?case by (subst drain_end.simps) (auto simp: Let_def)
qed

lemma read_stream_concat:
  "concat (read_stream vs \<sigma> held pending chunks) = pending @ feed_stream vs \<sigma> held chunks"
proof (induction chunks arbitrary: \<sigma> held pending)
  case Nil
  then show ?case by (simp add: drain_end_concat)
next
  case (Cons chunk chunks)
  obtain mid \<sigma>' where f: "feed \<sigma> chunk = (mid, \<sigma>')" by fastforce
  obtain out held' where x: "feed_exact vs held mid = (out, held')" by fastforce
  obtain pieces pending' where d: "drain (pending @ out) = (pieces, pending')" by fastforce
  show ?case using Cons.IH drain_ok [OF d] f x d by simp
qed

section \<open>A chunk ends between code points\<close>

definition code_point :: "string \<Rightarrow> bool" where
  "code_point p \<longleftrightarrow> p \<noteq> [] \<and> length p = expected_bytes (hd p) \<and> \<not> continuation (hd p) \<and> list_all continuation (tl p)"

lemma position_in_concat:
  "i < length (concat cs) \<Longrightarrow> \<exists>k. k < length cs \<and> length (concat (take k cs)) \<le> i \<and>
     i < length (concat (take k cs)) + length (cs ! k)"
proof (induction cs arbitrary: i)
  case (Cons c cs)
  show ?case
  proof (cases "i < length c")
    case True
    then show ?thesis by (intro exI [of _ 0]) simp
  next
    case False
    then have "i - length c < length (concat cs)" using Cons.prems by simp
    then obtain k where "k < length cs \<and> length (concat (take k cs)) \<le> i - length c \<and>
        i - length c < length (concat (take k cs)) + length (cs ! k)"
      using Cons.IH [of "i - length c"] by blast
    then show ?thesis using False by (intro exI [of _ "Suc k"]) auto
  qed
qed simp

lemma step_back_reaches:
  "b \<le> k \<Longrightarrow> (\<And>i. b < i \<Longrightarrow> i \<le> k \<Longrightarrow> e - i \<le> 3 \<and> continuation (payload ! i)) \<Longrightarrow> \<not> continuation (payload ! b) \<Longrightarrow>
     step_back payload e k = b"
proof (induction k)
  case (Suc k)
  show ?case
  proof (cases "b = Suc k")
    case True
    then show ?thesis using Suc.prems(3) by simp
  next
    case False
    then have "e - Suc k \<le> 3 \<and> continuation (payload ! Suc k)" using Suc.prems(1,2) by simp
    then show ?thesis using Suc False by simp
  qed
qed simp

lemma code_point_bytes:
  assumes "code_point p"
  shows "0 < length p" and "length p \<le> 4" and "0 < j \<Longrightarrow> j < length p \<Longrightarrow> continuation (p ! j)"
    and "\<not> continuation (p ! 0)" and "length p = expected_bytes (p ! 0)"
proof -
  obtain c cs where p: "p = c # cs" using assms by (cases p) (auto simp: code_point_def)
  show "length p \<le> 4" using assms by (auto simp: code_point_def expected_bytes_def)
  show "continuation (p ! j)" if "0 < j" "j < length p"
    using assms that p by (cases j) (auto simp: code_point_def list_all_length)
  show "0 < length p" using p by simp
qed (use assms in \<open>auto simp: code_point_def hd_conv_nth\<close>)

lemma utf8_chunk_end:
  assumes "list_all code_point cs" and "0 < e" and "e \<le> length (concat cs)"
  shows "\<exists>k. take (utf8_safe_chunk_end (concat cs) e) (concat cs) = concat (take k cs)"
proof -
  let ?s = "concat cs"
  have "e - 1 < length ?s" using assms(2,3) by simp
  then obtain k where k: "k < length cs" "length (concat (take k cs)) \<le> e - 1"
      "e - 1 < length (concat (take k cs)) + length (cs ! k)"
    using position_in_concat [of "e - 1" cs] by blast
  let ?b = "length (concat (take k cs))" and ?p = "cs ! k"
  have p: "code_point ?p" using assms(1) k(1) by (simp add: list_all_length)
  note bytes = code_point_bytes [OF p]
  have s: "?s = concat (take k cs) @ ?p @ concat (drop (Suc k) cs)"
    by (metis Cons_nth_drop_Suc append_take_drop_id concat.simps(2) concat_append k(1))
  have at: "?s ! (?b + j) = ?p ! j" if "j < length ?p" for j
    using that by (simp add: s nth_append)
  have "step_back ?s e (e - 1) = ?b"
  proof (rule step_back_reaches [OF k(2)])
    show "\<not> continuation (?s ! ?b)" using at [of 0] bytes by simp
    show "e - i \<le> 3 \<and> continuation (?s ! i)" if "?b < i" "i \<le> e - 1" for i
      using at [of "i - ?b"] bytes(2) bytes(3) [of "i - ?b"] that k(3) by auto
  qed
  then have "utf8_safe_chunk_end ?s e = (if 1 < length ?p \<and> e - ?b < length ?p then ?b else e)"
    using assms(3) at [of 0] bytes(1,5) by (simp add: utf8_safe_chunk_end_def Let_def)
  moreover have "take ?b ?s = concat (take k cs)" by (simp add: s)
  moreover have "take e ?s = concat (take (Suc k) cs)" if "\<not> (1 < length ?p \<and> e - ?b < length ?p)"
  proof -
    have e: "e = ?b + length ?p" using that k(2,3) assms(2) bytes(1) by linarith
    show ?thesis unfolding e s using k(1) by (simp add: take_Suc_conv_app_nth)
  qed
  ultimately show ?thesis by (cases "1 < length ?p \<and> e - ?b < length ?p") (metis (full_types))+
qed

end
