(* ===== verification/LogRotation.thy ===== *)
theory LogRotation
  imports Prelude "HOL-Library.Sublist"
begin

text \<open>
  \<open>RotatingWriter\<close> of \<open>guest/tx9-logs\<close>, the files of one log: rotation within a fixed number of
  generations and truncation of a record that does not fit.
\<close>

section \<open>Rotation\<close>

text \<open>
  Generation 0 is the active file, generation \<open>k\<close> the one with the suffix \<open>.k\<close>.  Any system call may
  fail.  \<open>WriteFile\<close> stands for everything after the open (the check of the file's type, the writes, the
  mode); \<open>partial\<close> says how many bytes were written when it fails.
\<close>

type_synonym generations = "nat \<Rightarrow> string option"

datatype log_op = StatFile | UnlinkFile nat | ReplaceFile nat | OpenFile | WriteFile

record log_host =
  op_fails :: "log_op \<Rightarrow> bool"
  partial :: nat

definition truncation_marker :: string where
  "truncation_marker = [CHR 0x0A] @ ''[tx9 log record truncated]'' @ [CHR 0x0A]"

definition bounded_payload :: "nat \<Rightarrow> string \<Rightarrow> string" where
  "bounded_payload max_bytes payload =
     (if max_bytes < length payload
      then take max_bytes (take (max_bytes - length truncation_marker) payload @ truncation_marker)
      else payload)"

text \<open>The first component says whether the operation returned without an error.\<close>

definition unlink_file :: "log_host \<Rightarrow> nat \<Rightarrow> generations \<Rightarrow> bool \<times> generations" where
  "unlink_file H k g =
     (if g k = None then (True, g)
      else if op_fails H (UnlinkFile k) then (False, g)
      else (True, g(k := None)))"

definition replace_file :: "log_host \<Rightarrow> nat \<Rightarrow> generations \<Rightarrow> bool \<times> generations" where
  "replace_file H k g =
     (if g k = None then (True, g)
      else if op_fails H (ReplaceFile k) then (False, g)
      else (True, g(Suc k := g k, k := None)))"

text \<open>The generations \<open>n\<close> down to 1 move up by one, then the active file becomes generation 1.\<close>

fun shift :: "log_host \<Rightarrow> nat \<Rightarrow> generations \<Rightarrow> bool \<times> generations" where
  "shift H 0 g = replace_file H 0 g"
| "shift H (Suc n) g =
     (case replace_file H (Suc n) g of
        (False, g1) \<Rightarrow> (False, g1)
      | (True, g1) \<Rightarrow> shift H n g1)"

definition rotate_files :: "log_host \<Rightarrow> nat \<Rightarrow> generations \<Rightarrow> bool \<times> generations" where
  "rotate_files H max_files g =
     (if max_files = 1 then unlink_file H 0 g
      else
        (case unlink_file H (max_files - 1) g of
           (False, g1) \<Rightarrow> (False, g1)
         | (True, g1) \<Rightarrow> shift H (max_files - 2) g1))"

definition append_active :: "log_host \<Rightarrow> string \<Rightarrow> generations \<Rightarrow> bool \<times> generations" where
  "append_active H payload g =
     (let old = (case g 0 of None \<Rightarrow> [] | Some s \<Rightarrow> s) in
      if op_fails H OpenFile then (False, g)
      else if op_fails H WriteFile then (False, g(0 \<mapsto> old @ take (partial H) payload))
      else (True, g(0 \<mapsto> old @ payload)))"

definition write_log :: "log_host \<Rightarrow> nat \<Rightarrow> nat \<Rightarrow> string \<Rightarrow> generations \<Rightarrow> bool \<times> generations" where
  "write_log H max_bytes max_files payload g =
     (let payload = bounded_payload max_bytes payload in
      if g 0 \<noteq> None \<and> op_fails H StatFile then (False, g)
      else
        (let current_size = (case g 0 of None \<Rightarrow> 0 | Some s \<Rightarrow> length s) in
         if current_size \<noteq> 0 \<and> max_bytes < current_size + length payload then
           (case rotate_files H max_files g of
              (False, g1) \<Rightarrow> (False, g1)
            | (True, g1) \<Rightarrow> append_active H payload g1)
         else append_active H payload g))"

text \<open>\<open>_persist\<close> goes on after an error, so a log is a sequence of writes, each with its own failures.\<close>

fun persist_all :: "nat \<Rightarrow> nat \<Rightarrow> (log_host \<times> string) list \<Rightarrow> generations \<Rightarrow> generations" where
  "persist_all max_bytes max_files [] g = g"
| "persist_all max_bytes max_files ((H, payload) # ws) g =
     persist_all max_bytes max_files ws (snd (write_log H max_bytes max_files payload g))"

subsection \<open>The files stay within their bounds\<close>

definition size_of :: "string option \<Rightarrow> nat" where
  "size_of f = (case f of None \<Rightarrow> 0 | Some s \<Rightarrow> length s)"

definition within :: "nat \<Rightarrow> nat \<Rightarrow> generations \<Rightarrow> bool" where
  "within max_bytes max_files g \<longleftrightarrow>
     (\<forall>k. size_of (g k) \<le> max_bytes) \<and> (\<forall>k \<ge> max_files. g k = None)"

lemma size_of_simps [simp]: "size_of None = 0" "size_of (Some s) = length s"
  by (simp_all add: size_of_def)

lemma bounded_payload_length: "length (bounded_payload max_bytes payload) \<le> max_bytes"
  by (simp add: bounded_payload_def)

lemma within_unlink: "within b f g \<Longrightarrow> within b f (snd (unlink_file H k g))"
  by (auto simp: within_def unlink_file_def)

lemma unlink_gone: "unlink_file H k g = (True, g1) \<Longrightarrow> g1 k = None"
  by (auto simp: unlink_file_def split: if_splits)

lemma within_replace: "within b f g \<Longrightarrow> Suc k < f \<Longrightarrow> within b f (snd (replace_file H k g))"
  by (auto simp: within_def replace_file_def)

lemma within_shift: "within b f g \<Longrightarrow> Suc n < f \<Longrightarrow> within b f (snd (shift H n g))"
proof (induction n arbitrary: g)
  case 0
  then show ?case by (simp add: within_replace)
next
  case (Suc n)
  obtain ok g1 where r: "replace_file H (Suc n) g = (ok, g1)" by fastforce
  then have "within b f g1" using within_replace [OF Suc.prems, of H] by simp
  then show ?case using Suc r by (cases ok) simp_all
qed

lemma shift_frees: "shift H n g = (True, g1) \<Longrightarrow> g1 0 = None"
proof (induction n arbitrary: g)
  case 0
  then show ?case by (auto simp: replace_file_def split: if_splits)
next
  case (Suc n)
  then show ?case by (auto split: prod.splits bool.splits)
qed

lemma within_rotate: "within b f g \<Longrightarrow> 0 < f \<Longrightarrow> within b f (snd (rotate_files H f g))"
proof -
  assume g: "within b f g" and f: "0 < f"
  obtain ok g1 where u: "unlink_file H (f - 1) g = (ok, g1)" by fastforce
  then have "within b f g1" using within_unlink [OF g, of H "f - 1"] by simp
  then show ?thesis
    using f g u by (cases ok) (auto simp: rotate_files_def within_unlink intro: within_shift)
qed

lemma rotate_frees: "rotate_files H f g = (True, g1) \<Longrightarrow> g1 0 = None"
  by (auto simp: rotate_files_def unlink_gone dest: shift_frees split: if_splits prod.splits bool.splits)

lemma within_append:
  "within b f g \<Longrightarrow> 0 < f \<Longrightarrow> size_of (g 0) + length payload \<le> b \<Longrightarrow> within b f (snd (append_active H payload g))"
  by (cases "g 0") (auto simp: within_def append_active_def Let_def min_def)

lemma within_write:
  assumes "within b f g" and "0 < f"
  shows "within b f (snd (write_log H b f payload g))"
proof -
  let ?p = "bounded_payload b payload"
  have p: "length ?p \<le> b" by (rule bounded_payload_length)
  show ?thesis
  proof (cases "size_of (g 0) \<noteq> 0 \<and> b < size_of (g 0) + length ?p")
    case True
    obtain ok g1 where r: "rotate_files H f g = (ok, g1)" by fastforce
    then have "within b f g1" using within_rotate [OF assms, of H] by simp
    moreover have "size_of (g1 0) + length ?p \<le> b" if ok using r that p rotate_frees by fastforce
    ultimately show ?thesis
      using r True assms within_append [of b f g1 ?p H]
      by (cases ok) (auto simp: write_log_def Let_def size_of_def)
  next
    case False
    then have "size_of (g 0) + length ?p \<le> b" using p by auto
    then show ?thesis
      using False assms within_append [OF assms, of ?p H]
      by (auto simp: write_log_def Let_def size_of_def split: option.splits)
  qed
qed

lemma within_persist_all: "within b f g \<Longrightarrow> 0 < f \<Longrightarrow> within b f (persist_all b f ws g)"
  by (induction b f ws g rule: persist_all.induct) (simp_all add: within_write)

subsection \<open>Only the oldest bytes go\<close>

definition text_of :: "string option \<Rightarrow> string" where
  "text_of f = (case f of None \<Rightarrow> [] | Some s \<Rightarrow> s)"

lemma text_of_simps [simp]: "text_of None = []" "text_of (Some s) = s"
  by (simp_all add: text_of_def)

text \<open>The bytes of all generations, the oldest first.\<close>

fun retained :: "nat \<Rightarrow> generations \<Rightarrow> string" where
  "retained 0 g = []"
| "retained (Suc f) g = text_of (g f) @ retained f g"

lemma retained_cong: "(\<And>i. i < f \<Longrightarrow> g i = h i) \<Longrightarrow> retained f g = retained f h"
  by (induction f) auto

lemma retained_above: "f \<le> k \<Longrightarrow> retained f (g(k := v)) = retained f g"
  by (rule retained_cong) auto

lemma retained_move: "g (Suc k) = None \<Longrightarrow> Suc k < f \<Longrightarrow> retained f (g(Suc k := g k, k := None)) = retained f g"
proof (induction f)
  case (Suc f)
  show ?case
  proof (cases "Suc k = f")
    case True
    then show ?thesis using Suc.prems by (auto intro!: retained_cong)
  next
    case False
    then show ?thesis using Suc by auto
  qed
qed simp

lemma retained_active: "0 < f \<Longrightarrow> retained f (g(0 \<mapsto> text_of (g 0) @ p)) = retained f g @ p"
proof (induction f)
  case (Suc f)
  then show ?case by (cases f) auto
qed simp

lemma retained_ends: "0 < f \<Longrightarrow> suffix (text_of (g 0)) (retained f g)"
proof (induction f)
  case (Suc f)
  then show ?case by (cases f) (auto intro: suffix_appendI)
qed simp

lemma retained_replace:
  assumes "replace_file H k g = (ok, g1)" and "g (Suc k) = None" and "Suc k < f"
  shows "retained f g1 = retained f g \<and> (ok \<longrightarrow> g1 k = None)"
  using assms(1) retained_move [of g k f, OF assms(2,3)] by (auto simp: replace_file_def split: if_splits)

lemma retained_shift:
  "shift H n g = (ok, g1) \<Longrightarrow> g (Suc n) = None \<Longrightarrow> Suc n < f \<Longrightarrow> retained f g1 = retained f g"
proof (induction n arbitrary: g)
  case 0
  then show ?case using retained_replace [of H 0 g ok g1 f] by simp
next
  case (Suc n)
  obtain fine g2 where r: "replace_file H (Suc n) g = (fine, g2)" by fastforce
  note moved = retained_replace [OF r Suc.prems(2,3)]
  show ?case using Suc r moved by (cases fine) auto
qed

lemma retained_unlink:
  assumes "unlink_file H (f - 1) g = (ok, g1)" and "0 < f"
  shows "suffix (retained f g1) (retained f g)"
proof (cases f)
  case (Suc n)
  then show ?thesis
    using assms by (auto simp: unlink_file_def retained_above split: if_splits intro: suffix_appendI)
qed (use assms in simp)

lemma retained_rotate:
  assumes "rotate_files H f g = (ok, g1)" and "0 < f"
  shows "suffix (retained f g1) (retained f g)"
proof (cases "f = 1")
  case True
  then show ?thesis using assms retained_unlink [of H f g ok g1] by (simp add: rotate_files_def)
next
  case False
  obtain fine g2 where u: "unlink_file H (f - 1) g = (fine, g2)" by fastforce
  note rest = retained_unlink [OF u assms(2)]
  show ?thesis
  proof (cases fine)
    case True
    have "Suc (f - 2) = f - 1" using \<open>f \<noteq> 1\<close> assms(2) by simp
    then have "g2 (Suc (f - 2)) = None" using unlink_gone [of H "f - 1" g g2] u True by simp
    then have "retained f g1 = retained f g2"
      using assms u True False by (intro retained_shift [of H "f - 2"]) (auto simp: rotate_files_def)
    then show ?thesis using rest by simp
  next
    case False
    then show ?thesis using assms(1) u \<open>f \<noteq> 1\<close> rest by (simp add: rotate_files_def)
  qed
qed

lemma retained_append:
  assumes "append_active H payload g = (ok, g1)" and "0 < f"
  shows "\<exists>p. prefix p payload \<and> (ok \<longrightarrow> p = payload) \<and> retained f g1 = retained f g @ p"
proof -
  have "append_active H payload g = (let old = text_of (g 0) in
      if op_fails H OpenFile then (False, g)
      else if op_fails H WriteFile then (False, g(0 \<mapsto> old @ take (partial H) payload))
      else (True, g(0 \<mapsto> old @ payload)))"
    by (simp add: append_active_def text_of_def)
  then show ?thesis
    using assms retained_active [OF assms(2), of g]
    by (auto simp: Let_def take_is_prefix split: if_splits intro!: exI [of _ "take (partial H) payload"])
qed

lemma retained_write:
  assumes "write_log H b f payload g = (ok, g1)" and "0 < f"
  shows "\<exists>p. prefix p (bounded_payload b payload) \<and> (ok \<longrightarrow> p = bounded_payload b payload) \<and>
    suffix (retained f g1) (retained f g @ p)"
proof -
  let ?p = "bounded_payload b payload"
  have plain: ?thesis if "append_active H ?p g = (ok, g1)"
    using retained_append [OF that assms(2)] by auto
  have none: ?thesis if "ok = False" and "suffix (retained f g1) (retained f g)"
    using that by (intro exI [of _ "[]"]) simp
  have rotated: ?thesis if r: "rotate_files H f g = (True, g2)" and a: "append_active H ?p g2 = (ok, g1)" for g2
  proof -
    obtain q where "prefix q ?p \<and> (ok \<longrightarrow> q = ?p) \<and> retained f g1 = retained f g2 @ q"
      using retained_append [OF a assms(2)] by blast
    then show ?thesis using retained_rotate [OF r assms(2)] by (auto simp: suffix_def)
  qed
  show ?thesis
    using assms(1) plain none rotated retained_rotate [OF _ assms(2), of H g]
    by (auto simp: write_log_def Let_def split: if_splits prod.splits bool.splits)
qed

definition all_sizes :: "nat \<Rightarrow> generations \<Rightarrow> nat" where
  "all_sizes f g = length (retained f g)"

lemma all_sizes_within: "within b f g \<Longrightarrow> n \<le> f \<Longrightarrow> all_sizes n g \<le> n * b"
proof (induction n)
  case (Suc n)
  have "length (text_of (g n)) \<le> b" using Suc.prems(1) by (cases "g n") (auto simp: within_def dest: spec [of _ n])
  then show ?case using Suc by (simp add: all_sizes_def)
qed (simp add: all_sizes_def)

text \<open>What one write can have persisted of its payload: all of it if no call failed.\<close>

definition persisted :: "nat \<Rightarrow> log_host \<times> string \<Rightarrow> string \<Rightarrow> bool" where
  "persisted b w p \<longleftrightarrow>
     prefix p (bounded_payload b (snd w)) \<and> ((\<forall>c. \<not> op_fails (fst w) c) \<longrightarrow> p = bounded_payload b (snd w))"

lemma write_ok: "(\<And>c. \<not> op_fails H c) \<Longrightarrow> fst (write_log H b f payload g)"
proof -
  assume ok: "\<And>c. \<not> op_fails H c"
  have "fst (replace_file H k g)" for k g using ok by (simp add: replace_file_def)
  then have "fst (shift H n g)" for n g
    by (induction n arbitrary: g) (auto split: prod.split bool.split, metis fst_conv)
  then have "fst (rotate_files H f g)" for g
    using ok by (auto simp: rotate_files_def unlink_file_def split: prod.split bool.split)
  moreover have "fst (append_active H p g)" for p g using ok by (simp add: append_active_def Let_def)
  ultimately show ?thesis using ok by (auto simp: write_log_def Let_def split: prod.split bool.split) (metis fst_conv)+
qed

lemma retained_persist_all:
  assumes "0 < f"
  shows "\<exists>ps. list_all2 (persisted b) ws ps \<and> suffix (retained f (persist_all b f ws g)) (retained f g @ concat ps)"
proof (induction ws arbitrary: g)
  case (Cons w ws)
  obtain H payload where w: "w = (H, payload)" by fastforce
  obtain ok g1 where run: "write_log H b f payload g = (ok, g1)" by fastforce
  obtain p where p: "prefix p (bounded_payload b payload)" "ok \<longrightarrow> p = bounded_payload b payload"
      "suffix (retained f g1) (retained f g @ p)"
    using retained_write [OF run assms] by blast
  have "persisted b w p" using p(1,2) write_ok [of H b f payload g] run w by (auto simp: persisted_def)
  moreover obtain ps where ps: "list_all2 (persisted b) ws ps"
      and later: "suffix (retained f (persist_all b f ws g1)) (retained f g1 @ concat ps)"
    using Cons.IH by blast
  moreover have "suffix (retained f g1 @ concat ps) (retained f g @ p @ concat ps)"
    using p(3) by (auto simp: suffix_def)
  ultimately show ?case
    using run w suffix_order.trans [OF later] by (intro exI [of _ "p # ps"]) simp
qed simp

text \<open>
  However many bytes are logged and whatever fails, the log keeps within its generations and their size,
  and what it keeps is the end of what was persisted, in order and without gaps.
\<close>

text \<open>C37: whatever is logged and whichever system calls fail, a log keeps to its number of files and every file
  to its maximal size, and what the files hold is the end of the bytes that were written, in order and
  without gaps, where every write without a failure has written its whole (truncated) record.\<close>

theorem log_bounded:
  assumes "within max_bytes max_files g" and "0 < max_files"
  shows "\<exists>ps. list_all2 (persisted max_bytes) ws ps \<and>
    within max_bytes max_files (persist_all max_bytes max_files ws g) \<and>
    all_sizes max_files (persist_all max_bytes max_files ws g) \<le> max_files * max_bytes \<and>
    suffix (retained max_files (persist_all max_bytes max_files ws g)) (retained max_files g @ concat ps)"
  using retained_persist_all [OF assms(2), of max_bytes ws g] within_persist_all [OF assms, of ws]
    all_sizes_within [of max_bytes max_files _ max_files] by blast

definition demo_log_host :: log_host where
  "demo_log_host = \<lparr>op_fails = (\<lambda>c. c = WriteFile), partial = 1\<rparr>"

theorem log_bounded_witness:
  "\<exists>ps. suffix (retained 2 (persist_all 4 2 [(demo_log_host, ''abcd''), (demo_log_host, ''efgh'')] Map.empty)) (concat ps)"
proof -
  have "within 4 2 Map.empty" by (simp add: within_def)
  then show ?thesis using log_bounded [of 4 2 Map.empty "[(demo_log_host, ''abcd''), (demo_log_host, ''efgh'')]"]
    by (auto simp: numeral_2_eq_2)
qed

end
