(* ===== verification/Spec2Isabelle.thy ===== *)
theory Spec2Isabelle
  imports ArchiveSpec MaintenanceSafety SelfUpdateSafety ImportSafety
    Flags LogsSafety ContainerRuns ReportsSafety OverviewSafety DispatchSafety Confinement BuildContext
    LogCapture LogRotation LogRepeats
begin

text \<open>
  tx9 creates and manages "boxes": pairs of Docker containers (an agent and an executor) with a private
  network and two data volumes.  This development models the Go program under \<open>src/internal\<close>, and the part
  of the guest's \<open>src/guest/tx9-logs\<close> that captures the output of services, and proves what they promise.
  Paths below are relative to \<open>src/internal\<close>, those of the guest to \<open>src\<close>.

  HOW THE PARTS INTERACT.  \<open>cli/dispatch.go\<close> picks a command, whose \<open>cmd_*.go\<close> reads flags and arguments,
  takes the lock of the box (\<open>lock\<close>), talks to the daemon through \<open>docker\<close> and calls \<open>box\<close>, which keeps
  the settings of a box in an env file (\<open>state\<close>).  \<open>archive\<close> checks, encrypts and packs backups,
  \<open>selfupdate\<close> replaces the installed binary, \<open>assets\<close> packs the files of the image build.  Inside a box
  \<open>guest/tx9-logs capture\<close> runs each service and writes the log files that \<open>tx9 logs\<close> later asks for.

  THE MODEL.  A computation is a function from a state to a result (an error or a value) and a state
  (\<open>comp\<close> in Prelude, the composition \<open>bind_comp\<close>, Go's \<open>defer\<close> as \<open>with_defer\<close>).  The state of a command
  is a \<open>world\<close> (World): the history of its calls, the host's files, the table of locks.  The daemon, the
  clock of failing system calls, random bytes, the environment and the terminal are parameters: records of
  functions of the history, so that a theorem holds for every behaviour of the daemon and for every
  combination of failing calls, and a second identical call may answer differently.  Errors are values of
  \<open>tx9_error\<close>, with one constructor for each kind of error the code tells apart; their texts are left out.
  Strings are lists of bytes.

  THEORIES, in the order of their imports.

  \<^item> Prelude, GoStrings, GoPath: results, computations, triples; the parts of \<open>strings\<close>, \<open>strconv\<close>,
    \<open>bufio\<close> and \<open>path/filepath\<close> that the code uses.
  \<^item> Names (\<open>names/names.go\<close>), Token (\<open>token/token.go\<close>), BoxEnv (\<open>state/state.go\<close>), Lock
    (\<open>lock/lock.go\<close>, lock and release as an inductive step relation), Settings (laws of settings kept in
    an env file as a locale, interpreted by the components below).
  \<^item> Mounts, ExecutorConfig, Resources, CPUs (\<open>box/agent_mounts.go\<close>, \<open>box/executor_config.go\<close>,
    \<open>box/resources.go\<close> with the flag groups of \<open>cli\<close>; CPUs has the arithmetic of doubles): validation, parsing, settings and their round trips.
  \<^item> ArchiveValidator, ArchiveSafety, ArchiveSpec (\<open>archive/validator.go\<close>): the validator as written, and
    an independent specification of links that stay inside the archive.
  \<^item> World, Trace, Box, BoxLifecycle, BoxSafety, RecreateSafety, ContainerRuns (\<open>docker/client.go\<close>,
    \<open>docker/ephemeral.go\<close>, \<open>box/box.go\<close>, \<open>box/objects.go\<close>, \<open>box/create.go\<close>): requests, boxes, ownership
    checks, create, recreate and destroy.  Trace has the calculus of calls (\<open>makes_only\<close>, \<open>keeps\<close>).
  \<^item> Commands, Demo, CommandSafety, CommandEffects, UpgradeSafety, MaintenanceSafety (\<open>cli/cmd_*.go\<close>): the
    bodies of the commands on boxes; Demo has the concrete daemons of the witnesses.
  \<^item> Release, SelfUpdate, ReleaseSafety, SelfUpdateSafety (\<open>selfupdate\<close>): versions, checksum files, the
    release site and the staged replacement of the binary.
  \<^item> LocalFiles, Format, Encryption, Backup, BackupSafety, ImportSafety (\<open>archive/format.go\<close>,
    \<open>archive/gpg.go\<close>, \<open>cli/cmd_backup.go\<close>, \<open>cli/cmd_import.go\<close>): archives, every local file operation of
    backup and import with its failure, temporary directories that are removed on every path.
  \<^item> Logs, LogsSafety (\<open>cli/cmd_logs.go\<close>); WorkerPool, Reports, ReportsSafety (\<open>cli/cmd_list.go\<close>,
    \<open>cmd_open.go\<close>, \<open>cmd_doctor.go\<close>, the listings of \<open>cmd_mount.go\<close> and \<open>cmd_resources.go\<close>); Overview,
    OverviewSafety (\<open>cli/overview_runtime.go\<close>, \<open>cli/overview.go\<close>).
  \<^item> Flags, FlagValues, Dispatch, DispatchSafety (\<open>cli/box_common.go\<close>, \<open>cli/dispatch.go\<close>, the head of each
    \<open>cmd_*.go\<close>): the flag package, flags anywhere among the arguments, the table of commands, a whole run.
  \<^item> Requests, Confinement (\<open>docker/client.go\<close> and the creation in \<open>box/create.go\<close>): what each call of the
    wrapper sends to the Engine, and which requests are permitted at all.
  \<^item> BuildContext (\<open>assets/assets.go\<close>): the walk over the embedded files, whose entries a request to
    build an image carries.
  \<^item> LogRedaction, LogPatterns, LogCapture, LogRotation, LogRepeats (\<open>guest/tx9-logs\<close>): the redaction of
    secret values in a stream of bytes, the scanner for credentials, the reader of a pipe, the rotated
    files, the collapsing of repeated lines.

  WHAT THE LEMMAS SHOW.
  Archives: data that the validator accepts has only relative members and links that resolve inside it,
  with agreement between the iterative resolver and the specification; what an import restores was accepted
  by the validator; a backup saves what was captured, and importing it yields the same data.
  Boxes: a destroy removes only objects that carry the labels of the box, and after its checks it removes
  all of them or says what is left; a create ends in a prepared box, in a destroyed one or before any
  container was asked for; an upgrade keeps volumes and settings, whatever fails; a change of resources is
  applied to both containers and saved, or undone.
  Files: the env file is replaced atomically, every settings group survives a round trip and leaves the
  others alone; backup, log export and self-update leave a complete new file or none.
  Requests: whatever the command line and the daemon's answers, every request a run sends is one of a short
  list: confined containers with checked mounts, helpers without a network, objects that are tx9's own.
  Locks: no run of the program, whatever its arguments, leaves a lock behind or takes one away.
  Command line: moving flags before the arguments is the same as reading them in place; a run that only
  answers has done nothing; integers of flags are checked to fit 64 bits, and a CPU count is what was
  given up to the rounding of one multiplication.
  Reports: they read only; the listing is the same for every schedule of its workers, which always finish;
  the overview explains everything it could not find out, and its panels are as wide as they claim.
  Capture in the guest: how a stream is cut into reads does not change its redaction, which leaves no
  secret value outside the replaced parts; the pieces of a line end between code points; log files keep to
  their number and size and hold the end of what was written; collapsing repeated lines loses none.

  BOUNDS AND FUEL.  The loops of the code that have a bound have the code's bound: 100 fresh names, 6
  attempts of the runtime preparation and of the doctor's probe, 4 workers, the limits on downloads.  The
  link resolver recurses with a proved measure.  \<open>ExecStream\<close> polls without a bound, so it is a partial
  function, and it is proved to return exactly if an inspection ever ends the poll.  The scanner of the
  log capture may look at a byte again after a change of state, which decreases a rank.  No function has
  fuel.  64-bit integers are integers with their range written out where the code checks it, and the
  multiplication by two for the swap limit is proved to fit.

  NOT MODELLED, and why.  What a terminal shows while a command works (progress lines, error texts,
  column alignment by \<open>text/tabwriter\<close>), time and timeouts (a wait or a stalled download is an answer of
  the environment; the five seconds of the overview are not distinguished), the bytes of an image build.
  Parameters, because they are libraries or other programs: \<open>net/url\<close>, \<open>net/http\<close>, \<open>encoding/json\<close>,
  \<open>archive/tar\<close>, \<open>compress/gzip\<close>, SHA-256, gpg, the Docker daemon, parsing and printing of
  floating-point numbers, \<open>go-units\<close>, the IPv6 branch of \<open>net.ParseIP\<close>, the host name of URLs where \<open>Reports\<close> uses it.
  Simplifications: upper and lower case are modelled for ASCII; \<open>Exec\<close> and \<open>RunEphemeral\<close> are one
  request in \<open>World\<close> (their own requests are in \<open>ContainerRuns\<close>); a box returned together with an error by
  \<open>Create\<close> is only the error; a collision of random temporary names is a failure; the commands use one
  sequential schedule of the lookups that \<open>WorkerPool\<close> treats for all schedules.  Of \<open>tx9-logs\<close>, the regular expressions of \<open>redact_text\<close>
  (a second pass over each line), child processes and signals, mirrors, the query and the export are left
  out.  Not modelled at all are the entry point, the embedding of the files, and the other shell and Python
  scripts that run inside the containers.
\<close>

end
